(* ===== verification/Prelude.thy ===== *)
theory Prelude
  imports Main "HOL-Library.Sublist" "HOL-Library.AList"
begin

text \<open>
  Shared vocabulary of the development. Python text (\<open>str\<close>) is a sequence of
  Unicode code points, so it is modelled as a list of naturals (\<open>pystr\<close>), not as
  Isabelle's byte-sized \<open>string\<close>; an ASCII literal of the source is written
  \<open>S ''...''\<close>, and a non-ASCII character (the emoji of the script's messages) by its
  code point. The Python exceptions that can escape from the modelled code form one
  datatype \<open>py_exc\<close>, shared by the JSON decoder and the provisioning script.
  The collection \<open>lit_simps\<close> evaluates literals; \<open>step_rules\<close> collects the
  rules by which a property of all runs of the script is proved block by block, and
  \<open>path_rules\<close> the rules that build one path of a step (what it prints and runs on a
  given world) out of the paths of its parts.
\<close>

named_theorems lit_simps "rules that evaluate code-point literals"
named_theorems step_rules "compositional rules for the predicates on the script's steps"
named_theorems path_rules "rules that compose one path of a step out of the paths of its parts"

type_synonym codepoint = nat
type_synonym pystr = "codepoint list"

definition S :: "string \<Rightarrow> pystr" where
  "S cs = map of_char cs"

declare S_def [lit_simps]

text \<open>
  The exceptions of Python that the modelled code can raise. Each is one constructor;
  the message text Python attaches is not modelled.
\<close>

datatype py_exc =
    OSError              \<comment> \<open>a program could not be started (FileNotFoundError and kin)\<close>
  | CalledProcessError   \<comment> \<open>\<open>subprocess.run(..., check=True)\<close> saw a non-zero status\<close>
  | UnicodeDecodeError   \<comment> \<open>captured output was not valid text in the locale's encoding\<close>
  | EOFError             \<comment> \<open>\<open>input()\<close> found standard input closed\<close>
  | JSONDecodeError      \<comment> \<open>\<open>json.loads\<close> rejected its input\<close>
  | RecursionError       \<comment> \<open>\<open>json.loads\<close> nested deeper than the interpreter allows\<close>
  | ValueError           \<comment> \<open>an integer literal beyond the interpreter's digit limit\<close>
  | AttributeError       \<comment> \<open>\<open>.get\<close> called on a value that is not a dict\<close>
  | TypeError            \<comment> \<open>\<open>in\<close> applied to a value that is not a container\<close>

subsection \<open>Literals\<close>

lemma S_Nil [simp]: "S [] = []"
  by (simp add: S_def)

lemma S_append [simp]: "S (xs @ ys) = S xs @ S ys"
  by (simp add: S_def)

lemma S_eq_Nil_iff [simp]: "S cs = [] \<longleftrightarrow> cs = []"
  by (simp add: S_def)

lemma length_S [simp]: "length (S cs) = length cs"
  by (simp add: S_def)

lemma S_inject [simp]: "S xs = S ys \<longleftrightarrow> xs = ys"
proof -
  have "inj (of_char :: char \<Rightarrow> nat)"
    by (rule injI) simp
  then show ?thesis
    by (simp add: S_def inj_map_eq_map)
qed

lemma S_ascii: "c \<in> set (S cs) \<Longrightarrow> c < 256"
  by (auto simp: S_def)

subsection \<open>Generic list facts\<close>

lemma all_dropWhile_iff [simp]:
  "(\<forall>x \<in> set (dropWhile P xs). P x) \<longleftrightarrow> (\<forall>x \<in> set xs. P x)"
proof
  assume a: "\<forall>x \<in> set (dropWhile P xs). P x"
  show "\<forall>x \<in> set xs. P x"
  proof (cases "dropWhile P xs")
    case Nil
    then show ?thesis by simp
  next
    case (Cons y ys)
    with a hd_dropWhile [of P xs] show ?thesis by simp
  qed
qed (auto dest: set_dropWhileD)

end
