(* ===== verification/PyStr.thy ===== *)
theory PyStr
  imports Prelude
begin

text \<open>
  The Python string operations the script applies to its inputs and to the output of
  the programs it runs: \<open>str.strip()\<close> (source lines 36 and 41) and the operator
  \<open>in\<close> on strings (lines 71 and 75). Both are CPython library code, modelled from
  its implementation: \<open>str.strip()\<close> is \<open>do_strip\<close> of
  \<open>Objects/unicodeobject.c\<close>, two index loops over the code points with the
  whitespace test \<open>Py_UNICODE_ISSPACE\<close>; \<open>in\<close> is substring search. Each is
  proved equal to a reference definition (\<open>strip_spec\<close> by \<open>dropWhile\<close>, and
  \<open>sublist\<close> of \<open>HOL-Library.Sublist\<close>), and the reference gives the properties
  the script relies on.
\<close>

subsection \<open>Whitespace\<close>

text \<open>
  \<open>Py_UNICODE_ISSPACE\<close>: the code points with bidirectional class WS, B or S, or
  general category Zs, exactly the ones \<open>str.isspace()\<close> accepts.
\<close>

definition py_isspace :: "codepoint \<Rightarrow> bool" where
  "py_isspace c \<longleftrightarrow>
     (9 \<le> c \<and> c \<le> 13) \<or> (28 \<le> c \<and> c \<le> 32) \<or> c = 133 \<or> c = 160 \<or> c = 5760 \<or>
     (8192 \<le> c \<and> c \<le> 8202) \<or> c = 8232 \<or> c = 8233 \<or> c = 8239 \<or> c = 8287 \<or> c = 12288"

subsection \<open>\<open>str.strip()\<close> as CPython computes it\<close>

text \<open>
  \<^verbatim>\<open>
  i = 0;
  while (i < len && Py_UNICODE_ISSPACE(data[i])) i++;
  j = len;
  do { j--; } while (j >= i && Py_UNICODE_ISSPACE(data[j]));
  j++;
  return PyUnicode_Substring(self, i, j);
  \<close>
  The second loop is written with \<open>e = j + 1\<close>, the end of the kept slice, so that it
  stays within \<open>nat\<close>: it steps down while \<open>i < e\<close> and \<open>data[e-1]\<close> is a space.
\<close>

function strip_left :: "pystr \<Rightarrow> nat \<Rightarrow> nat" where
  "strip_left s i = (if i < length s \<and> py_isspace (s ! i) then strip_left s (Suc i) else i)"
  by pat_completeness auto
termination
  by (relation "measure (\<lambda>(s, i). length s - i)") auto

declare strip_left.simps [simp del]

fun strip_right :: "pystr \<Rightarrow> nat \<Rightarrow> nat \<Rightarrow> nat" where
  "strip_right s i 0 = 0"
| "strip_right s i (Suc e) =
     (if i < Suc e \<and> py_isspace (s ! e) then strip_right s i e else Suc e)"

definition str_strip :: "pystr \<Rightarrow> pystr" where
  "str_strip s =
     (let i = strip_left s 0; j = strip_right s i (length s) in take (j - i) (drop i s))"

text \<open>The reference: drop the leading spaces, then the trailing ones.\<close>

definition strip_spec :: "pystr \<Rightarrow> pystr" where
  "strip_spec s = rev (dropWhile py_isspace (rev (dropWhile py_isspace s)))"

subsection \<open>Substring test\<close>

text \<open>
  \<open>needle in hay\<close> for two strings: whether \<open>needle\<close> occurs at some position of
  \<open>hay\<close>. CPython searches with its \<open>fastsearch\<close> routine; its result is this
  position-by-position search.
\<close>

fun py_contains :: "pystr \<Rightarrow> pystr \<Rightarrow> bool" where
  "py_contains n [] = (n = [])"
| "py_contains n (c # cs) = (prefix n (c # cs) \<or> py_contains n cs)"

subsection \<open>The loops against the reference\<close>

lemma strip_left_eq:
  "i \<le> length s \<Longrightarrow> strip_left s i = i + length (takeWhile py_isspace (drop i s))"
proof (induction s i rule: strip_left.induct)
  case (1 s i)
  show ?case
  proof (cases "i < length s \<and> py_isspace (s ! i)")
    case True
    then have "drop i s = s ! i # drop (Suc i) s"
      by (simp add: Cons_nth_drop_Suc)
    with True "1.IH" show ?thesis
      by (simp add: strip_left.simps [of s i])
  next
    case False
    with "1.prems" have "takeWhile py_isspace (drop i s) = []"
      by (cases "i < length s") (auto simp: takeWhile_eq_Nil_iff hd_drop_conv_nth)
    moreover have "strip_left s i = i"
      by (subst strip_left.simps) (rule if_not_P [OF False])
    ultimately show ?thesis by simp
  qed
qed

lemma take_Suc_rev:
  "i < Suc e \<Longrightarrow> Suc e \<le> length s \<Longrightarrow>
   rev (take (Suc e - i) (drop i s)) = s ! e # rev (take (e - i) (drop i s))"
proof -
  assume a: "i < Suc e" "Suc e \<le> length s"
  then have "Suc e - i = Suc (e - i)" by simp
  moreover have "e - i < length (drop i s)" using a by simp
  moreover have "drop i s ! (e - i) = s ! e" using a by simp
  ultimately have "take (Suc e - i) (drop i s) = take (e - i) (drop i s) @ [s ! e]"
    by (simp add: take_Suc_conv_app_nth)
  then show ?thesis by simp
qed

lemma strip_right_eq:
  "e \<le> length s \<Longrightarrow>
   strip_right s i e = e - length (takeWhile py_isspace (rev (take (e - i) (drop i s))))"
proof (induction e)
  case 0
  then show ?case by simp
next
  case (Suc e)
  show ?case
  proof (cases "i < Suc e")
    case True
    note rev_eq = take_Suc_rev [OF True Suc.prems]
    show ?thesis
    proof (cases "py_isspace (s ! e)")
      case sp: True
      from Suc.prems have "strip_right s i e =
          e - length (takeWhile py_isspace (rev (take (e - i) (drop i s))))"
        by (intro Suc.IH) simp
      with True sp rev_eq show ?thesis by simp
    next
      case False
      with rev_eq show ?thesis by simp
    qed
  next
    case False
    then show ?thesis by simp
  qed
qed

lemma rev_dropWhile_rev:
  "rev (dropWhile P (rev d)) = take (length d - length (takeWhile P (rev d))) d"
  by (simp add: dropWhile_eq_drop rev_drop)

lemma drop_takeWhile_dropWhile:
  "drop (length (takeWhile P s)) s = dropWhile P s"
  by (simp add: dropWhile_eq_drop)

subsection \<open>Characteristic facts of the reference\<close>

lemma strip_spec_Nil_iff: "strip_spec s = [] \<longleftrightarrow> (\<forall>c \<in> set s. py_isspace c)"
  by (simp add: strip_spec_def)

lemma strip_spec_ends:
  "strip_spec s \<noteq> [] \<Longrightarrow>
   \<not> py_isspace (hd (strip_spec s)) \<and> \<not> py_isspace (last (strip_spec s))"
proof -
  assume ne: "strip_spec s \<noteq> []"
  let ?d = "dropWhile py_isspace s"
  have last: "\<not> py_isspace (last (strip_spec s))"
    using ne hd_dropWhile [of py_isspace "rev ?d"]
    by (simp add: strip_spec_def hd_rev [symmetric])
  have "?d \<noteq> []" using ne by (auto simp: strip_spec_def)
  then obtain c cs where d: "?d = c # cs" by (cases ?d) auto
  then have c: "\<not> py_isspace c" using hd_dropWhile [of py_isspace s] by simp
  have "rev (dropWhile py_isspace (rev (c # cs))) = c # rev (dropWhile py_isspace (rev cs))"
    using c by (simp add: dropWhile_append)
  with d c have "hd (strip_spec s) = c" by (simp add: strip_spec_def)
  with c last show ?thesis by simp
qed

lemma strip_spec_split:
  "s = takeWhile py_isspace s @ strip_spec s @
       rev (takeWhile py_isspace (rev (dropWhile py_isspace s)))"
proof -
  let ?d = "dropWhile py_isspace s"
  have d: "strip_spec s @ rev (takeWhile py_isspace (rev ?d)) = ?d"
    unfolding strip_spec_def by (simp flip: rev_append)
  show ?thesis
    by (simp only: d takeWhile_dropWhile_id)
qed

subsection \<open>Properties of \<open>str.strip()\<close> and \<open>in\<close>\<close>

text \<open>
  The index loops of CPython compute the reference (a functional refinement): leading
  spaces up to the first non-space, trailing spaces back to the last one, never crossing.
\<close>

lemma str_strip_spec: "str_strip s = strip_spec s"
proof -
  let ?d = "dropWhile py_isspace s"
  let ?i = "length (takeWhile py_isspace s)"
  let ?k = "length (takeWhile py_isspace (rev ?d))"
  have i: "strip_left s 0 = ?i"
    using strip_left_eq [of 0 s] by simp
  have di: "drop ?i s = ?d"
    by (rule drop_takeWhile_dropWhile)
  have len: "length ?d = length s - ?i"
    using di by (metis length_drop)
  have j: "strip_right s ?i (length s) = length s - ?k"
    using strip_right_eq [of "length s" s ?i] di len by simp
  have "length s - ?k - ?i = length ?d - ?k"
    using len by simp
  then have "str_strip s = take (length ?d - ?k) ?d"
    by (simp add: str_strip_def i j di Let_def)
  then show ?thesis
    by (simp add: strip_spec_def rev_dropWhile_rev)
qed

text \<open>
  C16: the script's test \<open>if not username\<close> after \<open>.strip()\<close> fires exactly
  when the whole input line consists of whitespace.
\<close>

theorem str_strip_Nil_iff: "str_strip s = [] \<longleftrightarrow> (\<forall>c \<in> set s. py_isspace c)"
  by (simp add: str_strip_spec strip_spec_Nil_iff)

text \<open>
  Shape of the result: the input is a run of whitespace, the result, and a run of
  whitespace; a non-empty result neither starts nor ends with whitespace.
\<close>

theorem str_strip_shape:
  "\<exists>a b. s = a @ str_strip s @ b \<and> (\<forall>c \<in> set a. py_isspace c) \<and>
         (\<forall>c \<in> set b. py_isspace c) \<and>
         (str_strip s \<noteq> [] \<longrightarrow>
            \<not> py_isspace (hd (str_strip s)) \<and> \<not> py_isspace (last (str_strip s)))"
proof -
  let ?a = "takeWhile py_isspace s"
  let ?b = "rev (takeWhile py_isspace (rev (dropWhile py_isspace s)))"
  have "s = ?a @ str_strip s @ ?b"
    using strip_spec_split [of s] by (simp add: str_strip_spec)
  moreover have "\<forall>c \<in> set ?a. py_isspace c" "\<forall>c \<in> set ?b. py_isspace c"
    by (auto dest: set_takeWhileD)
  ultimately show ?thesis
    using strip_spec_ends [of s] by (metis str_strip_spec)
qed

theorem str_strip_idem: "str_strip (str_strip s) = str_strip s"
proof (cases "strip_spec s = []")
  case True
  then show ?thesis by (simp add: str_strip_spec strip_spec_def [of "[]"])
next
  case False
  then obtain c cs where cs: "strip_spec s = c # cs" by (cases "strip_spec s") auto
  from False have ends: "\<not> py_isspace (hd (strip_spec s))" "\<not> py_isspace (last (strip_spec s))"
    using strip_spec_ends by blast+
  have "dropWhile py_isspace (strip_spec s) = strip_spec s"
    using ends(1) by (simp add: cs)
  moreover have "dropWhile py_isspace (rev (strip_spec s)) = rev (strip_spec s)"
    using ends(2) False by (simp add: dropWhile_eq_self_iff hd_rev)
  ultimately show ?thesis
    by (simp add: str_strip_spec strip_spec_def [of "strip_spec s"])
qed

lemma py_contains_sublist: "py_contains n h \<longleftrightarrow> sublist n h"
  by (induction h) (simp_all add: sublist_Cons_right)

text \<open>
  C15: \<open>str.strip()\<close> as CPython's index loops compute it removes exactly the
  leading whitespace and then the trailing whitespace of what is left.
\<close>

theorem str_strip_eq_spec: "str_strip s = rev (dropWhile py_isspace (rev (dropWhile py_isspace s)))"
  by (simp add: str_strip_spec strip_spec_def)

text \<open>
  C17: \<open>needle in hay\<close> on two strings holds exactly when \<open>hay\<close> is some text,
  then \<open>needle\<close>, then some text.
\<close>

theorem py_contains_iff_substring: "py_contains n h \<longleftrightarrow> (\<exists>a b. h = a @ n @ b)"
  by (simp add: py_contains_sublist sublist_def)

end
