(* ===== verification/Json.thy ===== *)
theory Json
  imports PyStr
begin

text \<open>
  Python's \<open>json\<close> module as the script uses it: \<open>json.dumps\<close> builds the request
  bodies (source lines 56--65 and 116--118) and \<open>json.loads\<close> reads the reply of the
  repository-creation call (line 72). Both are CPython library code, modelled from its
  C accelerator \<open>Modules/_json.c\<close> (\<open>py_encode_basestring_ascii\<close>,
  \<open>encoder_listencode_obj\<close>, \<open>scanstring_unicode\<close>, \<open>scan_once_unicode\<close>,
  \<open>_parse_object_unicode\<close>, \<open>_parse_array_unicode\<close>, \<open>_match_number_unicode\<close>)
  and \<open>Lib/json/decoder.py\<close> (\<open>JSONDecoder.decode\<close>).

  A decoded value is a \<open>json\<close>: \<open>None\<close>, a bool, an int, a float, a str, a list
  or a dict. A dict is the list of its items in insertion order; storing an item is
  \<open>AList.update\<close>, which keeps the position of an existing key and replaces its
  value, as \<open>PyDict_SetItem\<close> does. A float is kept as the literal it was read from
  (\<open>float()\<close> of that text is the Python value; its rounding is not modelled).

  The scanner recurses on nested containers, so it is written with fuel; the lemmas show
  that \<open>2 * length s + 1\<close> units are always enough and that more fuel changes nothing.
  Independently of fuel, the interpreter refuses nesting beyond its recursion limit
  (\<open>RecursionError\<close>) and integer literals beyond \<open>sys.get_int_max_str_digits()\<close>
  digits (\<open>ValueError\<close>); both limits are fields of \<open>py_config\<close>.
\<close>

datatype json =
    JNull
  | JBool bool
  | JInt int
  | JFloat pystr
  | JStr pystr
  | JArr "json list"
  | JObj "(pystr \<times> json) list"

record py_config =
  recursion_room :: nat       \<comment> \<open>containers the scanner may open before \<open>RecursionError\<close>\<close>
  int_max_str_digits :: nat   \<comment> \<open>\<open>sys.get_int_max_str_digits()\<close>; 0 means no limit\<close>

subsection \<open>Encoding: \<open>json.dumps\<close> with its defaults\<close>

text \<open>
  Defaults: \<open>ensure_ascii=True\<close>, separators \<open>', '\<close> and \<open>': '\<close>, no indent,
  keys in insertion order. Hex digits are lower case (\<open>Py_hexdigits\<close>).
\<close>

definition hex_digit :: "nat \<Rightarrow> codepoint" where
  "hex_digit d = (if d < 10 then 48 + d else 87 + d)"

definition hex4 :: "nat \<Rightarrow> pystr" where
  "hex4 n = map (\<lambda>k. hex_digit (n div 16 ^ k mod 16)) [3, 2, 1, 0]"

text \<open>
  \<open>ascii_escape_unichar\<close>, guarded by \<open>S_CHAR\<close>: printable ASCII other than
  backslash and quote is copied; the rest is escaped, a code point above the Basic
  Multilingual Plane as a UTF-16 surrogate pair.
\<close>

definition ascii_escape :: "codepoint \<Rightarrow> pystr" where
  "ascii_escape c =
     (if 32 \<le> c \<and> c \<le> 126 \<and> c \<noteq> 92 \<and> c \<noteq> 34 then [c]
      else if c = 92 then [92, 92]
      else if c = 34 then [92, 34]
      else if c = 8 then [92, 98]
      else if c = 12 then [92, 102]
      else if c = 10 then [92, 110]
      else if c = 13 then [92, 114]
      else if c = 9 then [92, 116]
      else if c < 65536 then 92 # 117 # hex4 c
      else 92 # 117 # hex4 (55232 + c div 1024) @ 92 # 117 # hex4 (56320 + c mod 1024))"

definition encode_str :: "pystr \<Rightarrow> pystr" where
  "encode_str s = 34 # concat (map ascii_escape s) @ [34]"

fun digits_of :: "nat \<Rightarrow> pystr" where
  "digits_of n = (if n < 10 then [48 + n] else digits_of (n div 10) @ [48 + n mod 10])"

declare digits_of.simps [simp del]

definition int_repr :: "int \<Rightarrow> pystr" where
  "int_repr i = (if i < 0 then 45 # digits_of (nat (- i)) else digits_of (nat i))"

text \<open>\<open>', '.join(parts)\<close>.\<close>

fun join :: "pystr \<Rightarrow> pystr list \<Rightarrow> pystr" where
  "join sep [] = []"
| "join sep [x] = x"
| "join sep (x # y # ys) = x @ sep @ join sep (y # ys)"

fun json_dumps :: "json \<Rightarrow> pystr" where
  "json_dumps JNull = S ''null''"
| "json_dumps (JBool b) = (if b then S ''true'' else S ''false'')"
| "json_dumps (JInt i) = int_repr i"
| "json_dumps (JFloat lit) = lit"
| "json_dumps (JStr s) = encode_str s"
| "json_dumps (JArr vs) = 91 # join (S '', '') (map json_dumps vs) @ [93]"
| "json_dumps (JObj ps) =
     123 # join (S '', '') (map (\<lambda>(k, v). encode_str k @ S '': '' @ json_dumps v) ps) @ [125]"

subsection \<open>Decoding: the scanner of \<open>json.loads\<close>\<close>

text \<open>\<open>IS_WHITESPACE\<close> of the scanner, and \<open>WHITESPACE\<close> of \<open>decoder.py\<close>.\<close>

definition is_ws :: "codepoint \<Rightarrow> bool" where
  "is_ws c \<longleftrightarrow> c = 32 \<or> c = 9 \<or> c = 10 \<or> c = 13"

definition skip_ws :: "pystr \<Rightarrow> pystr" where
  "skip_ws s = dropWhile is_ws s"

definition is_digit :: "codepoint \<Rightarrow> bool" where
  "is_digit c \<longleftrightarrow> 48 \<le> c \<and> c \<le> 57"

definition hex_val :: "codepoint \<Rightarrow> nat option" where
  "hex_val c =
     (if 48 \<le> c \<and> c \<le> 57 then Some (c - 48)
      else if 97 \<le> c \<and> c \<le> 102 then Some (c - 87)
      else if 65 \<le> c \<and> c \<le> 70 then Some (c - 55)
      else None)"

definition hex4_val :: "pystr \<Rightarrow> nat option" where
  "hex4_val s =
     (case s of
        [a, b, c, d] \<Rightarrow>
          (case (hex_val a, hex_val b, hex_val c, hex_val d) of
             (Some w, Some x, Some y, Some z) \<Rightarrow> Some (((w * 16 + x) * 16 + y) * 16 + z)
           | _ \<Rightarrow> None)
      | _ \<Rightarrow> None)"

text \<open>The one-character escapes after a backslash.\<close>

definition simple_escape :: "codepoint \<Rightarrow> codepoint option" where
  "simple_escape c =
     (if c = 34 then Some 34 else if c = 92 then Some 92 else if c = 47 then Some 47
      else if c = 98 then Some 8 else if c = 102 then Some 12 else if c = 110 then Some 10
      else if c = 114 then Some 13 else if c = 116 then Some 9 else None)"

text \<open>
  \<open>scanstring_unicode\<close> in strict mode, from just after the opening quote: it returns
  the decoded text and the input after the closing quote. A control character is an
  error. The escape after a backslash is \<open>decode_escape\<close>: \<open>\u\<close> needs four hex
  digits and one more character of input (\<open>end >= len\<close> is refused); a high
  surrogate followed by \<open>\u\<close> and more than six characters reads the second escape,
  joins a low surrogate, and otherwise keeps the high one alone so that the loop rescans
  the second escape.
\<close>

definition decode_escape :: "pystr \<Rightarrow> py_exc + (codepoint \<times> pystr)" where
  "decode_escape cs =
     (case cs of
        [] \<Rightarrow> Inl JSONDecodeError
      | e # r \<Rightarrow>
          if e \<noteq> 117 then
            (case simple_escape e of None \<Rightarrow> Inl JSONDecodeError | Some u \<Rightarrow> Inr (u, r))
          else if length r \<le> 4 then Inl JSONDecodeError
          else
            (case hex4_val (take 4 r) of
               None \<Rightarrow> Inl JSONDecodeError
             | Some u \<Rightarrow>
                 if 55296 \<le> u \<and> u \<le> 56319 \<and> 6 < length (drop 4 r) \<and>
                    drop 4 r ! 0 = 92 \<and> drop 4 r ! 1 = 117
                 then
                   (case hex4_val (take 4 (drop 6 r)) of
                      None \<Rightarrow> Inl JSONDecodeError
                    | Some u2 \<Rightarrow>
                        if 56320 \<le> u2 \<and> u2 \<le> 57343
                        then Inr (65536 + (u - 55296) * 1024 + (u2 - 56320), drop 10 r)
                        else Inr (u, drop 4 r))
                 else Inr (u, drop 4 r)))"

function scan_str :: "pystr \<Rightarrow> pystr \<Rightarrow> py_exc + (pystr \<times> pystr)" where
  "scan_str acc [] = Inl JSONDecodeError"
| "scan_str acc (c # cs) =
     (if c = 34 then Inr (acc, cs)
      else if c = 92 then
        (case decode_escape cs of Inl e \<Rightarrow> Inl e | Inr (u, r) \<Rightarrow> scan_str (acc @ [u]) r)
      else if c \<le> 31 then Inl JSONDecodeError
      else scan_str (acc @ [c]) cs)"
  by pat_completeness auto
termination
  by (relation "measure (\<lambda>(acc, s). length s)")
     (auto simp: decode_escape_def split: list.splits if_splits option.splits)

text \<open>
  \<open>_match_number_unicode\<close>: optional minus, then \<open>0\<close> or a non-zero digit and
  more digits; a fraction only when a digit follows the dot; an exponent only when
  digits follow (\<open>e\<close>, an optional sign with one more character behind it, digits),
  otherwise the scanner backs up to the \<open>e\<close>. Without fraction and exponent the
  literal is an int, and more digits than \<open>int_max_str_digits\<close> raise
  \<open>ValueError\<close>.
\<close>

definition digits_val :: "pystr \<Rightarrow> nat" where
  "digits_val ds = foldl (\<lambda>n c. 10 * n + (c - 48)) 0 ds"

definition int_digits_ok :: "py_config \<Rightarrow> nat \<Rightarrow> bool" where
  "int_digits_ok cfg n \<longleftrightarrow> int_max_str_digits cfg = 0 \<or> n \<le> int_max_str_digits cfg"

definition num_int :: "pystr \<Rightarrow> pystr" where
  "num_int s = (if hd s = 48 then [48] else takeWhile is_digit s)"

definition num_frac :: "pystr \<Rightarrow> pystr" where
  "num_frac r =
     (if 2 \<le> length r \<and> hd r = 46 \<and> is_digit (r ! 1)
      then 46 # takeWhile is_digit (tl r) else [])"

definition num_exp :: "pystr \<Rightarrow> pystr" where
  "num_exp r =
     (let r' = tl r;
          sg = (if 2 \<le> length r' \<and> (hd r' = 45 \<or> hd r' = 43) then [hd r'] else []);
          ed = takeWhile is_digit (drop (length sg) r')
      in if 2 \<le> length r \<and> (hd r = 101 \<or> hd r = 69) \<and> ed \<noteq> [] then hd r # sg @ ed else [])"

definition match_number :: "py_config \<Rightarrow> pystr \<Rightarrow> py_exc + (json \<times> pystr)" where
  "match_number cfg s =
     (let neg = (s \<noteq> [] \<and> hd s = 45);
          s1 = (if neg then tl s else s)
      in if s1 = [] \<or> \<not> is_digit (hd s1) then Inl JSONDecodeError
      else
        let ip = num_int s1;
            r1 = drop (length ip) s1;
            fp = num_frac r1;
            r2 = drop (length fp) r1;
            ep = num_exp r2;
            rest = drop (length ep) r2;
            lit = (if neg then [45] else []) @ ip @ fp @ ep
        in if fp \<noteq> [] \<or> ep \<noteq> [] then Inr (JFloat lit, rest)
           else if \<not> int_digits_ok cfg (length ip) then Inl ValueError
           else Inr (JInt (if neg then - int (digits_val ip) else int (digits_val ip)), rest))"

type_synonym 'a scan = "(py_exc + ('a \<times> pystr)) option"

text \<open>
  \<open>scan_once_unicode\<close> (\<open>scan_value\<close>), the element loop of
  \<open>_parse_array_unicode\<close> (\<open>scan_items\<close>) and the item loop of
  \<open>_parse_object_unicode\<close> (\<open>scan_members\<close>). The first argument is fuel
  (\<open>None\<close>: exhausted), the third the room left before \<open>Py_EnterRecursiveCall\<close>
  fails. The loops get the input at an element (after the opening bracket or a comma
  and the whitespace behind it) and the items read so far.
\<close>

fun scan_value :: "nat \<Rightarrow> py_config \<Rightarrow> nat \<Rightarrow> pystr \<Rightarrow> json scan"
and scan_items :: "nat \<Rightarrow> py_config \<Rightarrow> nat \<Rightarrow> json list \<Rightarrow> pystr \<Rightarrow> json list scan"
and scan_members ::
  "nat \<Rightarrow> py_config \<Rightarrow> nat \<Rightarrow> (pystr \<times> json) list \<Rightarrow> pystr \<Rightarrow> (pystr \<times> json) list scan"
where
  "scan_value 0 cfg d s = None"
| "scan_value (Suc f) cfg d s =
     (case s of
        [] \<Rightarrow> Some (Inl JSONDecodeError)
      | c # cs \<Rightarrow>
          if c = 34 then
            Some (case scan_str [] cs of Inl e \<Rightarrow> Inl e | Inr (t, r) \<Rightarrow> Inr (JStr t, r))
          else if c = 123 then
            (if d = 0 then Some (Inl RecursionError)
             else if skip_ws cs \<noteq> [] \<and> hd (skip_ws cs) = 125
             then Some (Inr (JObj [], tl (skip_ws cs)))
             else
               (case scan_members f cfg (d - 1) [] (skip_ws cs) of
                  None \<Rightarrow> None
                | Some (Inl e) \<Rightarrow> Some (Inl e)
                | Some (Inr (ps, r)) \<Rightarrow> Some (Inr (JObj ps, r))))
          else if c = 91 then
            (if d = 0 then Some (Inl RecursionError)
             else if skip_ws cs \<noteq> [] \<and> hd (skip_ws cs) = 93
             then Some (Inr (JArr [], tl (skip_ws cs)))
             else
               (case scan_items f cfg (d - 1) [] (skip_ws cs) of
                  None \<Rightarrow> None
                | Some (Inl e) \<Rightarrow> Some (Inl e)
                | Some (Inr (vs, r)) \<Rightarrow> Some (Inr (JArr vs, r))))
          else if c = 110 \<and> take 3 cs = S ''ull'' then Some (Inr (JNull, drop 3 cs))
          else if c = 116 \<and> take 3 cs = S ''rue'' then Some (Inr (JBool True, drop 3 cs))
          else if c = 102 \<and> take 4 cs = S ''alse'' then Some (Inr (JBool False, drop 4 cs))
          else if c = 78 \<and> take 2 cs = S ''aN'' then Some (Inr (JFloat (S ''NaN''), drop 2 cs))
          else if c = 73 \<and> take 7 cs = S ''nfinity''
          then Some (Inr (JFloat (S ''Infinity''), drop 7 cs))
          else if c = 45 \<and> take 8 cs = S ''Infinity''
          then Some (Inr (JFloat (S ''-Infinity''), drop 8 cs))
          else Some (match_number cfg s))"
| "scan_items 0 cfg d acc s = None"
| "scan_items (Suc f) cfg d acc s =
     (case scan_value f cfg d s of
        None \<Rightarrow> None
      | Some (Inl e) \<Rightarrow> Some (Inl e)
      | Some (Inr (v, r)) \<Rightarrow>
          (case skip_ws r of
             [] \<Rightarrow> Some (Inl JSONDecodeError)
           | c # r' \<Rightarrow>
               if c = 93 then Some (Inr (acc @ [v], r'))
               else if c = 44 then scan_items f cfg d (acc @ [v]) (skip_ws r')
               else Some (Inl JSONDecodeError)))"
| "scan_members 0 cfg d acc s = None"
| "scan_members (Suc f) cfg d acc s =
     (case s of
        [] \<Rightarrow> Some (Inl JSONDecodeError)
      | q # cs \<Rightarrow>
          if q \<noteq> 34 then Some (Inl JSONDecodeError)
          else
            (case scan_str [] cs of
               Inl e \<Rightarrow> Some (Inl e)
             | Inr (k, r) \<Rightarrow>
                 (case skip_ws r of
                    [] \<Rightarrow> Some (Inl JSONDecodeError)
                  | c # r' \<Rightarrow>
                      if c \<noteq> 58 then Some (Inl JSONDecodeError)
                      else
                        (case scan_value f cfg d (skip_ws r') of
                           None \<Rightarrow> None
                         | Some (Inl e) \<Rightarrow> Some (Inl e)
                         | Some (Inr (v, r'')) \<Rightarrow>
                             (case skip_ws r'' of
                                [] \<Rightarrow> Some (Inl JSONDecodeError)
                              | c' # r3 \<Rightarrow>
                                  if c' = 125 then Some (Inr (AList.update k v acc, r3))
                                  else if c' = 44
                                  then scan_members f cfg d (AList.update k v acc) (skip_ws r3)
                                  else Some (Inl JSONDecodeError))))))"

text \<open>
  \<open>json.loads(s)\<close>: a leading byte-order mark is refused, whitespace around the value
  is skipped, and anything after it is \<open>"Extra data"\<close>. The fuel \<open>2 * length s + 1\<close>
  never runs out (\<open>scan_fuel_enough\<close>: an element loop may rescan its position once,
  every other call consumes input), so the \<open>None\<close> branch is never taken.
\<close>

definition json_loads :: "py_config \<Rightarrow> pystr \<Rightarrow> py_exc + json" where
  "json_loads cfg s =
     (if s \<noteq> [] \<and> hd s = 65279 then Inl JSONDecodeError
      else case scan_value (Suc (2 * length s)) cfg (recursion_room cfg) (skip_ws s) of
        None \<Rightarrow> Inl JSONDecodeError
      | Some (Inl e) \<Rightarrow> Inl e
      | Some (Inr (v, r)) \<Rightarrow> if skip_ws r = [] then Inr v else Inl JSONDecodeError)"

subsection \<open>Python operations on decoded values\<close>

text \<open>
  \<open>needle in v\<close> for a str \<open>needle\<close>: substring test on a str, element test on a
  list (a str equals only a str with the same text), key test on a dict, and
  \<open>TypeError\<close> for \<open>None\<close>, bools and numbers, which are not containers.
\<close>

fun str_in_value :: "pystr \<Rightarrow> json \<Rightarrow> py_exc + bool" where
  "str_in_value n (JStr s) = Inr (py_contains n s)"
| "str_in_value n (JArr vs) = Inr (JStr n \<in> set vs)"
| "str_in_value n (JObj ps) = Inr (n \<in> set (map fst ps))"
| "str_in_value n JNull = Inl TypeError"
| "str_in_value n (JBool b) = Inl TypeError"
| "str_in_value n (JInt i) = Inl TypeError"
| "str_in_value n (JFloat x) = Inl TypeError"

subsection \<open>The scanner consumes input, terminates, and is independent of fuel\<close>

lemma length_skip_ws_le: "length (skip_ws s) \<le> length s"
  by (simp add: skip_ws_def length_dropWhile_le)

lemma decode_escape_shorter: "decode_escape cs = Inr (u, r) \<Longrightarrow> length r < length cs"
  by (auto simp: decode_escape_def split: list.splits if_splits option.splits)

lemma scan_str_shorter: "scan_str acc s = Inr (t, r) \<Longrightarrow> length r < length s"
proof (induction acc s rule: scan_str.induct)
  case (1 acc)
  then show ?case by simp
next
  case (2 acc c cs)
  show ?case
  proof (cases "c = 34 \<or> c = 92")
    case True
    with "2.prems" "2.IH"(1) show ?thesis
      by (fastforce split: sum.splits dest: decode_escape_shorter)
  next
    case False
    with "2.prems" "2.IH"(2) show ?thesis
      by (fastforce split: if_splits)
  qed
qed

lemma num_int_nonempty: "s \<noteq> [] \<Longrightarrow> is_digit (hd s) \<Longrightarrow> num_int s \<noteq> []"
  by (cases s) (auto simp: num_int_def)

lemma match_number_shorter:
  assumes "match_number cfg s = Inr (v, r)"
  shows "length r < length s"
proof -
  let ?s1 = "if s \<noteq> [] \<and> hd s = 45 then tl s else s"
  have ne: "?s1 \<noteq> []" "is_digit (hd ?s1)"
    using assms by (auto simp: match_number_def Let_def split: if_splits)
  then have "num_int ?s1 \<noteq> []" by (rule num_int_nonempty)
  then have pos: "0 < length (num_int ?s1)" by simp
  have le: "length ?s1 \<le> length s" by auto
  show ?thesis
    using assms ne(1) pos le by (auto simp: match_number_def Let_def split: if_splits)
qed


lemma tl_skip_ws_shorter: "skip_ws s \<noteq> [] \<Longrightarrow> length (tl (skip_ws s)) < length s"
  using length_skip_ws_le [of s] by (cases "skip_ws s") auto

lemma scan_shorter:
  "scan_value f cfg d s = Some (Inr (v, r)) \<Longrightarrow> length r < length s"
  "scan_items f cfg d acc s = Some (Inr (vs, r)) \<Longrightarrow> length r < length s"
  "scan_members f cfg d ps s = Some (Inr (qs, r)) \<Longrightarrow> length r < length s"
proof (induction f cfg d s and f cfg d acc s and f cfg d ps s arbitrary: v r and vs r and qs r
       rule: scan_value_scan_items_scan_members.induct)
  case (2 f cfg d s)
  then obtain c cs where s: "s = c # cs" by (cases s) auto
  have ws: "length (skip_ws cs) < length s" using length_skip_ws_le [of cs] s by simp
  show ?case
  proof (cases "c = 123 \<or> c = 91")
    case True
    with "2.prems" "2.IH" ws s show ?thesis
      by (auto split: if_splits option.splits sum.splits dest!: tl_skip_ws_shorter)
         (fastforce dest: less_trans)+
  next
    case False
    with "2.prems" s show ?thesis
      by (auto split: if_splits sum.splits dest!: scan_str_shorter match_number_shorter)
  qed
next
  case (4 f cfg d acc s)
  from "4.prems" obtain v0 r0 where v0: "scan_value f cfg d s = Some (Inr (v0, r0))"
    by (auto split: option.splits sum.splits)
  with "4.IH"(1) have r0: "length r0 < length s" by blast
  from "4.prems" v0 obtain c r' where sk: "skip_ws r0 = c # r'"
    by (auto split: list.splits)
  have r': "length r' < length s"
    using length_skip_ws_le [of r0] sk r0 by simp
  show ?case
  proof (cases "c = 93")
    case True
    with "4.prems" v0 sk r' show ?thesis by simp
  next
    case False
    with "4.prems" v0 sk have c: "c = 44"
      and rec: "scan_items f cfg d (acc @ [v0]) (skip_ws r') = Some (Inr (vs, r))"
      by (auto split: if_splits)
    have "length r < length (skip_ws r')"
      using "4.IH"(2) [OF v0 _ _ sk False c rec] by simp
    with length_skip_ws_le [of r'] r' show ?thesis by simp
  qed
next
  case (6 f cfg d ps s)
  from "6.prems" obtain cs k r0 where s: "s = 34 # cs" and key: "scan_str [] cs = Inr (k, r0)"
    by (auto split: list.splits if_splits sum.splits)
  from "6.prems" s key obtain r1 where col: "skip_ws r0 = 58 # r1"
    by (auto split: list.splits if_splits)
  from "6.prems" s key col obtain v0 r2
    where v0: "scan_value f cfg d (skip_ws r1) = Some (Inr (v0, r2))"
    by (auto split: option.splits sum.splits)
  have r1: "length (skip_ws r1) < length s"
    using scan_str_shorter [OF key] length_skip_ws_le [of r0] length_skip_ws_le [of r1] col s
    by simp
  have r2: "length r2 < length s"
    using "6.IH"(1) [OF s _ key _ col _ v0] r1 by simp
  from "6.prems" s key col v0 obtain c r3 where sk: "skip_ws r2 = c # r3"
    by (auto split: list.splits)
  have r3: "length r3 < length s"
    using length_skip_ws_le [of r2] sk r2 by simp
  show ?case
  proof (cases "c = 125")
    case True
    with "6.prems" s key col v0 sk r3 show ?thesis by simp
  next
    case False
    with "6.prems" s key col v0 sk have c: "c = 44"
      and rec: "scan_members f cfg d (AList.update k v0 ps) (skip_ws r3) = Some (Inr (qs, r))"
      by (auto split: if_splits)
    have "length r < length (skip_ws r3)"
      using "6.IH"(2) [OF s _ key _ col _ v0 _ _ sk False c rec] by simp
    with length_skip_ws_le [of r3] r3 show ?thesis by simp
  qed
qed simp_all

lemma scan_fuel_enough:
  "2 * length s < f \<Longrightarrow> scan_value f cfg d s \<noteq> None"
  "2 * length s + 1 < f \<Longrightarrow> scan_items f cfg d acc s \<noteq> None"
  "2 * length s + 1 < f \<Longrightarrow> scan_members f cfg d ps s \<noteq> None"
proof (induction f cfg d s and f cfg d acc s and f cfg d ps s
       rule: scan_value_scan_items_scan_members.induct)
  case (2 f cfg d s)
  show ?case
  proof (cases s)
    case Nil
    then show ?thesis by simp
  next
    case (Cons c cs)
    have ws: "2 * length (skip_ws cs) + 1 < f"
      using "2.prems" Cons length_skip_ws_le [of cs] by simp
    consider "c = 123" | "c = 91" | "c \<noteq> 123 \<and> c \<noteq> 91" by blast
    then show ?thesis
    proof cases
      case 1
      show ?thesis
      proof (cases "d = 0 \<or> (skip_ws cs \<noteq> [] \<and> hd (skip_ws cs) = 125)")
        case True
        with Cons 1 show ?thesis by auto
      next
        case False
        with "2.IH"(1) [OF Cons] 1 ws
        have "scan_members f cfg (d - 1) [] (skip_ws cs) \<noteq> None" by simp
        with Cons 1 False show ?thesis by (auto split: option.splits sum.splits)
      qed
    next
      case 2
      show ?thesis
      proof (cases "d = 0 \<or> (skip_ws cs \<noteq> [] \<and> hd (skip_ws cs) = 93)")
        case True
        with Cons 2 show ?thesis by auto
      next
        case False
        with "2.IH"(2) [OF Cons] 2 ws
        have "scan_items f cfg (d - 1) [] (skip_ws cs) \<noteq> None" by simp
        with Cons 2 False show ?thesis by (auto split: option.splits sum.splits)
      qed
    next
      case 3
      with Cons show ?thesis by (simp split: sum.splits)
    qed
  qed
next
  case (4 f cfg d acc s)
  have v: "scan_value f cfg d s \<noteq> None"
    using "4.prems" by (intro "4.IH"(1)) simp
  show ?case
  proof (cases "scan_value f cfg d s")
    case None
    with v show ?thesis by simp
  next
    case (Some x)
    show ?thesis
    proof (cases x)
      case (Inl e)
      with Some show ?thesis by simp
    next
      case (Inr p)
      obtain v0 r0 where p: "p = (v0, r0)" by (cases p)
      have v0: "scan_value f cfg d s = Some (Inr (v0, r0))" using Some Inr p by simp
      have r0: "length r0 < length s" by (rule scan_shorter(1) [OF v0])
      show ?thesis
      proof (cases "skip_ws r0")
        case Nil
        with v0 show ?thesis by simp
      next
        case (Cons c r')
        have len: "2 * length (skip_ws r') + 1 < f"
          using "4.prems" r0 Cons length_skip_ws_le [of r0] length_skip_ws_le [of r'] by simp
        show ?thesis
          using "4.IH"(2) [OF v0 _ _ Cons] len v0 Cons by auto
      qed
    qed
  qed
next
  case (6 f cfg d ps s)
  show ?case
  proof (cases "s = [] \<or> hd s \<noteq> 34")
    case True
    then show ?thesis by (cases s) auto
  next
    case False
    then obtain cs where s: "s = 34 # cs" by (cases s) auto
    show ?thesis
    proof (cases "scan_str [] cs")
      case (Inl e)
      with s show ?thesis by simp
    next
      case (Inr p)
      obtain k r0 where key: "scan_str [] cs = Inr (k, r0)" using Inr by (cases p) auto
      show ?thesis
      proof (cases "skip_ws r0")
        case Nil
        with s key show ?thesis by simp
      next
        case (Cons c r1)
        show ?thesis
        proof (cases "c = 58")
          case False
          with s key Cons show ?thesis by simp
        next
          case True
          with Cons have col: "skip_ws r0 = 58 # r1" by simp
          have r1: "length (skip_ws r1) < length s"
            using scan_str_shorter [OF key] length_skip_ws_le [of r0] length_skip_ws_le [of r1]
              col s by simp
          have "scan_value f cfg d (skip_ws r1) \<noteq> None"
            using "6.IH"(1) [OF s _ key refl col] "6.prems" r1 by simp
          then obtain x where x: "scan_value f cfg d (skip_ws r1) = Some x" by auto
          show ?thesis
          proof (cases x)
            case (Inl e)
            with s key col x show ?thesis by simp
          next
            case (Inr q)
            obtain v0 r2 where v0: "scan_value f cfg d (skip_ws r1) = Some (Inr (v0, r2))"
              using x Inr by (cases q) auto
            have r2: "length r2 < length (skip_ws r1)" by (rule scan_shorter(1) [OF v0])
            show ?thesis
            proof (cases "skip_ws r2")
              case Nil
              with s key col v0 show ?thesis by simp
            next
              case (Cons c' r3)
              have len: "2 * length (skip_ws r3) + 1 < f"
                using "6.prems" r1 r2 Cons length_skip_ws_le [of r2] length_skip_ws_le [of r3]
                by simp
              show ?thesis
                using "6.IH"(2) [OF s _ key refl col _ v0 refl refl Cons] len s key col v0 Cons
                by auto
            qed
          qed
        qed
      qed
    qed
  qed
qed simp_all

lemma scan_fuel_mono:
  "scan_value f cfg d s = Some x \<Longrightarrow> scan_value (Suc f) cfg d s = Some x"
  "scan_items f cfg d acc s = Some y \<Longrightarrow> scan_items (Suc f) cfg d acc s = Some y"
  "scan_members f cfg d ps s = Some z \<Longrightarrow> scan_members (Suc f) cfg d ps s = Some z"
proof (induction f cfg d s and f cfg d acc s and f cfg d ps s arbitrary: x and y and z
       rule: scan_value_scan_items_scan_members.induct)
  case (2 f cfg d s x)
  show ?case
  proof (cases s)
    case Nil
    with "2.prems" show ?thesis by simp
  next
    case (Cons c cs)
    consider "c = 123" | "c = 91" | "c \<noteq> 123 \<and> c \<noteq> 91" by blast
    then show ?thesis
    proof cases
      case 1
      show ?thesis
      proof (cases "d = 0 \<or> (skip_ws cs \<noteq> [] \<and> hd (skip_ws cs) = 125)")
        case True
        with Cons 1 "2.prems" show ?thesis by auto
      next
        case False
        from "2.prems" Cons 1 False
        obtain w where w: "scan_members f cfg (d - 1) [] (skip_ws cs) = Some w"
          by (auto split: option.splits)
        have w': "scan_members (Suc f) cfg (d - 1) [] (skip_ws cs) = Some w"
          using 1 False by (intro "2.IH"(1) [OF Cons _ 1 _ _ w]) auto
        have e1: "scan_value (Suc f) cfg d s =
            (case scan_members f cfg (d - 1) [] (skip_ws cs) of None \<Rightarrow> None
             | Some (Inl e) \<Rightarrow> Some (Inl e) | Some (Inr (ps, r)) \<Rightarrow> Some (Inr (JObj ps, r)))"
          using Cons 1 False by (auto simp del: scan_members.simps)
        have e2: "scan_value (Suc (Suc f)) cfg d s =
            (case scan_members (Suc f) cfg (d - 1) [] (skip_ws cs) of None \<Rightarrow> None
             | Some (Inl e) \<Rightarrow> Some (Inl e) | Some (Inr (ps, r)) \<Rightarrow> Some (Inr (JObj ps, r)))"
          using Cons 1 False by (auto simp del: scan_members.simps)
        from "2.prems" show ?thesis by (simp only: e1 e2 w w')
      qed
    next
      case 2
      show ?thesis
      proof (cases "d = 0 \<or> (skip_ws cs \<noteq> [] \<and> hd (skip_ws cs) = 93)")
        case True
        with Cons 2 "2.prems" show ?thesis by auto
      next
        case False
        from "2.prems" Cons 2 False
        obtain w where w: "scan_items f cfg (d - 1) [] (skip_ws cs) = Some w"
          by (auto split: option.splits)
        have w': "scan_items (Suc f) cfg (d - 1) [] (skip_ws cs) = Some w"
          using 2 False by (intro "2.IH"(2) [OF Cons _ _ 2 _ _ w]) auto
        have e1: "scan_value (Suc f) cfg d s =
            (case scan_items f cfg (d - 1) [] (skip_ws cs) of None \<Rightarrow> None
             | Some (Inl e) \<Rightarrow> Some (Inl e) | Some (Inr (vs, r)) \<Rightarrow> Some (Inr (JArr vs, r)))"
          using Cons 2 False by (auto simp del: scan_items.simps)
        have e2: "scan_value (Suc (Suc f)) cfg d s =
            (case scan_items (Suc f) cfg (d - 1) [] (skip_ws cs) of None \<Rightarrow> None
             | Some (Inl e) \<Rightarrow> Some (Inl e) | Some (Inr (vs, r)) \<Rightarrow> Some (Inr (JArr vs, r)))"
          using Cons 2 False by (auto simp del: scan_items.simps)
        from "2.prems" show ?thesis by (simp only: e1 e2 w w')
      qed
    next
      case 3
      then have n1: "c \<noteq> 123" and n2: "c \<noteq> 91" by auto
      have "scan_value (Suc (Suc f)) cfg d s = scan_value (Suc f) cfg d s"
        using n1 n2 Cons by (simp del: scan_items.simps scan_members.simps)
      with "2.prems" show ?thesis by simp
    qed
  qed
next
  case (4 f cfg d acc s y)
  from "4.prems" obtain w where w: "scan_value f cfg d s = Some w"
    by (auto split: option.splits)
  have w': "scan_value (Suc f) cfg d s = Some w" by (rule "4.IH"(1) [OF w])
  show ?case
  proof (cases w)
    case (Inl e)
    with "4.prems" w w' show ?thesis by simp
  next
    case (Inr p)
    obtain v0 r0 where p: "p = (v0, r0)" by (cases p)
    show ?thesis
    proof (cases "skip_ws r0")
      case Nil
      with "4.prems" w w' Inr p show ?thesis by simp
    next
      case (Cons c r')
      show ?thesis
      proof (cases "c = 93 \<or> c \<noteq> 44")
        case True
        with "4.prems" w w' Inr p Cons show ?thesis by auto
      next
        case False
        with "4.prems" w Inr p Cons
        have rec: "scan_items f cfg d (acc @ [v0]) (skip_ws r') = Some y" by simp
        have "scan_items (Suc f) cfg d (acc @ [v0]) (skip_ws r') = Some y"
          using False by (intro "4.IH"(2) [OF w Inr p [symmetric] Cons _ _ rec]) auto
        moreover have "scan_items (Suc (Suc f)) cfg d acc s =
            scan_items (Suc f) cfg d (acc @ [v0]) (skip_ws r')"
          using w' Inr p Cons False
          by (subst scan_items.simps(2)) (simp del: scan_items.simps scan_value.simps)
        ultimately show ?thesis by simp
      qed
    qed
  qed
next
  case (6 f cfg d ps s z)
  show ?case
  proof (cases "s = [] \<or> hd s \<noteq> 34")
    case True
    with "6.prems" show ?thesis by (cases s) auto
  next
    case False
    then obtain cs where s: "s = 34 # cs" by (cases s) auto
    show ?thesis
    proof (cases "\<exists>k r0 r1. scan_str [] cs = Inr (k, r0) \<and> skip_ws r0 = 58 # r1")
      case False
      then have "scan_members (Suc (Suc f)) cfg d ps s = scan_members (Suc f) cfg d ps s"
        using s by (auto split: sum.splits list.splits simp del: scan_value.simps)
      with "6.prems" show ?thesis by simp
    next
      case True
      then obtain k r0 r1 where key: "scan_str [] cs = Inr (k, r0)"
        and col: "skip_ws r0 = 58 # r1" by blast
      from "6.prems" s key col obtain w where w: "scan_value f cfg d (skip_ws r1) = Some w"
        by (auto split: option.splits)
      have w': "scan_value (Suc f) cfg d (skip_ws r1) = Some w"
        by (rule "6.IH"(1) [OF s _ key refl col _ w]) simp_all
      have e1: "scan_members (Suc f) cfg d ps s =
          (case w of Inl e \<Rightarrow> Some (Inl e)
           | Inr (v, r'') \<Rightarrow> (case skip_ws r'' of [] \<Rightarrow> Some (Inl JSONDecodeError)
               | c' # r3 \<Rightarrow> if c' = 125 then Some (Inr (AList.update k v ps, r3))
                   else if c' = 44 then scan_members f cfg d (AList.update k v ps) (skip_ws r3)
                   else Some (Inl JSONDecodeError)))"
        using s key col w
        by (subst scan_members.simps(2)) (simp del: scan_value.simps scan_members.simps)
      have e2: "scan_members (Suc (Suc f)) cfg d ps s =
          (case w of Inl e \<Rightarrow> Some (Inl e)
           | Inr (v, r'') \<Rightarrow> (case skip_ws r'' of [] \<Rightarrow> Some (Inl JSONDecodeError)
               | c' # r3 \<Rightarrow> if c' = 125 then Some (Inr (AList.update k v ps, r3))
                   else if c' = 44 then scan_members (Suc f) cfg d (AList.update k v ps) (skip_ws r3)
                   else Some (Inl JSONDecodeError)))"
        using s key col w' by (subst scan_members.simps(2)) (simp del: scan_value.simps scan_members.simps)
      show ?thesis
      proof (cases w)
        case (Inl e)
        with "6.prems" e1 e2 show ?thesis by simp
      next
        case (Inr p)
        obtain v0 r2 where p: "p = (v0, r2)" by (cases p)
        show ?thesis
        proof (cases "\<exists>r3. skip_ws r2 = 44 # r3")
          case False
          with "6.prems" e1 e2 Inr p show ?thesis
            by (auto split: list.splits simp del: scan_members.simps)
        next
          case True
          then obtain r3 where sk: "skip_ws r2 = 44 # r3" by blast
          from "6.prems" e1 Inr p sk
          have rec: "scan_members f cfg d (AList.update k v0 ps) (skip_ws r3) = Some z" by simp
          have "scan_members (Suc f) cfg d (AList.update k v0 ps) (skip_ws r3) = Some z"
            using w Inr p sk rec
            by (intro "6.IH"(2) [OF s _ key refl col _ w Inr p [symmetric] sk _ _ rec]) simp_all
          with e2 Inr p sk show ?thesis by (simp del: scan_members.simps)
        qed
      qed
    qed
  qed
qed simp_all

lemma scan_value_fuel_le:
  "f \<le> g \<Longrightarrow> scan_value f cfg d s = Some x \<Longrightarrow> scan_value g cfg d s = Some x"
proof (induction g)
  case 0
  then show ?case by simp
next
  case (Suc g)
  show ?case
  proof (cases "f = Suc g")
    case True
    with Suc.prems show ?thesis by simp
  next
    case False
    with Suc.prems(1) have "f \<le> g" by simp
    then have "scan_value g cfg d s = Some x" by (rule Suc.IH [OF _ Suc.prems(2)])
    then show ?thesis by (rule scan_fuel_mono(1))
  qed
qed

text \<open>
  C18: the fuel suffices. With more than twice the length of the input the scanner
  returns a result (a value, or the exception CPython raises) and never runs out, and
  that result is the one it returns with any larger fuel: the fuel \<open>json_loads\<close>
  gives it computes what the unbounded recursion of CPython's scanner returns, and the
  \<open>None\<close> branch of \<open>json_loads\<close> is never taken.
\<close>

theorem scan_value_fuel_sufficient:
  "2 * length s < f \<Longrightarrow>
   (\<exists>x. scan_value f cfg d s = Some x) \<and> scan_value f cfg d s = scan_value (Suc (2 * length s)) cfg d s"
proof -
  assume f: "2 * length s < f"
  obtain x where x: "scan_value (Suc (2 * length s)) cfg d s = Some x"
    using scan_fuel_enough(1) [of s "Suc (2 * length s)" cfg d] by auto
  have "scan_value f cfg d s = Some x"
    using f by (intro scan_value_fuel_le [OF _ x]) simp
  with x show ?thesis by simp
qed

end
