(* ===== verification/Provisioner.thy ===== *)
theory Provisioner
  imports Json
begin

text \<open>
  The provisioning script \<open>src/github-create-api.py\<close>, function \<open>main\<close> (lines
  12--140) and the module entry (lines 142--144), as a program over an explicit world.

  \<^item> The world (\<open>world\<close>) is everything outside the process: whether
    \<open>os.chdir\<close> succeeds, the lines on standard input, what each
    \<open>subprocess.run\<close> returns (a status with the captured output, or an exception such
    as \<open>FileNotFoundError\<close>), and the interpreter's limits for \<open>json.loads\<close>. The
    answer of \<open>subprocess.run\<close> may depend on everything the process did before
    (\<open>w_run\<close> gets the event history), so that remote state such as an already
    created repository is covered.
  \<^item> The process state (\<open>st\<close>) is the history of observable events in order
    (\<open>trace\<close>: directory change, printed lines, prompts, programs run) and the input
    lines not read yet.
  \<^item> A step of the script is a \<open>'a prog\<close>: it returns a value or stops, and
    stopping is either \<open>sys.exit(n)\<close> (\<open>SysExit n\<close>) or an exception that nothing
    catches (\<open>Uncaught e\<close>), which ends the process with status 1.
  \<^item> Each block of \<open>main\<close> is one definition, composed with \<open>bindM\<close> and
    \<open>thenM\<close> in the order of the source.
\<close>

subsection \<open>World, events and process state\<close>

text \<open>
  What \<open>subprocess.run\<close> gives back: the return code with the captured standard
  output and error (decoded text where the source passes \<open>text=True\<close>), or the
  exception it raised.
\<close>

datatype proc = Completed int pystr pystr | Raised py_exc

datatype event =
    Chdir pystr              \<comment> \<open>\<open>os.chdir(path)\<close>\<close>
  | Out pystr                \<comment> \<open>\<open>print(text)\<close>: the text and a newline on standard output\<close>
  | OutValue pystr json      \<comment> \<open>\<open>print(f"{prefix}{v}")\<close> for a value \<open>v\<close> that is no str\<close>
  | Prompt pystr             \<comment> \<open>\<open>input(prompt)\<close> writing its prompt\<close>
  | Run "pystr list"         \<comment> \<open>\<open>subprocess.run(argv, ...)\<close>\<close>

record world =
  w_chdir :: "pystr \<Rightarrow> py_exc option"
  w_stdin :: "pystr list"
  w_run :: "event list \<Rightarrow> pystr list \<Rightarrow> proc"
  w_config :: py_config

record st =
  trace :: "event list"
  stdin :: "pystr list"

datatype stop = SysExit int | Uncaught py_exc

type_synonym 'a prog = "st \<Rightarrow> (stop + 'a) \<times> st"

subsection \<open>Sequencing, exceptions and the primitive effects\<close>

definition returnM :: "'a \<Rightarrow> 'a prog" where
  "returnM x s = (Inr x, s)"

definition bindM :: "'a prog \<Rightarrow> ('a \<Rightarrow> 'b prog) \<Rightarrow> 'b prog" where
  "bindM m f s = (case m s of (Inl e, s') \<Rightarrow> (Inl e, s') | (Inr x, s') \<Rightarrow> f x s')"

definition thenM :: "unit prog \<Rightarrow> 'b prog \<Rightarrow> 'b prog" where
  "thenM m n = bindM m (\<lambda>_. n)"

definition discard :: "'a prog \<Rightarrow> unit prog" where
  "discard m = bindM m (\<lambda>_. returnM ())"

definition raiseM :: "py_exc \<Rightarrow> 'a prog" where
  "raiseM e s = (Inl (Uncaught e), s)"

definition liftE :: "py_exc + 'a \<Rightarrow> 'a prog" where
  "liftE r = (case r of Inl e \<Rightarrow> raiseM e | Inr x \<Rightarrow> returnM x)"

definition sys_exit :: "int \<Rightarrow> 'a prog" where
  "sys_exit n s = (Inl (SysExit n), s)"

text \<open>\<open>try: m except: h\<close>: a bare \<open>except\<close> catches every way of stopping.\<close>

definition try_except_all :: "'a prog \<Rightarrow> 'a prog \<Rightarrow> 'a prog" where
  "try_except_all m h s = (case m s of (Inl e, s') \<Rightarrow> h s' | (Inr x, s') \<Rightarrow> (Inr x, s'))"

definition emit :: "event \<Rightarrow> st \<Rightarrow> st" where
  "emit e s = s\<lparr>trace := trace s @ [e]\<rparr>"

definition py_print :: "pystr \<Rightarrow> unit prog" where
  "py_print t s = (Inr (), emit (Out t) s)"

text \<open>An f-string with one replacement field holding a decoded value.\<close>

definition py_print_value :: "pystr \<Rightarrow> json \<Rightarrow> unit prog" where
  "py_print_value lead v =
     (case v of JStr t \<Rightarrow> py_print (lead @ t) | _ \<Rightarrow> (\<lambda>s. (Inr (), emit (OutValue lead v) s)))"

fun print_lines :: "pystr list \<Rightarrow> unit prog" where
  "print_lines [] = returnM ()"
| "print_lines (l # ls) = thenM (py_print l) (print_lines ls)"

definition py_input :: "pystr \<Rightarrow> pystr prog" where
  "py_input prompt s =
     (let s' = emit (Prompt prompt) s
      in case stdin s' of
           [] \<Rightarrow> (Inl (Uncaught EOFError), s')
         | l # ls \<Rightarrow> (Inr l, s'\<lparr>stdin := ls\<rparr>))"

definition py_run :: "world \<Rightarrow> pystr list \<Rightarrow> (int \<times> pystr \<times> pystr) prog" where
  "py_run w argv s =
     (let s' = emit (Run argv) s
      in case w_run w (trace s) argv of
           Raised e \<Rightarrow> (Inl (Uncaught e), s')
         | Completed rc out err \<Rightarrow> (Inr (rc, out, err), s'))"

text \<open>\<open>subprocess.run(argv, check=True)\<close>: a non-zero status raises.\<close>

definition py_run_checked :: "world \<Rightarrow> pystr list \<Rightarrow> (int \<times> pystr \<times> pystr) prog" where
  "py_run_checked w argv =
     bindM (py_run w argv)
       (\<lambda>(rc, out, err). if rc \<noteq> 0 then raiseM CalledProcessError else returnM (rc, out, err))"

definition py_chdir :: "world \<Rightarrow> pystr \<Rightarrow> unit prog" where
  "py_chdir w p s =
     (let s' = emit (Chdir p) s
      in case w_chdir w p of Some e \<Rightarrow> (Inl (Uncaught e), s') | None \<Rightarrow> (Inr (), s'))"

subsection \<open>Constants of the script\<close>

text \<open>The non-ASCII characters of the messages, by code point.\<close>

abbreviation ROCKET :: codepoint where "ROCKET \<equiv> 128640"
abbreviation CROSS_MARK :: codepoint where "CROSS_MARK \<equiv> 10060"
abbreviation MEMO :: codepoint where "MEMO \<equiv> 128221"
abbreviation CHECK_MARK :: codepoint where "CHECK_MARK \<equiv> 10003"
abbreviation CHECK_BUTTON :: codepoint where "CHECK_BUTTON \<equiv> 9989"
abbreviation ANTENNA :: codepoint where "ANTENNA \<equiv> 128225"
abbreviation OUTBOX :: codepoint where "OUTBOX \<equiv> 128228"
abbreviation LABEL :: codepoint where "LABEL \<equiv> 127991"
abbreviation VS16 :: codepoint where "VS16 \<equiv> 65039"
abbreviation PARTY :: codepoint where "PARTY \<equiv> 127881"
abbreviation FOLDER :: codepoint where "FOLDER \<equiv> 128193"
abbreviation PAGE :: codepoint where "PAGE \<equiv> 128196"
abbreviation CLIPBOARD :: codepoint where "CLIPBOARD \<equiv> 128203"
abbreviation ARROW :: codepoint where "ARROW \<equiv> 8594"
abbreviation SPARKLES :: codepoint where "SPARKLES \<equiv> 10024"

definition repo_name :: pystr where
  "repo_name = S ''review-insights-platform''"

definition work_dir :: pystr where
  "work_dir = S ''/home/david/review-analysis-saas''"

definition rule_line :: pystr where
  "rule_line = concat (replicate 50 (S ''=''))"

subsection \<open>The blocks of \<open>main\<close>\<close>

text \<open>Lines 13--15.\<close>

definition banner :: "unit prog" where
  "banner = print_lines
     [ROCKET # S '' Review Insights - GitHub Repository Creator'', rule_line, []]"

text \<open>Lines 17--22: \<open>curl --version\<close> must run and succeed.\<close>

definition curl_version_cmd :: "pystr list" where
  "curl_version_cmd = [S ''curl'', S ''--version'']"

definition check_curl :: "world \<Rightarrow> unit prog" where
  "check_curl w =
     try_except_all (discard (py_run_checked w curl_version_cmd))
       (thenM (py_print (CROSS_MARK # S '' Error: curl is required but not installed''))
          (sys_exit 1))"

text \<open>Lines 24--33.\<close>

definition instructions :: "unit prog" where
  "instructions = print_lines
     [S ''This script will create a GitHub repository using the GitHub API.'',
      S ''You'' @ [39] @ S ''ll need a GitHub Personal Access Token with '' @ [39] @ S ''repo'' @
        [39] @ S '' scope.'',
      [],
      MEMO # S '' How to get a token:'',
      S ''1. Go to: https://github.com/settings/tokens/new'',
      S ''2. Give it a name (e.g., '' @ [39] @ S ''Review Insights Setup'' @ [39] @ S '')'',
      S ''3. Select scopes: '' @ [CHECK_MARK] @ S '' repo (Full control of private repositories)'',
      S ''4. Click '' @ [39] @ S ''Generate token'' @ [39],
      S ''5. Copy the token (you won'' @ [39] @ S ''t see it again!)'',
      []]"

text \<open>Lines 35--44: both inputs are stripped and must not be empty.\<close>

definition read_credentials :: "(pystr \<times> pystr) prog" where
  "read_credentials =
     bindM (py_input (S ''GitHub username: '')) (\<lambda>l1.
       let username = str_strip l1 in
       if username = [] then
         thenM (py_print (CROSS_MARK # S '' Username is required!'')) (sys_exit 1)
       else
         bindM (py_input (S ''GitHub Personal Access Token: '')) (\<lambda>l2.
           let token = str_strip l2 in
           if token = [] then
             thenM (py_print (CROSS_MARK # S '' Token is required!'')) (sys_exit 1)
           else returnM (username, token)))"

text \<open>Lines 51--66: the creation request, its body built by \<open>json.dumps\<close>.\<close>

definition create_payload :: "pystr \<Rightarrow> json" where
  "create_payload username = JObj
     [(S ''name'', JStr repo_name),
      (S ''description'', JStr (S ''AI-powered review management platform with zero-config setup'')),
      (S ''homepage'', JStr (S ''https://'' @ username @ S ''.github.io/'' @ repo_name @ S ''/'')),
      (S ''private'', JBool False),
      (S ''has_issues'', JBool True),
      (S ''has_projects'', JBool True),
      (S ''has_wiki'', JBool False),
      (S ''auto_init'', JBool False)]"

definition create_repo_cmd :: "pystr \<Rightarrow> pystr \<Rightarrow> pystr list" where
  "create_repo_cmd username token =
     [S ''curl'', S ''-X'', S ''POST'',
      S ''-H'', S ''Authorization: token '' @ token,
      S ''-H'', S ''Accept: application/vnd.github.v3+json'',
      S ''https://api.github.com/user/repos'',
      S ''-d'', json_dumps (create_payload username)]"

text \<open>
  Lines 72--78, after \<open>response = json.loads(result.stdout)\<close>: \<open>response.get\<close>
  needs a dict (\<open>AttributeError\<close> otherwise); \<open>'already exists' in m\<close> needs a
  container (\<open>TypeError\<close> otherwise).
\<close>

definition report_failure :: "pystr \<Rightarrow> json \<Rightarrow> unit prog" where
  "report_failure username response =
     (case response of
        JObj ps \<Rightarrow>
          if map_of ps (S ''message'') = Some (JStr (S ''Bad credentials'')) then
            py_print (CROSS_MARK # S '' Invalid token! Please check your Personal Access Token.'')
          else
            (case str_in_value (S ''already exists'')
                    (case map_of ps (S ''message'') of None \<Rightarrow> JStr [] | Some m \<Rightarrow> m) of
               Inl e \<Rightarrow> raiseM e
             | Inr True \<Rightarrow>
                 py_print (CROSS_MARK # S '' Repository '' @ username @ S ''/'' @ repo_name @
                   S '' already exists!'')
             | Inr False \<Rightarrow>
                 py_print_value (CROSS_MARK # S '' Error: '')
                   (case map_of ps (S ''message'') of
                      None \<Rightarrow> JStr (S ''Unknown error'') | Some m \<Rightarrow> m))
      | _ \<Rightarrow> raiseM AttributeError)"

text \<open>Lines 46--81: the creation call and the failure test of line 71.\<close>

definition message_key :: pystr where
  "message_key = 34 # S ''message'' @ [34]"

definition create_repository :: "world \<Rightarrow> pystr \<Rightarrow> pystr \<Rightarrow> unit prog" where
  "create_repository w username token =
     thenM (py_print (10 # CHECK_BUTTON # S '' Creating repository: '' @ username @ S ''/'' @ repo_name))
    (thenM (py_print (10 # ANTENNA # S '' Creating repository...''))
    (bindM (py_run w (create_repo_cmd username token)) (\<lambda>(rc, out, err).
       if rc \<noteq> 0 \<or> py_contains message_key out then
         bindM (liftE (json_loads (w_config w) out)) (\<lambda>response.
           thenM (report_failure username response) (sys_exit 1))
       else py_print (CHECK_BUTTON # S '' Repository created successfully!''))))"

text \<open>Lines 83--103: link the remote (result ignored) and push \<open>main\<close>.\<close>

definition repo_url :: "pystr \<Rightarrow> pystr" where
  "repo_url username = S ''https://github.com/'' @ username @ S ''/'' @ repo_name @ S ''.git''"

definition remote_add_cmd :: "pystr \<Rightarrow> pystr list" where
  "remote_add_cmd username = [S ''git'', S ''remote'', S ''add'', S ''origin'', repo_url username]"

definition push_main_cmd :: "pystr list" where
  "push_main_cmd = [S ''git'', S ''push'', S ''-u'', S ''origin'', S ''main'']"

definition recovery_line :: "pystr \<Rightarrow> pystr \<Rightarrow> pystr" where
  "recovery_line username token =
     S ''git remote set-url origin https://'' @ username @ S '':'' @ token @ S ''@github.com/'' @
     username @ S ''/'' @ repo_name @ S ''.git''"

definition push_main :: "world \<Rightarrow> pystr \<Rightarrow> pystr \<Rightarrow> unit prog" where
  "push_main w username token =
     thenM (py_print (10 # OUTBOX # S '' Adding remote: '' @ repo_url username))
    (thenM (discard (py_run w (remote_add_cmd username)))
    (thenM (py_print (OUTBOX # S '' Pushing main branch...''))
    (bindM (py_run w push_main_cmd) (\<lambda>(rc, out, err).
       if rc \<noteq> 0 then
         thenM (print_lines
           [CROSS_MARK # S '' Push failed: '' @ err,
            10 # S ''Try running manually:'',
            recovery_line username token,
            S ''git push -u origin main''])
         (sys_exit 1)
       else py_print (CHECK_BUTTON # S '' Main branch pushed!'')))))"

text \<open>Lines 105--107: push \<open>gh-pages\<close>; the result is ignored.\<close>

definition push_pages_cmd :: "pystr list" where
  "push_pages_cmd = [S ''git'', S ''push'', S ''origin'', S ''gh-pages'']"

definition push_pages :: "world \<Rightarrow> unit prog" where
  "push_pages w =
     thenM (py_print (OUTBOX # S '' Pushing gh-pages branch...''))
    (thenM (discard (py_run w push_pages_cmd))
     (py_print (CHECK_BUTTON # S '' GitHub Pages branch pushed!'')))"

text \<open>Lines 109--121: set the topics; the result is ignored.\<close>

definition topic_names :: "pystr list" where
  "topic_names = [S ''ai'', S ''review-management'', S ''saas'', S ''typescript'', S ''nextjs'',
     S ''sentiment-analysis'', S ''zero-config'']"

definition topics_payload :: json where
  "topics_payload = JObj [(S ''names'', JArr (map JStr topic_names))]"

definition topics_cmd :: "pystr \<Rightarrow> pystr \<Rightarrow> pystr list" where
  "topics_cmd username token =
     [S ''curl'', S ''-X'', S ''PUT'',
      S ''-H'', S ''Authorization: token '' @ token,
      S ''-H'', S ''Accept: application/vnd.github.mercy-preview+json'',
      S ''https://api.github.com/repos/'' @ username @ S ''/'' @ repo_name @ S ''/topics'',
      S ''-d'', json_dumps topics_payload]"

definition add_topics :: "world \<Rightarrow> pystr \<Rightarrow> pystr \<Rightarrow> unit prog" where
  "add_topics w username token =
     thenM (py_print (10 # LABEL # VS16 # S ''  Adding repository topics...''))
    (thenM (discard (py_run w (topics_cmd username token)))
     (py_print (CHECK_BUTTON # S '' Topics added!'')))"

text \<open>Lines 123--140: the closing summary.\<close>

definition github_page :: "pystr \<Rightarrow> pystr" where
  "github_page username = S ''https://github.com/'' @ username @ S ''/'' @ repo_name"

definition pages_url :: "pystr \<Rightarrow> pystr" where
  "pages_url username = S ''https://'' @ username @ S ''.github.io/'' @ repo_name @ S ''/''"

definition summary_lines :: "pystr \<Rightarrow> pystr list" where
  "summary_lines username =
     [10 # rule_line,
      PARTY # S '' SUCCESS! Your repository is now live!'',
      rule_line,
      [],
      FOLDER # S '' Repository: '' @ github_page username,
      PAGE # S '' Deploy Page: '' @ pages_url username,
      [],
      CLIPBOARD # S '' Next steps:'',
      S ''1. Enable GitHub Pages: '' @ github_page username @ S ''/settings/pages'',
      S ''   - Source: Deploy from branch'',
      S ''   - Branch: gh-pages '' @ [ARROW] @ S '' /docs'',
      [],
      ROCKET # S '' Deploy buttons:'',
      S ''Railway: https://railway.app/new/template?template='' @ github_page username,
      S ''Render: https://render.com/deploy?repo='' @ github_page username,
      S ''Vercel: https://vercel.com/new/clone?repository-url='' @ github_page username,
      [],
      SPARKLES # S '' Your Review Insights platform is ready to share!'']"

definition summary :: "pystr \<Rightarrow> unit prog" where
  "summary username = print_lines (summary_lines username)"

subsection \<open>The script\<close>

text \<open>Lines 46--140: everything \<open>main\<close> does once the credentials are read.\<close>

definition publish :: "world \<Rightarrow> pystr \<Rightarrow> pystr \<Rightarrow> unit prog" where
  "publish w username token =
     thenM (create_repository w username token)
    (thenM (push_main w username token)
    (thenM (push_pages w)
    (thenM (add_topics w username token)
     (summary username))))"

definition main :: "world \<Rightarrow> unit prog" where
  "main w =
     thenM banner
    (thenM (check_curl w)
    (thenM instructions
    (bindM read_credentials (\<lambda>(username, token). publish w username token))))"

text \<open>Lines 142--144: change directory, then \<open>main()\<close>, from the initial state.\<close>

definition script :: "world \<Rightarrow> (stop + unit) \<times> st" where
  "script w = thenM (py_chdir w work_dir) (main w) \<lparr>trace = [], stdin = w_stdin w\<rparr>"

text \<open>
  The status the process ends with: 0 when \<open>main\<close> returns, the argument of
  \<open>sys.exit\<close>, and 1 for an uncaught exception (the interpreter prints the
  traceback).
\<close>

definition exit_code :: "stop + unit \<Rightarrow> int" where
  "exit_code r = (case r of Inr _ \<Rightarrow> 0 | Inl (SysExit n) \<Rightarrow> n | Inl (Uncaught e) \<Rightarrow> 1)"

definition run_script :: "world \<Rightarrow> int \<times> event list" where
  "run_script w = (case script w of (r, s) \<Rightarrow> (exit_code r, trace s))"

text \<open>The programs a run started, in order.\<close>

definition runs :: "event list \<Rightarrow> pystr list list" where
  "runs es = concat (map (\<lambda>e. case e of Run argv \<Rightarrow> [argv] | _ \<Rightarrow> []) es)"

end
