(* ===== verification/Steps.thy ===== *)
theory Steps
  imports Provisioner
begin

text \<open>
  Compositional reasoning about the script of \<open>Provisioner\<close>: predicates on steps
  (which exit statuses a step can produce, which programs it starts, whether it reads
  input), one rule per combinator and primitive for each (collection
  \<open>step_rules\<close>), and the facts about the blocks of \<open>main\<close> built from them.
  The rules let a property of the whole script follow block by block, without
  unfolding the script on an unknown world.
\<close>

subsection \<open>Predicates on steps, for the proofs\<close>

text \<open>
  \<open>exits_one m\<close>: whenever \<open>m\<close> calls \<open>sys.exit\<close>, the status is 1.
  \<open>runs_within m A\<close>: \<open>m\<close> only appends to the trace, the programs it starts are a
  prefix of \<open>A\<close>, and all of \<open>A\<close> when it returns normally.
  \<open>never_returns m\<close>: \<open>m\<close> always stops.
  \<open>reads_within m n\<close>: \<open>m\<close> only appends to the trace, writes at most \<open>n\<close>
  prompts, and reads one input line per prompt it writes and no other;
  \<open>keeps_stdin m\<close>: \<open>m\<close> writes no prompt and reads no input.
\<close>

definition exits_one :: "'a prog \<Rightarrow> bool" where
  "exits_one m \<longleftrightarrow> (\<forall>s n s'. m s = (Inl (SysExit n), s') \<longrightarrow> n = 1)"

definition runs_within :: "'a prog \<Rightarrow> pystr list list \<Rightarrow> bool" where
  "runs_within m A \<longleftrightarrow> (\<forall>s r s'. m s = (r, s') \<longrightarrow>
     (\<exists>es. trace s' = trace s @ es \<and> prefix (runs es) A \<and> (\<not> isl r \<longrightarrow> runs es = A)))"

definition never_returns :: "'a prog \<Rightarrow> bool" where
  "never_returns m \<longleftrightarrow> (\<forall>s x s'. m s \<noteq> (Inr x, s'))"

definition prompts :: "event list \<Rightarrow> nat" where
  "prompts es = length (filter (\<lambda>e. case e of Prompt p \<Rightarrow> True | _ \<Rightarrow> False) es)"

definition reads_within :: "'a prog \<Rightarrow> nat \<Rightarrow> bool" where
  "reads_within m n \<longleftrightarrow> (\<forall>s r s'. m s = (r, s') \<longrightarrow>
     (\<exists>es. trace s' = trace s @ es \<and> stdin s' = drop (prompts es) (stdin s) \<and> prompts es \<le> n))"

definition keeps_stdin :: "'a prog \<Rightarrow> bool" where
  "keeps_stdin m \<longleftrightarrow> reads_within m 0"

text \<open>The steps of \<open>main\<close> before the credentials are read (lines 13--33).\<close>

abbreviation pre_credentials :: "world \<Rightarrow> unit prog" where
  "pre_credentials w \<equiv> thenM banner (thenM (check_curl w) instructions)"

text \<open>
  The programs the script starts, in the order of the source: \<open>curl --version\<close>, and,
  when the first two input lines strip to non-empty credentials, the five calls of
  \<open>publish\<close>.
\<close>

definition publish_plan :: "pystr \<Rightarrow> pystr \<Rightarrow> pystr list list" where
  "publish_plan u t =
     [create_repo_cmd u t, remote_add_cmd u, push_main_cmd, push_pages_cmd, topics_cmd u t]"

definition command_plan :: "pystr list \<Rightarrow> pystr list list" where
  "command_plan ls = curl_version_cmd #
     (case ls of
        l1 # l2 # _ \<Rightarrow>
          if str_strip l1 \<noteq> [] \<and> str_strip l2 \<noteq> []
          then publish_plan (str_strip l1) (str_strip l2) else []
      | _ \<Rightarrow> [])"

subsection \<open>The step library\<close>

lemmas monad_defs = returnM_def bindM_def thenM_def discard_def raiseM_def liftE_def sys_exit_def
  try_except_all_def emit_def py_print_def py_print_value_def py_input_def py_run_def
  py_run_checked_def py_chdir_def

lemma runs_append [simp]: "runs (xs @ ys) = runs xs @ runs ys"
  by (simp add: runs_def)

lemma runs_Nil [simp]: "runs [] = []"
  by (simp add: runs_def)

lemma runs_Cons [simp]: "runs (e # es) = (case e of Run a \<Rightarrow> a # runs es | _ \<Rightarrow> runs es)"
  by (simp add: runs_def split: event.splits)

lemma runs_map_Out [simp]: "runs (map Out ls) = []"
  by (induction ls) auto

lemma print_lines_eq: "print_lines ls s = (Inr (), s\<lparr>trace := trace s @ map Out ls\<rparr>)"
  by (induction ls arbitrary: s) (simp_all add: monad_defs)

subsubsection \<open>\<open>sys.exit\<close> is only called with status 1\<close>

lemma exits_one_bindM [step_rules]:
  "exits_one m \<Longrightarrow> (\<And>x. exits_one (f x)) \<Longrightarrow> exits_one (bindM m f)"
  unfolding exits_one_def bindM_def by (fastforce split: prod.splits sum.splits)

lemma exits_one_thenM [step_rules]:
  "exits_one m \<Longrightarrow> exits_one n \<Longrightarrow> exits_one (thenM m n)"
  unfolding thenM_def by (rule exits_one_bindM)

lemma exits_one_if [step_rules]:
  "exits_one a \<Longrightarrow> exits_one b \<Longrightarrow> exits_one (if c then a else b)"
  by simp

lemma exits_one_case_prod [step_rules]:
  "(\<And>x y. exits_one (f x y)) \<Longrightarrow> exits_one (case_prod f p)"
  by (cases p) simp

lemma exits_one_try [step_rules]:
  "exits_one m \<Longrightarrow> exits_one h \<Longrightarrow> exits_one (try_except_all m h)"
  unfolding exits_one_def try_except_all_def by (fastforce split: prod.splits sum.splits)

lemma exits_one_prims [step_rules]:
  "exits_one (returnM x)" "exits_one (raiseM e)" "exits_one (py_print t)"
  "exits_one (py_print_value t v)" "exits_one (py_input t)" "exits_one (py_run w a)"
  "exits_one (py_chdir w p)" "exits_one (liftE r)" "exits_one (sys_exit 1)"
  "exits_one (print_lines ls)"
  by (auto simp: exits_one_def monad_defs print_lines_eq Let_def
           split: proc.splits option.splits list.splits sum.splits json.splits)

lemma exits_one_discard [step_rules]: "exits_one m \<Longrightarrow> exits_one (discard m)"
  unfolding discard_def by (intro step_rules)

lemma exits_one_report_failure [step_rules]: "exits_one (report_failure u r)"
  unfolding report_failure_def
  by (auto intro: step_rules split: json.splits sum.splits bool.splits)

lemma exits_one_main: "exits_one (main w)"
  unfolding main_def publish_def check_curl_def read_credentials_def create_repository_def
    push_main_def push_pages_def add_topics_def banner_def instructions_def summary_def
    py_run_checked_def Let_def
  by (intro step_rules)


subsubsection \<open>The programs a step starts\<close>

lemma runs_within_bindM [step_rules]:
  assumes m: "runs_within m A" and f: "\<And>x. runs_within (f x) B" and C: "A @ B = C"
  shows "runs_within (bindM m f) C"
  unfolding runs_within_def
proof (intro allI impI)
  fix s r s'
  assume eq: "bindM m f s = (r, s')"
  obtain r1 s1 where m1: "m s = (r1, s1)" by (cases "m s")
  from m m1 obtain es1 where es1: "trace s1 = trace s @ es1" "prefix (runs es1) A"
    "\<not> isl r1 \<longrightarrow> runs es1 = A"
    unfolding runs_within_def by blast
  show "\<exists>es. trace s' = trace s @ es \<and> prefix (runs es) C \<and> (\<not> isl r \<longrightarrow> runs es = C)"
  proof (cases r1)
    case (Inl e)
    with eq m1 have "r = Inl e" "s' = s1" by (simp_all add: bindM_def)
    with es1 C show ?thesis by auto
  next
    case (Inr x)
    with eq m1 have fx: "f x s1 = (r, s')" by (simp add: bindM_def)
    from f fx obtain es2 where "trace s' = trace s1 @ es2" "prefix (runs es2) B"
      "\<not> isl r \<longrightarrow> runs es2 = B"
      unfolding runs_within_def by blast
    with es1 Inr C show ?thesis
      by (intro exI [of _ "es1 @ es2"]) auto
  qed
qed


lemma runs_within_thenM [step_rules]:
  "runs_within m A \<Longrightarrow> runs_within n B \<Longrightarrow> A @ B = C \<Longrightarrow> runs_within (thenM m n) C"
  unfolding thenM_def by (rule runs_within_bindM)

lemma runs_within_if [step_rules]:
  "runs_within a A \<Longrightarrow> runs_within b A \<Longrightarrow> runs_within (if c then a else b) A"
  by simp

lemma runs_within_case_prod [step_rules]:
  "(\<And>x y. runs_within (f x y) A) \<Longrightarrow> runs_within (case_prod f p) A"
  by (cases p) simp

lemma runs_within_prims [step_rules]:
  "runs_within (returnM x) []" "runs_within (raiseM e) []" "runs_within (py_print t) []"
  "runs_within (py_print_value t v) []" "runs_within (py_input t) []"
  "runs_within (py_chdir w p) []" "runs_within (liftE r) []" "runs_within (sys_exit n) []"
  "runs_within (print_lines ls) []" "runs_within (py_run w a) [a]"
  by (auto simp: runs_within_def monad_defs print_lines_eq Let_def
           split: proc.splits option.splits list.splits sum.splits json.splits)

lemma runs_within_discard [step_rules]: "runs_within m A \<Longrightarrow> runs_within (discard m) A"
  unfolding discard_def by (rule runs_within_bindM [where B = "[]"]) (simp_all add: runs_within_prims)

lemma never_returns_thenM [step_rules]: "never_returns n \<Longrightarrow> never_returns (thenM m n)"
  unfolding never_returns_def thenM_def bindM_def by (auto split: prod.splits sum.splits)

lemma never_returns_sys_exit [step_rules]: "never_returns (sys_exit n)"
  by (simp add: never_returns_def sys_exit_def)

lemma runs_within_try [step_rules]:
  assumes m: "runs_within m A" and h: "runs_within h []" and nr: "never_returns h"
  shows "runs_within (try_except_all m h) A"
  unfolding runs_within_def
proof (intro allI impI)
  fix s r s'
  assume eq: "try_except_all m h s = (r, s')"
  obtain r1 s1 where m1: "m s = (r1, s1)" by (cases "m s")
  from m m1 obtain es1 where es1: "trace s1 = trace s @ es1" "prefix (runs es1) A"
    "\<not> isl r1 \<longrightarrow> runs es1 = A"
    unfolding runs_within_def by blast
  show "\<exists>es. trace s' = trace s @ es \<and> prefix (runs es) A \<and> (\<not> isl r \<longrightarrow> runs es = A)"
  proof (cases r1)
    case (Inl e)
    with eq m1 have hs: "h s1 = (r, s')" by (simp add: try_except_all_def)
    from h hs obtain es2 where "trace s' = trace s1 @ es2" "runs es2 = []"
      unfolding runs_within_def by fastforce
    moreover from nr hs have "isl r" unfolding never_returns_def by (cases r) auto
    ultimately show ?thesis using es1 by (intro exI [of _ "es1 @ es2"]) auto
  next
    case (Inr x)
    with eq m1 es1 show ?thesis by (auto simp: try_except_all_def)
  qed
qed

lemma runs_within_report_failure [step_rules]: "runs_within (report_failure u r) []"
  unfolding report_failure_def
  by (auto intro: step_rules split: json.splits sum.splits bool.splits)


lemma runs_within_publish: "runs_within (publish w u t) (publish_plan u t)"
  unfolding publish_def create_repository_def push_main_def push_pages_def add_topics_def
    summary_def Let_def
  by (rule step_rules | simp add: publish_plan_def)+


subsection \<open>Sequencing facts and the order of the programs started\<close>

lemma bindM_assoc: "bindM (bindM m f) g = bindM m (\<lambda>x. bindM (f x) g)"
  by (rule ext) (simp add: bindM_def split: prod.splits sum.splits)

lemma thenM_assoc: "thenM (thenM a b) c = thenM a (thenM b c)"
  by (simp add: thenM_def bindM_assoc)

lemma bindM_result:
  "bindM m f s = (r, s') \<Longrightarrow>
   (\<exists>e. m s = (Inl e, s') \<and> r = Inl e) \<or> (\<exists>x s1. m s = (Inr x, s1) \<and> f x s1 = (r, s'))"
  by (cases "m s") (auto simp: bindM_def split: sum.splits)

lemma runs_withinD:
  "runs_within m A \<Longrightarrow> m s = (r, s') \<Longrightarrow>
   \<exists>es. trace s' = trace s @ es \<and> prefix (runs es) A \<and> (\<not> isl r \<longrightarrow> runs es = A)"
  unfolding runs_within_def by blast


lemma main_eq:
  "main w = thenM (pre_credentials w) (bindM read_credentials (\<lambda>(u, t). publish w u t))"
  by (simp add: main_def thenM_assoc)

lemma runs_within_pre: "runs_within (pre_credentials w) [curl_version_cmd]"
  unfolding banner_def check_curl_def instructions_def py_run_checked_def
  by (rule step_rules | simp)+


lemma prompts_append [simp]: "prompts (xs @ ys) = prompts xs + prompts ys"
  by (simp add: prompts_def)

lemma reads_within_bindM:
  assumes m: "reads_within m a" and f: "\<And>x. reads_within (f x) b"
  shows "reads_within (bindM m f) (a + b)"
  unfolding reads_within_def
proof (intro allI impI)
  fix s r s'
  assume eq: "bindM m f s = (r, s')"
  show "\<exists>es. trace s' = trace s @ es \<and> stdin s' = drop (prompts es) (stdin s) \<and> prompts es \<le> a + b"
  proof (cases "m s")
    case (Pair r1 s1)
    from m Pair obtain es1 where es1: "trace s1 = trace s @ es1" "stdin s1 = drop (prompts es1) (stdin s)"
      "prompts es1 \<le> a"
      unfolding reads_within_def by blast
    show ?thesis
    proof (cases r1)
      case (Inl e)
      with eq Pair es1 show ?thesis by (auto simp: bindM_def)
    next
      case (Inr x)
      with eq Pair have fx: "f x s1 = (r, s')" by (simp add: bindM_def)
      from f fx obtain es2 where "trace s' = trace s1 @ es2" "stdin s' = drop (prompts es2) (stdin s1)"
        "prompts es2 \<le> b"
        unfolding reads_within_def by blast
      with es1 show ?thesis by (intro exI [of _ "es1 @ es2"]) (simp add: add.commute)
    qed
  qed
qed

lemma reads_within_try:
  assumes m: "reads_within m a" and h: "reads_within h b"
  shows "reads_within (try_except_all m h) (a + b)"
  unfolding reads_within_def
proof (intro allI impI)
  fix s r s'
  assume eq: "try_except_all m h s = (r, s')"
  show "\<exists>es. trace s' = trace s @ es \<and> stdin s' = drop (prompts es) (stdin s) \<and> prompts es \<le> a + b"
  proof (cases "m s")
    case (Pair r1 s1)
    from m Pair obtain es1 where es1: "trace s1 = trace s @ es1" "stdin s1 = drop (prompts es1) (stdin s)"
      "prompts es1 \<le> a"
      unfolding reads_within_def by blast
    show ?thesis
    proof (cases r1)
      case (Inl e)
      with eq Pair have hs: "h s1 = (r, s')" by (simp add: try_except_all_def)
      from h hs obtain es2 where "trace s' = trace s1 @ es2" "stdin s' = drop (prompts es2) (stdin s1)"
        "prompts es2 \<le> b"
        unfolding reads_within_def by blast
      with es1 show ?thesis by (intro exI [of _ "es1 @ es2"]) (simp add: add.commute)
    next
      case (Inr x)
      with eq Pair es1 show ?thesis by (auto simp: try_except_all_def)
    qed
  qed
qed

lemma reads_within_mono: "reads_within m a \<Longrightarrow> a \<le> b \<Longrightarrow> reads_within m b"
  unfolding reads_within_def by (meson order_trans)

lemma reads_within_py_input: "reads_within (py_input p) 1"
  by (auto simp: reads_within_def py_input_def emit_def prompts_def Let_def split: list.splits)

lemma keeps_stdin_bindM [step_rules]:
  "keeps_stdin m \<Longrightarrow> (\<And>x. keeps_stdin (f x)) \<Longrightarrow> keeps_stdin (bindM m f)"
  unfolding keeps_stdin_def using reads_within_bindM [of m 0 f 0] by simp

lemma keeps_stdin_thenM [step_rules]:
  "keeps_stdin m \<Longrightarrow> keeps_stdin n \<Longrightarrow> keeps_stdin (thenM m n)"
  unfolding thenM_def by (rule keeps_stdin_bindM)

lemma keeps_stdin_if [step_rules]:
  "keeps_stdin a \<Longrightarrow> keeps_stdin b \<Longrightarrow> keeps_stdin (if c then a else b)"
  by simp

lemma keeps_stdin_case_prod [step_rules]:
  "(\<And>x y. keeps_stdin (f x y)) \<Longrightarrow> keeps_stdin (case_prod f p)"
  by (cases p) simp

lemma keeps_stdin_try [step_rules]:
  "keeps_stdin m \<Longrightarrow> keeps_stdin h \<Longrightarrow> keeps_stdin (try_except_all m h)"
  unfolding keeps_stdin_def using reads_within_try [of m 0 h 0] by simp

lemma keeps_stdin_prims [step_rules]:
  "keeps_stdin (returnM x)" "keeps_stdin (raiseM e)" "keeps_stdin (py_print t)"
  "keeps_stdin (py_print_value t v)" "keeps_stdin (py_run w a)"
  "keeps_stdin (py_chdir w p)" "keeps_stdin (liftE r)" "keeps_stdin (sys_exit n)"
  "keeps_stdin (print_lines ls)"
  by (auto simp: keeps_stdin_def reads_within_def prompts_def monad_defs print_lines_eq Let_def
           split: proc.splits option.splits sum.splits json.splits)

lemma keeps_stdin_discard [step_rules]: "keeps_stdin m \<Longrightarrow> keeps_stdin (discard m)"
  unfolding discard_def by (intro step_rules)

lemma keeps_stdin_report_failure [step_rules]: "keeps_stdin (report_failure u r)"
  unfolding report_failure_def
  by (auto intro: step_rules split: json.splits sum.splits bool.splits)

lemma pre_keeps_stdin: "pre_credentials w s = (r, s') \<Longrightarrow> stdin s' = stdin s"
proof -
  have "keeps_stdin (pre_credentials w)"
    unfolding banner_def check_curl_def instructions_def py_run_checked_def
    by (intro step_rules)
  then show "pre_credentials w s = (r, s') \<Longrightarrow> stdin s' = stdin s"
    unfolding keeps_stdin_def reads_within_def by fastforce
qed

lemma read_credentials_result:
  assumes "read_credentials s = (r, s')"
  shows "(\<exists>es. trace s' = trace s @ es \<and> runs es = []) \<and>
         (\<forall>u t. r = Inr (u, t) \<longrightarrow>
            (\<exists>l1 l2 ls. stdin s = l1 # l2 # ls \<and> u = str_strip l1 \<and> t = str_strip l2 \<and>
                        u \<noteq> [] \<and> t \<noteq> []))"
  using assms
  by (auto simp: read_credentials_def monad_defs Let_def split: list.splits if_splits)


lemma script_eq:
  "script w = thenM (py_chdir w work_dir)
     (thenM (pre_credentials w) (bindM read_credentials (\<lambda>(u, t). publish w u t)))
     \<lparr>trace = [], stdin = w_stdin w\<rparr>"
  by (simp add: script_def main_eq)

lemma bindM_Inl: "m s = (Inl e, s') \<Longrightarrow> bindM m f s = (Inl e, s')"
  by (simp add: bindM_def)

lemma bindM_Inr: "m s = (Inr x, s') \<Longrightarrow> bindM m f s = f x s'"
  by (simp add: bindM_def)

lemma thenM_Inl: "m s = (Inl e, s') \<Longrightarrow> thenM m n s = (Inl e, s')"
  by (simp add: thenM_def bindM_def)

lemma thenM_Inr: "m s = (Inr x, s') \<Longrightarrow> thenM m n s = n s'"
  by (simp add: thenM_def bindM_def)

lemma py_chdir_eq:
  "py_chdir w p s = (case w_chdir w p of Some e \<Rightarrow> (Inl (Uncaught e), emit (Chdir p) s)
                                      | None \<Rightarrow> (Inr (), emit (Chdir p) s))"
  by (simp add: py_chdir_def Let_def split: option.splits)

lemma runs_follow_plan: "prefix (runs (snd (run_script w))) (command_plan (w_stdin w))"
proof -
  let ?s0 = "\<lparr>trace = [], stdin = w_stdin w\<rparr> :: st"
  let ?s1 = "emit (Chdir work_dir) ?s0"
  let ?post = "bindM read_credentials (\<lambda>(u, t). publish w u t)"
  obtain r s' where sc: "script w = (r, s')" by (cases "script w")
  then have out: "snd (run_script w) = trace s'" by (simp add: run_script_def)
  from sc have eq: "thenM (py_chdir w work_dir) (thenM (pre_credentials w) ?post) ?s0 = (r, s')"
    by (simp only: script_eq)
  have curl_first: "prefix [curl_version_cmd] (command_plan (w_stdin w))"
    by (simp add: command_plan_def)
  show ?thesis
  proof (cases "w_chdir w work_dir")
    case (Some e)
    then have "py_chdir w work_dir ?s0 = (Inl (Uncaught e), ?s1)" by (simp add: py_chdir_eq)
    from thenM_Inl [of "py_chdir w work_dir" _ _ _ "thenM (pre_credentials w) ?post", OF this] eq have "s' = ?s1" by simp
    then show ?thesis by (simp add: out emit_def)
  next
    case None
    then have "py_chdir w work_dir ?s0 = (Inr (), ?s1)" by (simp add: py_chdir_eq)
    from thenM_Inr [of "py_chdir w work_dir" _ _ _ "thenM (pre_credentials w) ?post", OF this] eq have e1: "thenM (pre_credentials w) ?post ?s1 = (r, s')" by simp
    obtain r2 s2 where p: "pre_credentials w ?s1 = (r2, s2)" by (cases "pre_credentials w ?s1")
    from runs_withinD [OF runs_within_pre p] obtain es2 where
      es2: "trace s2 = [Chdir work_dir] @ es2" "prefix (runs es2) [curl_version_cmd]"
        "\<not> isl r2 \<longrightarrow> runs es2 = [curl_version_cmd]"
      by (auto simp: emit_def)
    have st2: "stdin s2 = w_stdin w"
      using pre_keeps_stdin [OF p] by (simp add: emit_def)
    show ?thesis
    proof (cases r2)
      case (Inl e)
      from thenM_Inl [of "pre_credentials w" _ _ _ ?post, OF p [unfolded Inl]] e1 have "s' = s2" by simp
      with es2 curl_first show ?thesis
        by (auto simp: out intro: prefix_order.trans)
    next
      case (Inr x)
      from thenM_Inr [of "pre_credentials w" _ _ _ ?post, OF p [unfolded Inr]] e1
      have e2: "?post s2 = (r, s')" by simp
      from es2 Inr have runs2: "runs (trace s2) = [curl_version_cmd]" by simp
      obtain r3 s3 where rc: "read_credentials s2 = (r3, s3)" by (cases "read_credentials s2")
      from read_credentials_result [OF rc] obtain es3 where
        es3: "trace s3 = trace s2 @ es3" "runs es3 = []" by blast
      show ?thesis
      proof (cases r3)
        case (Inl e)
        from bindM_Inl [of read_credentials _ _ _ "\<lambda>(u, t). publish w u t", OF rc [unfolded Inl]] e2 have "s' = s3" by simp
        with es3 runs2 curl_first show ?thesis by (simp add: out)
      next
        case (Inr ut)
        obtain u t where ut: "ut = (u, t)" by (cases ut)
        have "r3 = Inr (u, t)" using Inr ut by simp
        with conjunct2 [OF read_credentials_result [OF rc]] obtain l1 l2 ls where
          cr: "stdin s2 = l1 # l2 # ls" "u = str_strip l1" "t = str_strip l2" "u \<noteq> []" "t \<noteq> []"
          by blast
        from bindM_Inr [of read_credentials _ _ _ "\<lambda>(u, t). publish w u t", OF rc [unfolded Inr ut]] e2
        have e3: "publish w u t s3 = (r, s')" by simp
        from runs_withinD [OF runs_within_publish e3] obtain es4 where
          es4: "trace s' = trace s3 @ es4" "prefix (runs es4) (publish_plan u t)" by blast
        have "command_plan (w_stdin w) = curl_version_cmd # publish_plan u t"
          using cr st2 by (simp add: command_plan_def)
        with es4 es3 runs2 show ?thesis by (simp add: out)
      qed
    qed
  qed
qed

subsection \<open>The input a run reads\<close>

text \<open>
  Only \<open>read_credentials\<close> reads input, with at most two prompts; so the whole
  script reads one line per prompt it writes, and at most two.
\<close>

lemma keeps_stdin_reads: "keeps_stdin m \<Longrightarrow> reads_within m n"
  unfolding keeps_stdin_def by (erule reads_within_mono) simp

lemma reads_within_read_credentials: "reads_within read_credentials 2"
  by (auto simp: reads_within_def read_credentials_def monad_defs py_input_def py_print_def emit_def
                 prompts_def Let_def split: list.splits if_splits)

lemma keeps_stdin_publish: "keeps_stdin (publish w u t)"
  unfolding publish_def create_repository_def push_main_def push_pages_def add_topics_def summary_def
    Let_def
  by (intro step_rules)

lemma reads_within_script: "reads_within (thenM (py_chdir w work_dir) (main w)) 2"
proof -
  have pre: "keeps_stdin (thenM (py_chdir w work_dir) (pre_credentials w))"
    unfolding banner_def check_curl_def instructions_def py_run_checked_def by (intro step_rules)
  have "reads_within (bindM read_credentials (\<lambda>(u, t). publish w u t)) (2 + 0)"
    by (intro reads_within_bindM [OF reads_within_read_credentials] keeps_stdin_reads)
       (simp add: keeps_stdin_publish split: prod.splits)
  then have "reads_within (thenM (thenM (py_chdir w work_dir) (pre_credentials w))
                (bindM read_credentials (\<lambda>(u, t). publish w u t))) (0 + 2)"
    unfolding thenM_def by (intro reads_within_bindM keeps_stdin_reads [OF pre [unfolded thenM_def]]) simp
  then show ?thesis by (simp add: main_eq thenM_assoc numeral_2_eq_2)
qed

end
