(* ===== verification/Scenarios.thy ===== *)
theory Scenarios
  imports Steps
begin

text \<open>
  The paths of the script on a given world: which messages it prints, which programs it
  runs, and with which status it ends, when \<open>subprocess.run\<close> answers each command
  in a fixed way. \<open>answers w a p\<close> says that the world answers command \<open>a\<close> with
  \<open>p\<close> whatever happened before; \<open>completes w a\<close> that \<open>a\<close> always runs to
  completion with some status; \<open>ready w u t\<close> that the directory change and
  \<open>curl --version\<close> succeed and the first two input lines strip to the credentials
  \<open>u\<close> and \<open>t\<close>, both non-empty.

  \<open>appends m x es\<close> and \<open>stops m e es\<close> describe one path of a step: from every
  state, \<open>m\<close> returns \<open>x\<close> (or stops with \<open>e\<close>) after appending the events
  \<open>es\<close> to the trace. The rules \<open>path_rules\<close> compose such paths along
  \<open>bindM\<close>, \<open>thenM\<close>, \<open>try_except_all\<close> and the branches of the code, and
  \<open>fastforce\<close> searches the path of a block with them. The second part shows
  that the best-effort commands (\<open>git remote add\<close>, \<open>git push origin gh-pages\<close>,
  the topics request) influence nothing when they complete, and what a normal return of
  the script requires of its input. \<open>first_run m a\<close> says that from every state
  \<open>m\<close> starts \<open>a\<close> before any other program, whatever the programs answer; its
  rules show that \<open>publish\<close> always starts the creation request.
\<close>

definition answers :: "world \<Rightarrow> pystr list \<Rightarrow> proc \<Rightarrow> bool" where
  "answers w a p \<longleftrightarrow> (\<forall>h. w_run w h a = p)"

definition completes :: "world \<Rightarrow> pystr list \<Rightarrow> bool" where
  "completes w a \<longleftrightarrow> (\<forall>h. \<exists>rc out err. w_run w h a = Completed rc out err)"

definition ready :: "world \<Rightarrow> pystr \<Rightarrow> pystr \<Rightarrow> bool" where
  "ready w u t \<longleftrightarrow>
     w_chdir w work_dir = None \<and> (\<exists>out err. answers w curl_version_cmd (Completed 0 out err)) \<and>
     (\<exists>l1 l2 ls. w_stdin w = l1 # l2 # ls \<and> str_strip l1 = u \<and> str_strip l2 = t) \<and>
     u \<noteq> [] \<and> t \<noteq> []"

definition appends :: "'a prog \<Rightarrow> 'a \<Rightarrow> event list \<Rightarrow> bool" where
  "appends m x es \<longleftrightarrow> (\<forall>s. m s = (Inr x, s\<lparr>trace := trace s @ es\<rparr>))"

definition stops :: "'a prog \<Rightarrow> stop \<Rightarrow> event list \<Rightarrow> bool" where
  "stops m e es \<longleftrightarrow> (\<forall>s. m s = (Inl e, s\<lparr>trace := trace s @ es\<rparr>))"

definition best_effort_cmd :: "pystr list \<Rightarrow> bool" where
  "best_effort_cmd a \<longleftrightarrow>
     (\<exists>u. a = remote_add_cmd u) \<or> a = push_pages_cmd \<or> (\<exists>u t. a = topics_cmd u t)"

definition differ_in_best_effort :: "world \<Rightarrow> world \<Rightarrow> bool" where
  "differ_in_best_effort w w' \<longleftrightarrow>
     w_chdir w' = w_chdir w \<and> w_stdin w' = w_stdin w \<and> w_config w' = w_config w \<and>
     (\<forall>h a. w_run w' h a \<noteq> w_run w h a \<longrightarrow> best_effort_cmd a) \<and>
     (\<forall>a. best_effort_cmd a \<longrightarrow> completes w a \<and> completes w' a)"

definition first_run :: "'a prog \<Rightarrow> pystr list \<Rightarrow> bool" where
  "first_run m a \<longleftrightarrow> (\<forall>s. \<exists>es rest. trace (snd (m s)) = trace s @ es \<and> runs es = a # rest)"

subsection \<open>Rules for the paths of a step\<close>

lemma appends_bindM [path_rules]:
  "appends m x es1 \<Longrightarrow> appends (f x) y es2 \<Longrightarrow> appends (bindM m f) y (es1 @ es2)"
  by (simp add: appends_def bindM_def)

lemma stops_bindM_left [path_rules]: "stops m e es \<Longrightarrow> stops (bindM m f) e es"
  by (simp add: stops_def bindM_def)

lemma stops_bindM_right [path_rules]:
  "appends m x es1 \<Longrightarrow> stops (f x) e es2 \<Longrightarrow> stops (bindM m f) e (es1 @ es2)"
  by (simp add: appends_def stops_def bindM_def)

lemma appends_thenM [path_rules]:
  "appends m () es1 \<Longrightarrow> appends n y es2 \<Longrightarrow> appends (thenM m n) y (es1 @ es2)"
  unfolding thenM_def by (rule appends_bindM)

lemma stops_thenM_left [path_rules]: "stops m e es \<Longrightarrow> stops (thenM m n) e es"
  unfolding thenM_def by (rule stops_bindM_left)

lemma stops_thenM_right [path_rules]:
  "appends m () es1 \<Longrightarrow> stops n e es2 \<Longrightarrow> stops (thenM m n) e (es1 @ es2)"
  unfolding thenM_def by (rule stops_bindM_right)

lemma appends_try [path_rules]: "appends m x es \<Longrightarrow> appends (try_except_all m h) x es"
  by (simp add: appends_def try_except_all_def)

lemma stops_try [path_rules]:
  "stops m e es1 \<Longrightarrow> stops h e' es2 \<Longrightarrow> stops (try_except_all m h) e' (es1 @ es2)"
  by (simp add: stops_def try_except_all_def)

lemma appends_prims [path_rules]:
  "appends (returnM x) x []" "appends (py_print t) () [Out t]"
  "appends (print_lines ls) () (map Out ls)" "appends (liftE (Inr x)) x []"
  by (simp_all add: appends_def returnM_def py_print_def emit_def print_lines_eq liftE_def)

lemma stops_prims [path_rules]:
  "stops (sys_exit n) (SysExit n) []" "stops (raiseM e) (Uncaught e) []"
  "stops (liftE (Inl e)) (Uncaught e) []"
  by (simp_all add: stops_def sys_exit_def raiseM_def liftE_def)

lemma appends_py_run [path_rules]:
  "answers w a (Completed rc out err) \<Longrightarrow> appends (py_run w a) (rc, out, err) [Run a]"
  by (simp add: appends_def answers_def py_run_def emit_def)

lemma stops_py_run [path_rules]:
  "answers w a (Raised e) \<Longrightarrow> stops (py_run w a) (Uncaught e) [Run a]"
  by (simp add: stops_def answers_def py_run_def emit_def)

lemma appends_py_chdir [path_rules]:
  "w_chdir w p = None \<Longrightarrow> appends (py_chdir w p) () [Chdir p]"
  by (simp add: appends_def py_chdir_def emit_def)

lemma appends_discard_run [path_rules]:
  assumes "completes w a"
  shows "appends (discard (py_run w a)) () [Run a]"
  unfolding appends_def
proof
  fix s :: st
  from assms obtain rc out err where "w_run w (trace s) a = Completed rc out err"
    unfolding completes_def by blast
  then show "discard (py_run w a) s = (Inr (), s\<lparr>trace := trace s @ [Run a]\<rparr>)"
    by (simp add: discard_def bindM_def py_run_def emit_def returnM_def)
qed

lemma appends_discard [path_rules]: "appends m x es \<Longrightarrow> appends (discard m) () es"
  by (simp add: appends_def discard_def bindM_def returnM_def)

lemma stops_discard [path_rules]: "stops m e es \<Longrightarrow> stops (discard m) e es"
  unfolding discard_def by (rule stops_bindM_left)

lemma path_case_prod [path_rules]:
  "appends (f a b) y es \<Longrightarrow> appends (case (a, b) of (x, z) \<Rightarrow> f x z) y es"
  "stops (f a b) e es \<Longrightarrow> stops (case (a, b) of (x, z) \<Rightarrow> f x z) e es"
  by simp_all

lemma path_if [path_rules]:
  "c \<Longrightarrow> appends a y es \<Longrightarrow> appends (if c then a else b) y es"
  "\<not> c \<Longrightarrow> appends b y es \<Longrightarrow> appends (if c then a else b) y es"
  "c \<Longrightarrow> stops a e es \<Longrightarrow> stops (if c then a else b) e es"
  "\<not> c \<Longrightarrow> stops b e es \<Longrightarrow> stops (if c then a else b) e es"
  by simp_all

subsection \<open>Paths through the blocks\<close>

lemma check_curl_ok:
  "answers w curl_version_cmd (Completed 0 out err) \<Longrightarrow>
   \<exists>es. appends (check_curl w) () es \<and> es = [Run curl_version_cmd]"
  unfolding check_curl_def py_run_checked_def
  by (fastforce intro: path_rules)

lemma check_curl_fails:
  "answers w curl_version_cmd (Completed rc out err) \<and> rc \<noteq> 0 \<or>
   answers w curl_version_cmd (Raised e) \<Longrightarrow>
   \<exists>es. stops (check_curl w) (SysExit 1) es \<and>
     es = [Run curl_version_cmd, Out (CROSS_MARK # S '' Error: curl is required but not installed'')]"
  unfolding check_curl_def py_run_checked_def
  by (fastforce intro: path_rules)

lemma push_main_ok:
  "completes w (remote_add_cmd u) \<Longrightarrow> answers w push_main_cmd (Completed 0 out err) \<Longrightarrow>
   \<exists>es. appends (push_main w u t) () es \<and> runs es = [remote_add_cmd u, push_main_cmd]"
  unfolding push_main_def by (fastforce intro: path_rules)

lemma push_main_fails:
  "completes w (remote_add_cmd u) \<Longrightarrow> answers w push_main_cmd (Completed rc out err) \<Longrightarrow> rc \<noteq> 0 \<Longrightarrow>
   \<exists>es. stops (push_main w u t) (SysExit 1) es \<and>
     (\<exists>es'. es = es' @ [Run push_main_cmd, Out (CROSS_MARK # S '' Push failed: '' @ err),
                       Out (10 # S ''Try running manually:''), Out (recovery_line u t),
                       Out (S ''git push -u origin main'')] \<and> runs es' = [remote_add_cmd u])"
  unfolding push_main_def by (fastforce intro: path_rules simp: Cons_eq_append_conv)

lemma create_repository_ok:
  "answers w (create_repo_cmd u t) (Completed 0 out err) \<Longrightarrow> \<not> py_contains message_key out \<Longrightarrow>
   \<exists>es. appends (create_repository w u t) () es \<and> runs es = [create_repo_cmd u t]"
  unfolding create_repository_def by (fastforce intro: path_rules)

lemma create_repository_reports:
  "answers w (create_repo_cmd u t) (Completed rc out err) \<Longrightarrow>
   rc \<noteq> 0 \<or> py_contains message_key out \<Longrightarrow>
   json_loads (w_config w) out = Inr resp \<Longrightarrow> appends (report_failure u resp) () [Out m] \<Longrightarrow>
   \<exists>es. stops (create_repository w u t) (SysExit 1) es \<and>
     (\<exists>es'. es = es' @ [Run (create_repo_cmd u t), Out m] \<and> runs es' = [])"
  unfolding create_repository_def by (fastforce intro: path_rules simp: Cons_eq_append_conv)

lemma create_repository_raises:
  "answers w (create_repo_cmd u t) (Completed rc out err) \<Longrightarrow>
   rc \<noteq> 0 \<or> py_contains message_key out \<Longrightarrow>
   json_loads (w_config w) out = Inl e \<or>
   (json_loads (w_config w) out = Inr resp \<and> stops (report_failure u resp) (Uncaught e) []) \<Longrightarrow>
   \<exists>es. stops (create_repository w u t) (Uncaught e) es \<and>
     (\<exists>es'. es = es' @ [Run (create_repo_cmd u t)] \<and> runs es' = [])"
  unfolding create_repository_def by (fastforce intro: path_rules simp: Cons_eq_append_conv)

lemmas report_defs = report_failure_def str_in_value.simps py_contains_sublist

lemma report_bad_credentials:
  "map_of ps (S ''message'') = Some (JStr (S ''Bad credentials'')) \<Longrightarrow>
   appends (report_failure u (JObj ps)) ()
     [Out (CROSS_MARK # S '' Invalid token! Please check your Personal Access Token.'')]"
  by (simp add: report_defs appends_prims)

lemma report_already_exists:
  "map_of ps (S ''message'') = Some (JStr m) \<Longrightarrow> m \<noteq> S ''Bad credentials'' \<Longrightarrow>
   sublist (S ''already exists'') m \<Longrightarrow>
   appends (report_failure u (JObj ps)) ()
     [Out (CROSS_MARK # S '' Repository '' @ u @ S ''/'' @ repo_name @ S '' already exists!'')]"
  by (simp add: report_defs appends_prims)

lemma report_other_message:
  "map_of ps (S ''message'') = Some (JStr m) \<Longrightarrow> m \<noteq> S ''Bad credentials'' \<Longrightarrow>
   \<not> sublist (S ''already exists'') m \<Longrightarrow>
   appends (report_failure u (JObj ps)) () [Out (CROSS_MARK # S '' Error: '' @ m)]"
  by (simp add: report_defs py_print_value_def appends_prims)

lemma report_no_message:
  "map_of ps (S ''message'') = None \<Longrightarrow>
   appends (report_failure u (JObj ps)) () [Out (CROSS_MARK # S '' Error: '' @ S ''Unknown error'')]"
  by (simp add: report_defs py_print_value_def appends_prims)

lemma report_not_container:
  "map_of ps (S ''message'') = Some v \<Longrightarrow> v \<in> {JNull, JBool b, JInt i, JFloat x} \<Longrightarrow>
   stops (report_failure u (JObj ps)) (Uncaught TypeError) []"
  by (auto simp: report_defs stops_prims)

lemma report_not_object:
  "(\<forall>ps. resp \<noteq> JObj ps) \<Longrightarrow> stops (report_failure u resp) (Uncaught AttributeError) []"
  by (cases resp) (simp_all add: report_defs stops_prims)

lemma push_main_remote_raises:
  "answers w (remote_add_cmd u) (Raised e) \<Longrightarrow>
   \<exists>es. stops (push_main w u t) (Uncaught e) es \<and>
     (\<exists>es'. es = es' @ [Run (remote_add_cmd u)] \<and> runs es' = [])"
  unfolding push_main_def by (fastforce intro: path_rules simp: Cons_eq_append_conv)

lemma push_pages_ok:
  "completes w push_pages_cmd \<Longrightarrow> \<exists>es. appends (push_pages w) () es \<and> runs es = [push_pages_cmd]"
  unfolding push_pages_def by (fastforce intro: path_rules)

lemma add_topics_ok:
  "completes w (topics_cmd u t) \<Longrightarrow>
   \<exists>es. appends (add_topics w u t) () es \<and> runs es = [topics_cmd u t]"
  unfolding add_topics_def by (fastforce intro: path_rules)

lemma summary_ok: "appends (summary u) () (map Out (summary_lines u))"
  unfolding summary_def by (rule appends_prims)

lemma appends_thenM_apply: "appends m () es \<Longrightarrow> thenM m n s = n (s\<lparr>trace := trace s @ es\<rparr>)"
  by (simp add: appends_def thenM_Inr)

lemma pre_credentials_ok:
  "answers w curl_version_cmd (Completed 0 out err) \<Longrightarrow>
   \<exists>es. appends (pre_credentials w) () es \<and> runs es = [curl_version_cmd]"
  unfolding banner_def instructions_def check_curl_def py_run_checked_def
  by (fastforce intro: path_rules)

lemma read_credentials_ok:
  "stdin s = l1 # l2 # ls \<Longrightarrow> str_strip l1 \<noteq> [] \<Longrightarrow> str_strip l2 \<noteq> [] \<Longrightarrow>
   read_credentials s =
     (Inr (str_strip l1, str_strip l2),
      s\<lparr>trace := trace s @ [Prompt (S ''GitHub username: ''),
                             Prompt (S ''GitHub Personal Access Token: '')], stdin := ls\<rparr>)"
  by (simp add: read_credentials_def bindM_def py_input_def emit_def returnM_def Let_def)

lemma script_reaches_publish:
  assumes "ready w u t"
  shows "\<exists>s. script w = publish w u t s \<and> runs (trace s) = [curl_version_cmd]"
proof -
  from assms obtain out err l1 l2 ls where
    cd: "w_chdir w work_dir = None" and cu: "answers w curl_version_cmd (Completed 0 out err)" and
    sin: "w_stdin w = l1 # l2 # ls" and u: "str_strip l1 = u" and t: "str_strip l2 = t" and
    ne: "u \<noteq> []" "t \<noteq> []"
    unfolding ready_def by blast
  obtain es where es: "appends (pre_credentials w) () es" "runs es = [curl_version_cmd]"
    using pre_credentials_ok [OF cu] by blast
  let ?s2 = "\<lparr>trace = Chdir work_dir # es, stdin = w_stdin w\<rparr>"
  let ?s3 = "?s2\<lparr>trace := trace ?s2 @ [Prompt (S ''GitHub username: ''),
                             Prompt (S ''GitHub Personal Access Token: '')], stdin := ls\<rparr>"
  have r: "read_credentials ?s2 = (Inr (u, t), ?s3)"
    using read_credentials_ok [of ?s2 l1 l2 ls] sin u t ne by simp
  have "script w = publish w u t ?s3"
    unfolding script_eq
    by (simp add: appends_thenM_apply [OF appends_py_chdir [OF cd]] appends_thenM_apply [OF es(1)]
                  bindM_Inr [of read_credentials, OF r])
  moreover have "runs (trace ?s3) = [curl_version_cmd]"
    using es(2) by simp
  ultimately show ?thesis by blast
qed

lemma run_publish_stops:
  assumes "ready w u t" "stops (publish w u t) e es"
  shows "\<exists>es0. runs es0 = [curl_version_cmd] \<and> run_script w = (exit_code (Inl e), es0 @ es)"
proof -
  obtain s where s: "script w = publish w u t s" "runs (trace s) = [curl_version_cmd]"
    using script_reaches_publish [OF assms(1)] by blast
  with assms(2) show ?thesis
    by (intro exI [of _ "trace s"]) (simp add: run_script_def stops_def)
qed

lemma run_publish_appends:
  assumes "ready w u t" "appends (publish w u t) () es"
  shows "\<exists>es0. runs es0 = [curl_version_cmd] \<and> run_script w = (0, es0 @ es)"
proof -
  obtain s where s: "script w = publish w u t s" "runs (trace s) = [curl_version_cmd]"
    using script_reaches_publish [OF assms(1)] by blast
  with assms(2) show ?thesis
    by (intro exI [of _ "trace s"]) (simp add: run_script_def appends_def exit_code_def)
qed

lemma publish_create_stops:
  "stops (create_repository w u t) e es \<Longrightarrow> stops (publish w u t) e es"
  unfolding publish_def by (rule stops_thenM_left)

lemma publish_push_stops:
  "appends (create_repository w u t) () es1 \<Longrightarrow> stops (push_main w u t) e es2 \<Longrightarrow>
   stops (publish w u t) e (es1 @ es2)"
  unfolding publish_def by (intro stops_thenM_right stops_thenM_left)

lemma publish_ok:
  assumes "appends (create_repository w u t) () es1" "appends (push_main w u t) () es2"
    "appends (push_pages w) () es3" "appends (add_topics w u t) () es4"
  shows "appends (publish w u t) () (es1 @ es2 @ es3 @ es4 @ map Out (summary_lines u))"
  unfolding publish_def using assms by (intro appends_thenM summary_ok)

lemma run_create_reported:
  assumes "ready w u t" "answers w (create_repo_cmd u t) (Completed rc out err)"
    and "rc \<noteq> 0 \<or> py_contains message_key out"
    and "json_loads (w_config w) out = Inr resp" "appends (report_failure u resp) () [Out m]"
  shows "\<exists>es. run_script w = (1, es @ [Run (create_repo_cmd u t), Out m]) \<and>
              runs es = [curl_version_cmd]"
proof -
  obtain es' where "stops (publish w u t) (SysExit 1) (es' @ [Run (create_repo_cmd u t), Out m])"
    "runs es' = []"
    using create_repository_reports [OF assms(2-5)] publish_create_stops by blast
  with run_publish_stops [OF assms(1)] show ?thesis
    by (fastforce simp: exit_code_def)
qed

lemma run_create_raised:
  assumes "ready w u t" "answers w (create_repo_cmd u t) (Completed rc out err)"
    and "rc \<noteq> 0 \<or> py_contains message_key out"
    and "json_loads (w_config w) out = Inl e \<or>
         (json_loads (w_config w) out = Inr resp \<and> stops (report_failure u resp) (Uncaught e) [])"
  shows "\<exists>es. run_script w = (1, es @ [Run (create_repo_cmd u t)]) \<and> runs es = [curl_version_cmd]"
proof -
  obtain es' where "stops (publish w u t) (Uncaught e) (es' @ [Run (create_repo_cmd u t)])"
    "runs es' = []"
    using create_repository_raises [OF assms(2-4)] publish_create_stops by blast
  with run_publish_stops [OF assms(1)] show ?thesis
    by (fastforce simp: exit_code_def)
qed

lemma publish_full_path:
  assumes "answers w (create_repo_cmd u t) (Completed 0 out err)" "\<not> py_contains message_key out"
    and "completes w (remote_add_cmd u)" "answers w push_main_cmd (Completed 0 out' err')"
    and "completes w push_pages_cmd" "completes w (topics_cmd u t)"
  shows "\<exists>es. appends (publish w u t) () (es @ map Out (summary_lines u)) \<and> runs es = publish_plan u t"
proof -
  obtain e1 e2 e3 e4 where
    e: "appends (create_repository w u t) () e1" "runs e1 = [create_repo_cmd u t]"
       "appends (push_main w u t) () e2" "runs e2 = [remote_add_cmd u, push_main_cmd]"
       "appends (push_pages w) () e3" "runs e3 = [push_pages_cmd]"
       "appends (add_topics w u t) () e4" "runs e4 = [topics_cmd u t]"
    using create_repository_ok [OF assms(1,2)] push_main_ok [OF assms(3,4)]
      push_pages_ok [OF assms(5)] add_topics_ok [OF assms(6)] by metis
  with publish_ok [OF e(1,3,5,7)] show ?thesis
    by (intro exI [of _ "e1 @ e2 @ e3 @ e4"]) (simp add: publish_plan_def)
qed

lemma run_script_main_stops:
  "stops (thenM (py_chdir w work_dir) (main w)) e es \<Longrightarrow> run_script w = (exit_code (Inl e), es)"
  by (simp add: run_script_def script_def stops_def)

lemma curl_fails_path:
  assumes "w_chdir w work_dir = None"
    and "answers w curl_version_cmd (Completed rc out err) \<and> rc \<noteq> 0 \<or>
         answers w curl_version_cmd (Raised e)"
  shows "\<exists>es. stops (thenM (py_chdir w work_dir) (main w)) (SysExit 1) es \<and>
    (\<exists>es'. es = Chdir work_dir # es' @
       [Run curl_version_cmd, Out (CROSS_MARK # S '' Error: curl is required but not installed'')] \<and>
       runs es' = [])"
  using assms unfolding main_def banner_def check_curl_def py_run_checked_def
  by (fastforce intro: path_rules simp: Cons_eq_append_conv)

subsection \<open>Best-effort steps\<close>

lemma py_run_cong: "(\<And>h. w_run w' h a = w_run w h a) \<Longrightarrow> py_run w' a = py_run w a"
  by (simp add: py_run_def [abs_def])

lemma discard_run_completes:
  assumes "completes w a"
  shows "discard (py_run w a) = (\<lambda>s. (Inr (), emit (Run a) s))"
proof
  fix s :: st
  from assms obtain rc out err where "w_run w (trace s) a = Completed rc out err"
    unfolding completes_def by blast
  then show "discard (py_run w a) s = (Inr (), emit (Run a) s)"
    by (simp add: discard_def bindM_def py_run_def returnM_def)
qed

lemma best_effort_cmds:
  "best_effort_cmd (remote_add_cmd u)" "best_effort_cmd push_pages_cmd"
  "best_effort_cmd (topics_cmd u t)"
  "\<not> best_effort_cmd curl_version_cmd" "\<not> best_effort_cmd (create_repo_cmd u t)"
  "\<not> best_effort_cmd push_main_cmd"
  by (auto simp: best_effort_cmd_def remote_add_cmd_def push_pages_cmd_def topics_cmd_def
                 curl_version_cmd_def create_repo_cmd_def push_main_cmd_def)

lemma differ_py_run:
  "differ_in_best_effort w w' \<Longrightarrow> \<not> best_effort_cmd a \<Longrightarrow> py_run w' a = py_run w a"
  unfolding differ_in_best_effort_def by (metis py_run_cong)

lemma differ_discard_run:
  "differ_in_best_effort w w' \<Longrightarrow> best_effort_cmd a \<Longrightarrow>
   discard (py_run w' a) = discard (py_run w a)"
  unfolding differ_in_best_effort_def by (simp add: discard_run_completes)

lemma differ_main:
  assumes "differ_in_best_effort w w'"
  shows "main w' = main w"
proof -
  have "check_curl w' = check_curl w"
    by (simp add: check_curl_def py_run_checked_def differ_py_run [OF assms] best_effort_cmds)
  moreover have cfg: "w_config w' = w_config w"
    using assms by (simp add: differ_in_best_effort_def)
  moreover have "publish w' u t = publish w u t" for u t
    by (simp add: publish_def create_repository_def push_main_def push_pages_def add_topics_def
                  differ_py_run [OF assms] differ_discard_run [OF assms] best_effort_cmds cfg
             cong: if_cong)
  ultimately show ?thesis by (simp add: main_def)
qed

lemma differ_script:
  assumes "differ_in_best_effort w w'"
  shows "script w' = script w"
proof -
  from assms have "w_chdir w' = w_chdir w" "w_stdin w' = w_stdin w"
    by (simp_all add: differ_in_best_effort_def)
  then show ?thesis
    by (simp add: script_def differ_main [OF assms] py_chdir_def [abs_def])
qed

subsection \<open>What a normal return needs\<close>

lemma script_returns_credentials:
  assumes "fst (script w) = Inr x"
  shows "\<exists>l1 l2 ls s3. w_stdin w = l1 # l2 # ls \<and> str_strip l1 \<noteq> [] \<and> str_strip l2 \<noteq> [] \<and>
           publish w (str_strip l1) (str_strip l2) s3 = script w \<and> runs (trace s3) = [curl_version_cmd]"
proof -
  let ?s0 = "\<lparr>trace = [], stdin = w_stdin w\<rparr> :: st"
  let ?post = "bindM read_credentials (\<lambda>(u, t). publish w u t)"
  obtain s' where sw: "script w = (Inr x, s')"
    using assms by (metis prod.collapse)
  then have sc: "bindM (py_chdir w work_dir) (\<lambda>_. bindM (pre_credentials w) (\<lambda>_. ?post)) ?s0 =
      (Inr x, s')"
    unfolding script_eq thenM_def by simp
  from bindM_result [OF sc] obtain s1 where
    s1: "py_chdir w work_dir ?s0 = (Inr (), s1)" "bindM (pre_credentials w) (\<lambda>_. ?post) s1 = (Inr x, s')"
    by auto
  from bindM_result [OF s1(2)] obtain s2 where
    s2: "pre_credentials w s1 = (Inr (), s2)" "?post s2 = (Inr x, s')"
    by auto
  from bindM_result [OF s2(2)] obtain ut s3 where
    r: "read_credentials s2 = (Inr ut, s3)" "(\<lambda>(u, t). publish w u t) ut s3 = (Inr x, s')"
    by auto
  have st1: "stdin s1 = w_stdin w" "trace s1 = [Chdir work_dir]"
    using s1(1) by (auto simp: py_chdir_eq emit_def split: option.splits)
  with pre_keeps_stdin [OF s2(1)] have "stdin s2 = w_stdin w" by simp
  with conjunct2 [OF read_credentials_result [OF r(1)]] obtain l1 l2 ls where
    l: "w_stdin w = l1 # l2 # ls" "ut = (str_strip l1, str_strip l2)"
       "str_strip l1 \<noteq> []" "str_strip l2 \<noteq> []"
    by (cases ut) auto
  from runs_withinD [OF runs_within_pre s2(1)] st1 have "runs (trace s2) = [curl_version_cmd]"
    by auto
  with conjunct1 [OF read_credentials_result [OF r(1)]] have "runs (trace s3) = [curl_version_cmd]"
    by auto
  with l r(2) sw show ?thesis by auto
qed

lemma publish_returns:
  assumes "publish w u t s = (Inr x, s')"
  shows "runs (trace s') = runs (trace s) @ publish_plan u t \<and>
         (\<exists>es. trace s' = es @ map Out (summary_lines u))"
proof
  from runs_withinD [OF runs_within_publish assms] show "runs (trace s') = runs (trace s) @ publish_plan u t"
    by auto
  have "publish w u t =
      thenM (thenM (create_repository w u t) (thenM (push_main w u t) (thenM (push_pages w) (add_topics w u t))))
        (summary u)"
    by (simp add: publish_def thenM_assoc)
  with assms obtain s1 where "summary u s1 = (Inr x, s')"
    unfolding thenM_def by (auto dest!: bindM_result)
  then have "s' = s1\<lparr>trace := trace s1 @ map Out (summary_lines u)\<rparr>"
    using summary_ok unfolding appends_def by auto
  then show "\<exists>es. trace s' = es @ map Out (summary_lines u)" by auto
qed

lemma exits_one_script: "exits_one (thenM (py_chdir w work_dir) (main w))"
  by (intro step_rules exits_one_main)

lemma exit_code_run_script:
  "fst (run_script w) = (if isl (fst (script w)) then 1 else 0)"
proof -
  obtain r s where sc: "script w = (r, s)" by (cases "script w")
  have "r = Inl (SysExit n) \<Longrightarrow> n = 1" for n
    using exits_one_script [of w] sc unfolding exits_one_def script_def by blast
  with sc show ?thesis
    by (cases r) (auto simp: run_script_def exit_code_def split: stop.splits)
qed

lemma ready_command_plan:
  "ready w u t \<Longrightarrow> command_plan (w_stdin w) = curl_version_cmd # publish_plan u t"
  by (auto simp: ready_def command_plan_def)

lemma distinct_command_plan: "distinct (command_plan ls)"
  by (auto simp: command_plan_def publish_plan_def curl_version_cmd_def create_repo_cmd_def
                 remote_add_cmd_def push_main_cmd_def push_pages_cmd_def topics_cmd_def
           split: list.splits)

lemma distinct_prefix: "prefix xs ys \<Longrightarrow> distinct ys \<Longrightarrow> distinct xs"
  by (auto simp: prefix_def)

lemma recovery_line_parts:
  "sublist u (recovery_line u t)" "sublist t (recovery_line u t)"
  "sublist repo_name (recovery_line u t)"
proof -
  let ?a = "S ''git remote set-url origin https://''"
  have "recovery_line u t = ?a @ u @ (S '':'' @ t @ S ''@github.com/'' @ u @ S ''/'' @ repo_name @ S ''.git'')"
    by (simp add: recovery_line_def)
  then show "sublist u (recovery_line u t)" by (simp only: sublist_appendI)
  have "recovery_line u t = (?a @ u @ S '':'') @ t @ (S ''@github.com/'' @ u @ S ''/'' @ repo_name @ S ''.git'')"
    by (simp add: recovery_line_def)
  then show "sublist t (recovery_line u t)" by (simp only: sublist_appendI)
  have "recovery_line u t = (?a @ u @ S '':'' @ t @ S ''@github.com/'' @ u @ S ''/'') @ repo_name @ S ''.git''"
    by (simp add: recovery_line_def)
  then show "sublist repo_name (recovery_line u t)" by (simp only: sublist_appendI)
qed

subsection \<open>The first program a step starts\<close>

lemma first_run_py_run: "first_run (py_run w a) a"
  by (simp add: first_run_def py_run_def emit_def Let_def split: proc.splits)

lemma first_run_bindM:
  assumes m: "first_run m a" and f: "\<And>x. runs_within (f x) B"
  shows "first_run (bindM m f) a"
  unfolding first_run_def
proof
  fix s
  obtain r1 s1 where m1: "m s = (r1, s1)" by (cases "m s")
  from m m1 obtain es1 rest where es1: "trace s1 = trace s @ es1" "runs es1 = a # rest"
    unfolding first_run_def by (metis snd_conv)
  show "\<exists>es rest. trace (snd (bindM m f s)) = trace s @ es \<and> runs es = a # rest"
  proof (cases r1)
    case (Inl e)
    with m1 es1 show ?thesis by (simp add: bindM_def)
  next
    case (Inr x)
    obtain r s' where fx: "f x s1 = (r, s')" by (cases "f x s1")
    from runs_withinD [OF f fx] obtain es2 where "trace s' = trace s1 @ es2" by blast
    with m1 Inr fx es1 show ?thesis
      by (intro exI [of _ "es1 @ es2"]) (simp add: bindM_def)
  qed
qed

lemma first_run_thenM_left:
  "first_run m a \<Longrightarrow> runs_within n B \<Longrightarrow> first_run (thenM m n) a"
  unfolding thenM_def by (rule first_run_bindM)

lemma first_run_thenM_right:
  assumes m: "appends m () es" "runs es = []" and n: "first_run n a"
  shows "first_run (thenM m n) a"
  unfolding first_run_def
proof
  fix s
  from n obtain es' rest where
    "trace (snd (n (s\<lparr>trace := trace s @ es\<rparr>))) = (trace s @ es) @ es'" "runs es' = a # rest"
    unfolding first_run_def by (metis st.select_convs(1) st.surjective st.update_convs(1))
  with m show "\<exists>es rest. trace (snd (thenM m n s)) = trace s @ es \<and> runs es = a # rest"
    by (intro exI [of _ "es @ es'"]) (simp add: appends_thenM_apply)
qed

lemma create_repository_first_run: "first_run (create_repository w u t) (create_repo_cmd u t)"
  unfolding create_repository_def
  by (intro first_run_thenM_right [OF appends_prims(2)] first_run_bindM [OF first_run_py_run])
     (rule step_rules | simp)+

lemma publish_first_run: "first_run (publish w u t) (create_repo_cmd u t)"
  unfolding publish_def push_main_def push_pages_def add_topics_def summary_def Let_def
  by (intro first_run_thenM_left [OF create_repository_first_run]) (rule step_rules | simp)+

end
