(* ===== verification/Workflow.thy ===== *)
theory Workflow
  imports Scenarios
begin

text \<open>
  The workflow of the specification (spec.md 4.1 and 7) as an abstract decision table,
  and the proof that the script implements it. A \<open>session\<close> is what the
  specification observes of a run: whether the HTTP tool is present, the trimmed
  credentials, the status of the creation request and the \<open>message\<close> of its JSON
  reply, and the status and diagnostic of the push of \<open>main\<close>. \<open>spec_outcome\<close>
  gives the outcome the specification prescribes, one of its error classes
  (\<open>ToolMissing\<close>, \<open>MissingInput\<close>, \<open>InvalidCredentials\<close>,
  \<open>RepositoryExists\<close>, \<open>ApiError\<close>, \<open>PushFailure\<close>) or \<open>Success\<close>;
  \<open>outcome_status\<close> the exit code of section 6 and \<open>outcome_lines\<close> the
  message the script prints for it.

  \<open>session_of w\<close> reads the session off a world, and \<open>spec_env w\<close> is the
  environment the specification assumes: the working directory exists, two input lines,
  programs that answer the same whatever ran before, every program but \<open>curl
  --version\<close> can be started, and a creation reply that the script parses is a JSON
  object whose \<open>message\<close>, if any, is a string, present exactly when the reply
  contains the text \<open>"message"\<close>. Each of these is needed: C12, C13, C14 and C22
  show what the script does when one of them fails.
\<close>

datatype outcome =
    Success
  | ToolMissing
  | MissingInput
  | InvalidCredentials
  | RepositoryExists
  | ApiError pystr
  | PushFailure pystr

record session =
  tool_ok :: bool
  user_in :: pystr
  token_in :: pystr
  create_rc :: int
  reply_message :: "pystr option"
  push_rc :: int
  push_err :: pystr

fun classify_reply :: "pystr option \<Rightarrow> outcome" where
  "classify_reply None = ApiError (S ''Unknown error'')"
| "classify_reply (Some m) =
     (if m = S ''Bad credentials'' then InvalidCredentials
      else if sublist (S ''already exists'') m then RepositoryExists
      else ApiError m)"

definition spec_outcome :: "session \<Rightarrow> outcome" where
  "spec_outcome s =
     (if \<not> tool_ok s then ToolMissing
      else if user_in s = [] \<or> token_in s = [] then MissingInput
      else if create_rc s \<noteq> 0 \<or> reply_message s \<noteq> None then classify_reply (reply_message s)
      else if push_rc s \<noteq> 0 then PushFailure (push_err s)
      else Success)"

fun outcome_status :: "outcome \<Rightarrow> int" where
  "outcome_status Success = 0"
| "outcome_status _ = 1"

fun outcome_lines :: "pystr \<Rightarrow> pystr \<Rightarrow> outcome \<Rightarrow> pystr list" where
  "outcome_lines u t Success = summary_lines u"
| "outcome_lines u t ToolMissing = [CROSS_MARK # S '' Error: curl is required but not installed'']"
| "outcome_lines u t MissingInput =
     [if u = [] then CROSS_MARK # S '' Username is required!'' else CROSS_MARK # S '' Token is required!'']"
| "outcome_lines u t InvalidCredentials =
     [CROSS_MARK # S '' Invalid token! Please check your Personal Access Token.'']"
| "outcome_lines u t RepositoryExists =
     [CROSS_MARK # S '' Repository '' @ u @ S ''/'' @ repo_name @ S '' already exists!'']"
| "outcome_lines u t (ApiError m) = [CROSS_MARK # S '' Error: '' @ m]"
| "outcome_lines u t (PushFailure d) =
     [CROSS_MARK # S '' Push failed: '' @ d, 10 # S ''Try running manually:'', recovery_line u t,
      S ''git push -u origin main'']"

fun proc_ok :: "proc \<Rightarrow> bool" where
  "proc_ok (Completed rc out err) = (rc = 0)"
| "proc_ok (Raised e) = False"

fun proc_rc :: "proc \<Rightarrow> int" where
  "proc_rc (Completed rc out err) = rc"
| "proc_rc (Raised e) = 1"

fun proc_out :: "proc \<Rightarrow> pystr" where
  "proc_out (Completed rc out err) = out"
| "proc_out (Raised e) = []"

fun proc_err :: "proc \<Rightarrow> pystr" where
  "proc_err (Completed rc out err) = err"
| "proc_err (Raised e) = []"

definition message_of :: "py_config \<Rightarrow> pystr \<Rightarrow> pystr option" where
  "message_of cfg out =
     (case json_loads cfg out of
        Inr (JObj ps) \<Rightarrow> (case map_of ps (S ''message'') of Some (JStr m) \<Rightarrow> Some m | _ \<Rightarrow> None)
      | _ \<Rightarrow> None)"

definition reply_shaped :: "py_config \<Rightarrow> pystr \<Rightarrow> bool" where
  "reply_shaped cfg out \<longleftrightarrow>
     (case json_loads cfg out of
        Inr (JObj ps) \<Rightarrow> (case map_of ps (S ''message'') of None \<Rightarrow> True | Some (JStr m) \<Rightarrow> True | _ \<Rightarrow> False)
      | _ \<Rightarrow> False)"

definition session_of :: "world \<Rightarrow> session" where
  "session_of w =
     (let u = str_strip (hd (w_stdin w)); t = str_strip (hd (tl (w_stdin w)));
          c = w_run w [] (create_repo_cmd u t); p = w_run w [] push_main_cmd
      in \<lparr>tool_ok = proc_ok (w_run w [] curl_version_cmd),
          user_in = u, token_in = t, create_rc = proc_rc c,
          reply_message = message_of (w_config w) (proc_out c),
          push_rc = proc_rc p, push_err = proc_err p\<rparr>)"

definition spec_env :: "world \<Rightarrow> bool" where
  "spec_env w \<longleftrightarrow>
     w_chdir w work_dir = None \<and> 2 \<le> length (w_stdin w) \<and>
     (\<forall>h a. w_run w h a = w_run w [] a) \<and>
     (\<forall>a. a \<noteq> curl_version_cmd \<longrightarrow> (\<exists>rc out err. w_run w [] a = Completed rc out err)) \<and>
     (let s = session_of w; out = proc_out (w_run w [] (create_repo_cmd (user_in s) (token_in s)))
      in (create_rc s \<noteq> 0 \<or> py_contains message_key out \<longrightarrow> reply_shaped (w_config w) out) \<and>
         (py_contains message_key out \<longleftrightarrow> reply_message s \<noteq> None))"

subsection \<open>One path per row of the decision table\<close>

lemma script_after_checks:
  assumes "w_chdir w work_dir = None" "answers w curl_version_cmd (Completed 0 out err)"
  shows "\<exists>es. runs es = [curl_version_cmd] \<and>
    script w = bindM read_credentials (\<lambda>(u, t). publish w u t) \<lparr>trace = Chdir work_dir # es, stdin = w_stdin w\<rparr>"
proof -
  obtain es where es: "appends (pre_credentials w) () es" "runs es = [curl_version_cmd]"
    using pre_credentials_ok [OF assms(2)] by blast
  then show ?thesis
    unfolding script_eq
    by (simp add: appends_thenM_apply [OF appends_py_chdir [OF assms(1)]] appends_thenM_apply [OF es(1)])
       blast
qed

lemma read_credentials_blank:
  "stdin s = l1 # ls \<Longrightarrow> str_strip l1 = [] \<Longrightarrow>
   read_credentials s = (Inl (SysExit 1),
     s\<lparr>trace := trace s @ [Prompt (S ''GitHub username: ''), Out (CROSS_MARK # S '' Username is required!'')],
       stdin := ls\<rparr>)"
  "stdin s = l1 # l2 # ls \<Longrightarrow> str_strip l1 \<noteq> [] \<Longrightarrow> str_strip l2 = [] \<Longrightarrow>
   read_credentials s = (Inl (SysExit 1),
     s\<lparr>trace := trace s @ [Prompt (S ''GitHub username: ''), Prompt (S ''GitHub Personal Access Token: ''),
                            Out (CROSS_MARK # S '' Token is required!'')], stdin := ls\<rparr>)"
  by (simp_all add: read_credentials_def bindM_def thenM_def py_input_def py_print_def emit_def
                    sys_exit_def Let_def)

lemma read_credentials_eof:
  "stdin s = [] \<Longrightarrow>
   read_credentials s = (Inl (Uncaught EOFError), s\<lparr>trace := trace s @ [Prompt (S ''GitHub username: '')]\<rparr>)"
  "stdin s = [l1] \<Longrightarrow> str_strip l1 \<noteq> [] \<Longrightarrow>
   read_credentials s = (Inl (Uncaught EOFError),
     s\<lparr>trace := trace s @ [Prompt (S ''GitHub username: ''), Prompt (S ''GitHub Personal Access Token: '')],
       stdin := []\<rparr>)"
  by (simp_all add: read_credentials_def bindM_def py_input_def emit_def Let_def)

lemma run_credentials_stop:
  assumes "w_chdir w work_dir = None" "answers w curl_version_cmd (Completed 0 out err)"
    and "\<And>s. stdin s = w_stdin w \<Longrightarrow> \<exists>s'. read_credentials s = (Inl e, s') \<and> trace s' = trace s @ evs"
  shows "\<exists>es. runs es = [curl_version_cmd] \<and> run_script w = (exit_code (Inl e), Chdir work_dir # es @ evs)"
proof -
  obtain es where es: "runs es = [curl_version_cmd]"
    "script w = bindM read_credentials (\<lambda>(u, t). publish w u t) \<lparr>trace = Chdir work_dir # es, stdin = w_stdin w\<rparr>"
    using script_after_checks [OF assms(1,2)] by blast
  from assms(3) [of "\<lparr>trace = Chdir work_dir # es, stdin = w_stdin w\<rparr>"] es show ?thesis
    by (auto simp: run_script_def bindM_def)
qed

lemma run_missing_input:
  assumes "w_chdir w work_dir = None" "answers w curl_version_cmd (Completed 0 out err)"
    and "w_stdin w = l1 # l2 # ls" "str_strip l1 = [] \<or> str_strip l2 = []"
  shows "\<exists>es. run_script w = (1, es @ map Out (outcome_lines (str_strip l1) (str_strip l2) MissingInput))"
proof (cases "str_strip l1 = []")
  case True
  with assms(3) read_credentials_blank(1) [of _ l1 "l2 # ls"]
  show ?thesis
    using run_credentials_stop [OF assms(1,2), of "SysExit 1"
            "[Prompt (S ''GitHub username: ''), Out (CROSS_MARK # S '' Username is required!'')]"]
    by (fastforce simp: exit_code_def)
next
  case False
  with assms(3,4) read_credentials_blank(2) [of _ l1 l2 ls]
  show ?thesis
    using run_credentials_stop [OF assms(1,2), of "SysExit 1"
            "[Prompt (S ''GitHub username: ''), Prompt (S ''GitHub Personal Access Token: ''),
              Out (CROSS_MARK # S '' Token is required!'')]"]
    by (fastforce simp: exit_code_def)
qed

lemma run_tool_missing:
  assumes "w_chdir w work_dir = None" "answers w curl_version_cmd p" "\<not> proc_ok p"
  shows "\<exists>es. run_script w = (1, es @ map Out (outcome_lines u t ToolMissing))"
proof -
  have "answers w curl_version_cmd (Completed (proc_rc p) (proc_out p) (proc_err p)) \<and> proc_rc p \<noteq> 0 \<or>
        answers w curl_version_cmd (Raised OSError) \<or> (\<exists>e. answers w curl_version_cmd (Raised e))"
    using assms(2,3) by (cases p) auto
  then obtain rc out err e where "answers w curl_version_cmd (Completed rc out err) \<and> rc \<noteq> 0 \<or>
        answers w curl_version_cmd (Raised e)"
    by blast
  from curl_fails_path [OF assms(1) this] run_script_main_stops show ?thesis
    by (fastforce simp: exit_code_def)
qed

lemma report_classified:
  assumes "json_loads cfg out = Inr (JObj ps)" "reply_shaped cfg out"
  shows "appends (report_failure u (JObj ps)) () (map Out (outcome_lines u t (classify_reply (message_of cfg out))))"
proof (cases "map_of ps (S ''message'')")
  case None
  with assms(1) show ?thesis by (simp add: message_of_def report_no_message)
next
  case (Some v)
  with assms obtain m where m: "map_of ps (S ''message'') = Some (JStr m)"
    by (cases v) (simp_all add: reply_shaped_def)
  with assms(1) have mo: "message_of cfg out = Some m" by (simp add: message_of_def)
  consider "m = S ''Bad credentials''" | "m \<noteq> S ''Bad credentials''" "sublist (S ''already exists'') m"
    | "m \<noteq> S ''Bad credentials''" "\<not> sublist (S ''already exists'') m" by blast
  then show ?thesis
    by cases (use m mo report_bad_credentials report_already_exists report_other_message in simp_all)
qed

lemma run_create_classified:
  assumes "ready w u t" "answers w (create_repo_cmd u t) (Completed rc out err)"
    and "rc \<noteq> 0 \<or> py_contains message_key out" "reply_shaped (w_config w) out"
  shows "\<exists>es. run_script w =
    (1, es @ map Out (outcome_lines u t (classify_reply (message_of (w_config w) out))))"
proof -
  from assms(4) obtain ps where j: "json_loads (w_config w) out = Inr (JObj ps)"
    by (auto simp: reply_shaped_def split: sum.splits json.splits)
  have "\<exists>m. map Out (outcome_lines u t (classify_reply (message_of (w_config w) out))) = [Out m]"
    by (cases "message_of (w_config w) out") simp_all
  then obtain m where m: "map Out (outcome_lines u t (classify_reply (message_of (w_config w) out))) = [Out m]"
    by (elim exE)
  from run_create_reported [OF assms(1-3) j] report_classified [OF j assms(4), of u t] m
  show ?thesis by fastforce
qed

lemma run_push_failure:
  assumes "ready w u t" "answers w (create_repo_cmd u t) (Completed 0 out err)"
    and "\<not> py_contains message_key out"
    and "completes w (remote_add_cmd u)" "answers w push_main_cmd (Completed rc out' err')" "rc \<noteq> 0"
  shows "\<exists>es. run_script w = (1, es @ map Out (outcome_lines u t (PushFailure err')))"
proof -
  obtain e1 where e1: "appends (create_repository w u t) () e1"
    using create_repository_ok [OF assms(2,3)] by blast
  obtain e2 where e2: "stops (push_main w u t) (SysExit 1)
      (e2 @ [Run push_main_cmd, Out (CROSS_MARK # S '' Push failed: '' @ err'),
             Out (10 # S ''Try running manually:''), Out (recovery_line u t),
             Out (S ''git push -u origin main'')])"
    using push_main_fails [OF assms(4-6)] by blast
  from run_publish_stops [OF assms(1) publish_push_stops [OF e1 e2]] show ?thesis
    by (fastforce simp: exit_code_def)
qed

lemma run_success:
  assumes "ready w u t" "answers w (create_repo_cmd u t) (Completed 0 out err)"
    and "\<not> py_contains message_key out"
    and "completes w (remote_add_cmd u)" "answers w push_main_cmd (Completed 0 out' err')"
    and "completes w push_pages_cmd" "completes w (topics_cmd u t)"
  shows "\<exists>es. run_script w = (0, es @ map Out (outcome_lines u t Success))"
proof -
  obtain es where "appends (publish w u t) () (es @ map Out (summary_lines u))"
    using publish_full_path [OF assms(2-7)] by blast
  from run_publish_appends [OF assms(1) this] show ?thesis by fastforce
qed

lemma classify_reply_status: "outcome_status (classify_reply m) = 1"
  by (cases m) simp_all

lemma spec_env_world:
  assumes "spec_env w"
  shows "w_chdir w work_dir = None" "\<And>a. answers w a (w_run w [] a)"
    "\<And>a. a \<noteq> curl_version_cmd \<Longrightarrow> completes w a"
    "\<exists>l1 l2 ls. w_stdin w = l1 # l2 # ls"
  using assms unfolding spec_env_def answers_def completes_def
  by (metis, metis, metis, auto simp: Suc_le_length_iff numeral_2_eq_2)

lemma cmds_not_curl:
  "create_repo_cmd u t \<noteq> curl_version_cmd" "remote_add_cmd u \<noteq> curl_version_cmd"
  "push_main_cmd \<noteq> curl_version_cmd" "push_pages_cmd \<noteq> curl_version_cmd"
  "topics_cmd u t \<noteq> curl_version_cmd"
  by (simp_all add: create_repo_cmd_def remote_add_cmd_def push_main_cmd_def push_pages_cmd_def
                    topics_cmd_def curl_version_cmd_def)

lemma completes_answer:
  "answers w a p \<Longrightarrow> completes w a \<Longrightarrow> \<exists>rc out err. p = Completed rc out err"
  by (simp add: answers_def completes_def)

lemma refines_after_create:
  assumes env: "spec_env w" and rd: "ready w u t"
    and cra: "answers w (create_repo_cmd u t) (Completed 0 out err)" and nc: "\<not> py_contains message_key out"
  defines "oc \<equiv> if push_rc (session_of w) \<noteq> 0 then PushFailure (push_err (session_of w)) else Success"
  shows "\<exists>es. run_script w = (outcome_status oc, es @ map Out (outcome_lines u t oc))"
proof -
  note hf = spec_env_world(2) [OF env] and comp = spec_env_world(3) [OF env]
  obtain prc pout perr where pr: "w_run w [] push_main_cmd = Completed prc pout perr"
    using completes_answer [OF hf comp [OF cmds_not_curl(3)]] by blast
  with hf [of push_main_cmd] have pra: "answers w push_main_cmd (Completed prc pout perr)" by simp
  have oc: "oc = (if prc \<noteq> 0 then PushFailure perr else Success)"
    by (simp add: oc_def session_of_def Let_def pr)
  show ?thesis
  proof (cases "prc = 0")
    case False
    with run_push_failure [OF rd cra nc comp [OF cmds_not_curl(2)] pra False] oc show ?thesis by simp
  next
    case True
    with run_success [OF rd cra nc comp [OF cmds_not_curl(2)] pra [unfolded True]
           comp [OF cmds_not_curl(4)] comp [OF cmds_not_curl(5)]] oc
    show ?thesis by simp
  qed
qed

lemma refines_ready:
  assumes env: "spec_env w" and rd: "ready w u t" and tool: "tool_ok (session_of w)"
    and su: "user_in (session_of w) = u" "token_in (session_of w) = t"
    and ut: "str_strip (hd (w_stdin w)) = u" "str_strip (hd (tl (w_stdin w))) = t"
  shows "\<exists>es. run_script w =
    (outcome_status (spec_outcome (session_of w)), es @ map Out (outcome_lines u t (spec_outcome (session_of w))))"
proof -
  note hf = spec_env_world(2) [OF env] and comp = spec_env_world(3) [OF env]
  have ne: "u \<noteq> []" "t \<noteq> []" using rd by (simp_all add: ready_def)
  obtain rc out err where cr: "w_run w [] (create_repo_cmd u t) = Completed rc out err"
    using completes_answer [OF hf comp [OF cmds_not_curl(1)]] by blast
  with hf [of "create_repo_cmd u t"] have cra: "answers w (create_repo_cmd u t) (Completed rc out err)"
    by simp
  have sess: "create_rc (session_of w) = rc" "reply_message (session_of w) = message_of (w_config w) out"
    by (simp_all add: session_of_def Let_def ut cr)
  from env have shape: "rc \<noteq> 0 \<or> py_contains message_key out \<Longrightarrow> reply_shaped (w_config w) out"
    and iff: "py_contains message_key out \<longleftrightarrow> message_of (w_config w) out \<noteq> None"
    by (simp_all add: spec_env_def Let_def su sess cr)
  show ?thesis
  proof (cases "rc \<noteq> 0 \<or> py_contains message_key out")
    case True
    with tool ne iff have "spec_outcome (session_of w) = classify_reply (message_of (w_config w) out)"
      by (auto simp: spec_outcome_def sess su)
    with run_create_classified [OF rd cra True shape [OF True]] show ?thesis
      by (simp add: classify_reply_status)
  next
    case False
    with tool ne iff have "spec_outcome (session_of w) =
        (if push_rc (session_of w) \<noteq> 0 then PushFailure (push_err (session_of w)) else Success)"
      by (simp add: spec_outcome_def sess su)
    with False refines_after_create [OF env rd, of out err] cra show ?thesis by simp
  qed
qed

text \<open>
  C25: in the environment the specification assumes, the script refines the
  specification's decision table: it ends with the exit status of the outcome
  \<open>spec_outcome\<close> prescribes for the session, and its output ends with that
  outcome's message (the summary on success, the recovery instructions after a failed
  push).
\<close>

theorem workflow_refines:
  assumes env: "spec_env w"
  shows "\<exists>es. run_script w =
    (outcome_status (spec_outcome (session_of w)),
     es @ map Out (outcome_lines (user_in (session_of w)) (token_in (session_of w))
                                 (spec_outcome (session_of w))))"
proof -
  note cd = spec_env_world(1) [OF env] and hf = spec_env_world(2) [OF env]
  obtain l1 l2 ls where sin: "w_stdin w = l1 # l2 # ls" using spec_env_world(4) [OF env] by blast
  obtain u t where ut: "str_strip (hd (w_stdin w)) = u" "str_strip (hd (tl (w_stdin w))) = t" by blast
  have su: "user_in (session_of w) = u" "token_in (session_of w) = t"
    by (simp_all add: session_of_def Let_def ut)
  show ?thesis
  proof (cases "proc_ok (w_run w [] curl_version_cmd)")
    case False
    then have "spec_outcome (session_of w) = ToolMissing"
      by (simp add: spec_outcome_def session_of_def Let_def)
    with run_tool_missing [OF cd hf False] show ?thesis by (simp add: su)
  next
    case True
    then obtain out0 err0 where "w_run w [] curl_version_cmd = Completed 0 out0 err0"
      by (cases "w_run w [] curl_version_cmd") auto
    with hf [of curl_version_cmd] have cua: "answers w curl_version_cmd (Completed 0 out0 err0)" by simp
    have tool: "tool_ok (session_of w)" using True by (simp add: session_of_def Let_def)
    show ?thesis
    proof (cases "u = [] \<or> t = []")
      case True
      then have "spec_outcome (session_of w) = MissingInput" using tool su by (simp add: spec_outcome_def)
      with run_missing_input [OF cd cua sin] True ut sin show ?thesis by (simp add: su)
    next
      case False
      with cd cua sin ut have "ready w u t" by (auto simp: ready_def)
      from refines_ready [OF env this tool su ut] show ?thesis by (simp add: su)
    qed
  qed
qed

end
