(* ===== verification/Json_Codec.thy ===== *)
theory Json_Codec
  imports Json
begin

text \<open>
  How the encoder and the decoder of \<open>Json\<close> fit together. With
  \<open>ensure_ascii\<close> the text \<open>json_dumps\<close> writes is pure ASCII; and
  \<open>json_loads\<close> reads back every value \<open>json_dumps\<close> writes, provided it holds
  no float, only Unicode scalar values, objects with distinct keys, integers within the
  digit limit and no deeper nesting than the recursion limit allows
  (\<open>json_loads_dumps\<close>). The proof follows the scanner: each escape decodes to its
  code point, each integer literal to its value, and by induction on the value the
  scanner returns the value and leaves the rest of the input. Conversely every value the
  scanner returns is well formed (\<open>json_wf\<close>): its objects have distinct keys and
  it nests no deeper than the recursion room (\<open>json_loads_wf\<close>).
\<close>

subsection \<open>Values the encoder and the decoder agree on\<close>

text \<open>
  \<open>scalar_cp\<close>: a Unicode scalar value, a code point that is not a surrogate. A Python
  str may hold lone surrogates, but \<open>json.loads\<close> joins an escaped high and low
  surrogate into one code point, so only scalar values come back unchanged.
  \<open>ends_value r\<close>: \<open>r\<close> is what may follow a value inside a document (nothing, a
  comma, or a closing bracket), so that a number is not read on into it.
  \<open>json_ok cfg d v\<close>: \<open>v\<close> holds no float, its texts are scalar values, its
  objects have distinct keys, its integers are within the digit limit, and it nests at
  most \<open>d\<close> containers deep.
\<close>

definition scalar_cp :: "codepoint \<Rightarrow> bool" where
  "scalar_cp c \<longleftrightarrow> c < 1114112 \<and> (c < 55296 \<or> 57343 < c)"

definition ends_value :: "pystr \<Rightarrow> bool" where
  "ends_value r \<longleftrightarrow> r = [] \<or> hd r \<in> {44, 93, 125}"

fun json_ok :: "py_config \<Rightarrow> nat \<Rightarrow> json \<Rightarrow> bool" where
  "json_ok cfg d JNull = True"
| "json_ok cfg d (JBool b) = True"
| "json_ok cfg d (JInt i) = int_digits_ok cfg (length (digits_of (nat \<bar>i\<bar>)))"
| "json_ok cfg d (JFloat lit) = False"
| "json_ok cfg d (JStr s) = list_all scalar_cp s"
| "json_ok cfg d (JArr vs) = (0 < d \<and> list_all (json_ok cfg (d - 1)) vs)"
| "json_ok cfg d (JObj ps) =
     (0 < d \<and> distinct (map fst ps) \<and>
      list_all (\<lambda>(k, v). list_all scalar_cp k \<and> json_ok cfg (d - 1) v) ps)"

text \<open>
  \<open>json_wf d v\<close>: the shape of a value \<open>json.loads\<close> can return when the
  scanner may still open \<open>d\<close> containers: every object has distinct keys (a dict
  keeps one entry per key) and no container nests deeper than \<open>d\<close>.
\<close>

fun json_wf :: "nat \<Rightarrow> json \<Rightarrow> bool" where
  "json_wf d (JArr vs) = (0 < d \<and> (\<forall>v \<in> set vs. json_wf (d - 1) v))"
| "json_wf d (JObj ps) = (0 < d \<and> distinct (map fst ps) \<and> (\<forall>(k, v) \<in> set ps. json_wf (d - 1) v))"
| "json_wf d v = True"

text \<open>\<open>nested n\<close>: \<open>n + 1\<close> arrays nested in one another, \<open>[[...[]...]]\<close>.\<close>

fun nested :: "nat \<Rightarrow> json" where
  "nested 0 = JArr []"
| "nested (Suc n) = JArr [nested n]"

subsection \<open>The encoder writes ASCII\<close>

text \<open>
  With \<open>ensure_ascii\<close>, every code point outside printable ASCII is written as an
  escape, so the text of a value without floats is pure ASCII whatever its strings hold.
\<close>

lemma hex_digit_ascii: "d < 16 \<Longrightarrow> hex_digit d < 128"
  by (simp add: hex_digit_def)

lemma hex4_ascii: "set (hex4 n) \<subseteq> {..<128}"
  unfolding hex4_def using hex_digit_ascii by auto

lemma ascii_escape_ascii: "set (ascii_escape c) \<subseteq> {..<128}"
  unfolding ascii_escape_def using hex4_ascii [of c] hex4_ascii [of "55232 + c div 1024"]
    hex4_ascii [of "56320 + c mod 1024"]
  by (simp split: if_split)

lemma encode_str_ascii: "set (encode_str s) \<subseteq> {..<128}"
  using ascii_escape_ascii by (fastforce simp: encode_str_def)

lemma join_subset:
  "set sep \<subseteq> A \<Longrightarrow> (\<And>x. x \<in> set xs \<Longrightarrow> set x \<subseteq> A) \<Longrightarrow> set (join sep xs) \<subseteq> A"
  by (induction sep xs rule: join.induct) auto

lemma punct_ascii:
  "set (S '', '') \<subseteq> {..<128}" "set (S '': '') \<subseteq> {..<128}"
  "set (S ''true'') \<subseteq> {..<128}" "set (S ''false'') \<subseteq> {..<128}"
  by (simp_all add: S_def)

lemma dumps_obj_ascii:
  assumes "\<And>k v. (k, v) \<in> set ps \<Longrightarrow> set (json_dumps v) \<subseteq> {..<128}"
  shows "set (json_dumps (JObj ps)) \<subseteq> {..<128}"
proof -
  have "set (join (S '', '') (map (\<lambda>(k, v). encode_str k @ S '': '' @ json_dumps v) ps)) \<subseteq> {..<128}"
  proof (intro join_subset punct_ascii)
    fix x assume "x \<in> set (map (\<lambda>(k, v). encode_str k @ S '': '' @ json_dumps v) ps)"
    then obtain k v where "(k, v) \<in> set ps" "x = encode_str k @ S '': '' @ json_dumps v" by auto
    with assms [of k v] encode_str_ascii [of k] punct_ascii(2) show "set x \<subseteq> {..<128}"
      by (simp only: set_append Un_subset_iff)
  qed
  then show ?thesis by simp
qed

lemma dumps_arr_ascii:
  assumes "\<And>v. v \<in> set vs \<Longrightarrow> set (json_dumps v) \<subseteq> {..<128}"
  shows "set (json_dumps (JArr vs)) \<subseteq> {..<128}"
proof -
  have "set (join (S '', '') (map json_dumps vs)) \<subseteq> {..<128}"
    using assms by (intro join_subset punct_ascii) auto
  then show ?thesis by simp
qed

lemma dumps_leaf_ascii:
  "set (json_dumps (JStr s)) \<subseteq> {..<128}" "set (json_dumps (JBool b)) \<subseteq> {..<128}"
  using encode_str_ascii punct_ascii by simp_all

subsection \<open>Decoding what the encoder wrote\<close>

text \<open>
  \<open>json.loads\<close> reads back what \<open>json.dumps\<close> wrote: the escapes of
  \<open>ascii_escape\<close> decode to the code point (\<open>scan_str_escape\<close>), integers scan
  to their value (\<open>match_number_int\<close>), and by induction on the value, with the fuel
  bound of \<open>scan_fuel_enough\<close>, the scanner returns the value and the rest of the
  input (\<open>scan_dumps\<close>).
\<close>

lemma hex_val_hex_digit: "d < 16 \<Longrightarrow> hex_val (hex_digit d) = Some d"
  by (simp add: hex_val_def hex_digit_def)

lemma hex4_digits:
  fixes n :: nat
  assumes "n < 65536"
  shows "((n div 4096 * 16 + n div 256 mod 16) * 16 + n div 16 mod 16) * 16 + n mod 16 = n"
proof -
  have "n div 4096 * 16 + n div 256 mod 16 = n div 256"
    using div_mult2_eq [of n 256 16] by simp
  moreover have "n div 256 * 16 + n div 16 mod 16 = n div 16"
    using div_mult2_eq [of n 16 16] by simp
  ultimately show ?thesis by simp
qed

lemma hex4_val_hex4: "n < 65536 \<Longrightarrow> hex4_val (hex4 n) = Some n"
proof -
  assume n: "n < 65536"
  then have "n div 4096 < 16" by simp
  then show ?thesis
    using hex4_digits [OF n]
    by (simp add: hex4_def hex4_val_def hex_val_hex_digit)
qed

lemma length_hex4 [simp]: "length (hex4 n) = 4"
  by (simp add: hex4_def)

lemma decode_escape_u:
  assumes "n < 65536" "n < 55296 \<or> 56319 < n" "rest \<noteq> []"
  shows "decode_escape (117 # hex4 n @ rest) = Inr (n, rest)"
  using assms by (auto simp: decode_escape_def hex4_val_hex4)

lemma decode_escape_pair:
  assumes "65536 \<le> c" "c < 1114112" "rest \<noteq> []"
  shows "decode_escape (117 # hex4 (55232 + c div 1024) @ 92 # 117 # hex4 (56320 + c mod 1024) @ rest) =
         Inr (c, rest)"
proof -
  let ?hi = "55232 + c div 1024" and ?lo = "56320 + c mod 1024"
  have hi: "55296 \<le> ?hi" "?hi \<le> 56319" "?hi < 65536" using assms(1,2) by auto
  have lo: "56320 \<le> ?lo" "?lo \<le> 57343" "?lo < 65536" by auto
  have c: "65536 + (?hi - 55296) * 1024 + (?lo - 56320) = c"
    using assms(1) by (simp add: algebra_simps)
  let ?r = "hex4 ?hi @ 92 # 117 # hex4 ?lo @ rest"
  have "take 4 ?r = hex4 ?hi" "drop 4 ?r = 92 # 117 # hex4 ?lo @ rest"
    "take 4 (drop 6 ?r) = hex4 ?lo" "drop 10 ?r = rest"
    by simp_all
  moreover have "\<not> length ?r \<le> 4" "6 < length (drop 4 ?r)" using assms(3) by simp_all
  ultimately show ?thesis
    using hi lo c by (simp add: decode_escape_def hex4_val_hex4 del: drop_append take_append)
qed

lemma decode_escape_simple:
  "e \<noteq> 117 \<Longrightarrow> simple_escape e = Some u \<Longrightarrow> decode_escape (e # r) = Inr (u, r)"
  by (simp add: decode_escape_def)

lemma scan_str_escape:
  assumes "scalar_cp c" "rest \<noteq> []"
  shows "scan_str acc (ascii_escape c @ rest) = scan_str (acc @ [c]) rest"
proof -
  show ?thesis
  proof (cases "32 \<le> c \<and> c \<le> 126 \<and> c \<noteq> 92 \<and> c \<noteq> 34")
    case True
    then show ?thesis by (simp add: ascii_escape_def)
  next
    case False
    show ?thesis
    proof (cases "c \<in> {92, 34, 8, 12, 10, 13, 9}")
      case True
      with False show ?thesis
        by (auto simp: ascii_escape_def decode_escape_simple simple_escape_def)
    next
      case other: False
      show ?thesis
      proof (cases "c < 65536")
        case True
        with assms(1) have "c < 55296 \<or> 56319 < c" by (auto simp: scalar_cp_def)
        with True False other assms(2) show ?thesis
          by (simp add: ascii_escape_def decode_escape_u)
      next
        case big: False
        with assms(1) have "65536 \<le> c" "c < 1114112" by (auto simp: scalar_cp_def)
        with False other big assms(2) show ?thesis
          by (simp add: ascii_escape_def decode_escape_pair)
      qed
    qed
  qed
qed

lemma scan_str_encoded:
  "\<forall>c \<in> set s. scalar_cp c \<Longrightarrow> scan_str acc (concat (map ascii_escape s) @ 34 # r) = Inr (acc @ s, r)"
proof (induction s arbitrary: acc)
  case Nil
  then show ?case by simp
next
  case (Cons c s)
  have "scan_str acc (ascii_escape c @ concat (map ascii_escape s) @ 34 # r) =
        scan_str (acc @ [c]) (concat (map ascii_escape s) @ 34 # r)"
    using Cons.prems by (intro scan_str_escape) simp_all
  with Cons show ?case by simp
qed

lemma digits_of_nonempty [simp]: "digits_of n \<noteq> []"
  by (subst digits_of.simps) simp

lemma digits_of_digits: "c \<in> set (digits_of n) \<Longrightarrow> is_digit c"
proof (induction n rule: digits_of.induct)
  case (1 n)
  then show ?case
    by (subst (asm) digits_of.simps) (auto simp: is_digit_def split: if_splits)
qed

lemma digits_val_snoc: "digits_val (xs @ [c]) = 10 * digits_val xs + (c - 48)"
  by (simp add: digits_val_def)

lemma digits_val_digits_of: "digits_val (digits_of n) = n"
proof (induction n rule: digits_of.induct)
  case (1 n)
  then show ?case
    by (subst digits_of.simps) (simp add: digits_val_snoc digits_val_def)
qed

lemma hd_digits_of: "0 < n \<Longrightarrow> hd (digits_of n) \<noteq> 48"
proof (induction n rule: digits_of.induct)
  case (1 n)
  then show ?case
    by (subst digits_of.simps) (auto simp: hd_append)
qed

lemma digits_of_zero: "digits_of 0 = [48]"
  by (simp add: digits_of.simps)

lemma hd_digits_of_digit: "is_digit (hd (digits_of n))"
  using digits_of_digits [of "hd (digits_of n)" n] by simp

lemma ends_value_num:
  "ends_value r \<Longrightarrow> num_frac r = [] \<and> num_exp r = [] \<and> takeWhile is_digit r = []"
  by (cases r) (auto simp: ends_value_def num_frac_def num_exp_def is_digit_def Let_def)

lemma num_int_digits_of: "ends_value r \<Longrightarrow> num_int (digits_of n @ r) = digits_of n"
proof (cases "n = 0")
  case True
  then show ?thesis by (simp add: num_int_def digits_of_zero)
next
  case False
  assume r: "ends_value r"
  have "takeWhile is_digit (digits_of n @ r) = digits_of n"
    using ends_value_num [OF r] digits_of_digits by (simp add: takeWhile_append2)
  with False hd_digits_of [of n] show ?thesis
    by (simp add: num_int_def)
qed

lemma match_number_int_limit:
  assumes "ends_value r"
  shows "match_number cfg (int_repr i @ r) =
    (if int_digits_ok cfg (length (digits_of (nat \<bar>i\<bar>))) then Inr (JInt i, r) else Inl ValueError)"
proof -
  let ?ds = "digits_of (nat \<bar>i\<bar>)"
  have dg: "is_digit (hd ?ds)" by (rule hd_digits_of_digit)
  then have hd_ds: "hd (?ds @ r) \<noteq> 45" "is_digit (hd (?ds @ r))"
    by (auto simp: is_digit_def hd_append)
  have parts: "num_int (?ds @ r) = ?ds" "num_frac r = []" "num_exp r = []"
    using num_int_digits_of [OF assms] ends_value_num [OF assms] by simp_all
  show ?thesis
  proof (cases "i < 0")
    case True
    then have "int_repr i = 45 # ?ds" by (simp add: int_repr_def)
    with True parts dg show ?thesis
      by (simp add: match_number_def Let_def digits_val_digits_of)
  next
    case False
    then have "int_repr i = ?ds" by (simp add: int_repr_def)
    with False parts hd_ds show ?thesis
      by (simp add: match_number_def Let_def digits_val_digits_of)
  qed
qed

lemma match_number_int:
  assumes "int_digits_ok cfg (length (digits_of (nat \<bar>i\<bar>)))" "ends_value r"
  shows "match_number cfg (int_repr i @ r) = Inr (JInt i, r)"
  using match_number_int_limit [OF assms(2)] assms(1) by simp

lemma S_sep: "S '', '' = [44, 32]" "S '': '' = [58, 32]"
  by (simp_all add: S_def)

lemma skip_ws_start: "xs \<noteq> [] \<Longrightarrow> \<not> is_ws (hd xs) \<Longrightarrow> skip_ws (xs @ r) = xs @ r"
  by (cases xs) (simp_all add: skip_ws_def)

lemma dumps_start:
  "json_ok cfg d v \<Longrightarrow>
   json_dumps v \<noteq> [] \<and> \<not> is_ws (hd (json_dumps v)) \<and> hd (json_dumps v) \<noteq> 93 \<and>
   hd (json_dumps v) \<noteq> 125 \<and> hd (json_dumps v) \<noteq> 65279"
proof (cases v)
  case (JInt i)
  have "is_digit (hd (digits_of (nat \<bar>i\<bar>)))" by (rule hd_digits_of_digit)
  then show ?thesis
    using JInt by (auto simp: int_repr_def is_ws_def is_digit_def)
qed (auto simp: S_def encode_str_def is_ws_def)

lemma join_Cons: "join sep (x # xs) = x @ (if xs = [] then [] else sep @ join sep xs)"
  by (cases xs) simp_all

lemma update_fresh: "k \<notin> set (map fst acc) \<Longrightarrow> AList.update k v acc = acc @ [(k, v)]"
  by (induction acc) auto

lemma scan_items_dumps:
  assumes IH: "\<And>v f r. v \<in> set vs \<Longrightarrow> ends_value r \<Longrightarrow> 2 * length (json_dumps v @ r) < f \<Longrightarrow>
                 scan_value f cfg d (json_dumps v @ r) = Some (Inr (v, r))"
    and ok: "\<forall>v \<in> set vs. json_ok cfg d v" and ne: "vs \<noteq> []"
    and fuel: "2 * length (join [44, 32] (map json_dumps vs) @ 93 # r) + 1 < f"
  shows "scan_items f cfg d acc (join [44, 32] (map json_dumps vs) @ 93 # r) = Some (Inr (acc @ vs, r))"
  using ne IH ok fuel
proof (induction vs arbitrary: acc f rule: list_nonempty_induct)
  case (single v)
  obtain f' where f: "f = Suc f'" using single.prems(3) by (cases f) auto
  have "scan_value f' cfg d (json_dumps v @ 93 # r) = Some (Inr (v, 93 # r))"
    using single.prems f by (intro single.prems(1)) (simp_all add: ends_value_def)
  then show ?case by (simp add: f skip_ws_def is_ws_def)
next
  case (cons x xs)
  obtain f' where f: "f = Suc f'" using cons.prems(3) by (cases f) auto
  let ?rest = "join [44, 32] (map json_dumps xs) @ 93 # r"
  obtain y ys where xs: "xs = y # ys" using cons.hyps by (cases xs) auto
  have ds: "json_dumps y \<noteq> [] \<and> \<not> is_ws (hd (json_dumps y))"
    using dumps_start [of cfg d y] cons.prems(2) xs by simp
  have rs: "skip_ws ?rest = ?rest"
    using skip_ws_start [of "json_dumps y"
        "(if ys = [] then [] else [44, 32] @ join [44, 32] (map json_dumps ys)) @ 93 # r"] ds
    by (simp add: xs join_Cons)
  then have start: "skip_ws (32 # ?rest) = ?rest" by (simp add: skip_ws_def is_ws_def)
  have "scan_value f' cfg d (json_dumps x @ 44 # 32 # ?rest) = Some (Inr (x, 44 # 32 # ?rest))"
    using cons.prems f cons.hyps by (intro cons.prems(1)) (simp_all add: ends_value_def join_Cons)
  moreover have "scan_items f' cfg d (acc @ [x]) ?rest = Some (Inr ((acc @ [x]) @ xs, r))"
  proof (rule cons.IH)
    show "scan_value g cfg d (json_dumps v @ r') = Some (Inr (v, r'))"
      if "v \<in> set xs" "ends_value r'" "2 * length (json_dumps v @ r') < g" for v r' g
      using that by (intro cons.prems(1)) simp_all
    show "\<forall>v \<in> set xs. json_ok cfg d v" using cons.prems(2) by simp
    show "2 * length ?rest + 1 < f'" using cons.prems(3) f cons.hyps by (simp add: join_Cons)
  qed
  ultimately show ?case
    using cons.hyps rs by (simp add: f join_Cons skip_ws_def is_ws_def)
qed

lemma skip_ws_dumps: "json_ok cfg d v \<Longrightarrow> skip_ws (json_dumps v @ r) = json_dumps v @ r"
  using dumps_start [of cfg d v] by (intro skip_ws_start) simp_all

lemma scan_member_step:
  assumes "\<forall>c \<in> set k. scalar_cp c" "json_ok cfg d v"
    and "scan_value f cfg d (json_dumps v @ tl') = Some (Inr (v, tl'))"
  shows "scan_members (Suc f) cfg d acc (encode_str k @ [58, 32] @ json_dumps v @ tl') =
    (case skip_ws tl' of
       [] \<Rightarrow> Some (Inl JSONDecodeError)
     | c' # r3 \<Rightarrow>
         if c' = 125 then Some (Inr (AList.update k v acc, r3))
         else if c' = 44 then scan_members f cfg d (AList.update k v acc) (skip_ws r3)
         else Some (Inl JSONDecodeError))"
proof -
  have "scan_str [] (concat (map ascii_escape k) @ 34 # 58 # 32 # json_dumps v @ tl') =
        Inr (k, 58 # 32 # json_dumps v @ tl')"
    using scan_str_encoded [OF assms(1)] by simp
  moreover have "skip_ws (32 # json_dumps v @ tl') = json_dumps v @ tl'"
    using skip_ws_dumps [OF assms(2)] by (simp add: skip_ws_def is_ws_def)
  ultimately show ?thesis
    using assms(3) by (simp add: encode_str_def skip_ws_def is_ws_def)
qed

lemma scan_members_dumps:
  assumes IH: "\<And>k v f r. (k, v) \<in> set ps \<Longrightarrow> ends_value r \<Longrightarrow> 2 * length (json_dumps v @ r) < f \<Longrightarrow>
                 scan_value f cfg d (json_dumps v @ r) = Some (Inr (v, r))"
    and ok: "\<forall>(k, v) \<in> set ps. (\<forall>c \<in> set k. scalar_cp c) \<and> json_ok cfg d v"
    and dist: "distinct (map fst (acc @ ps))" and ne: "ps \<noteq> []"
    and fuel: "2 * length (join [44, 32] (map (\<lambda>(k, v). encode_str k @ [58, 32] @ json_dumps v) ps) @
                 125 # r) + 1 < f"
  shows "scan_members f cfg d acc
           (join [44, 32] (map (\<lambda>(k, v). encode_str k @ [58, 32] @ json_dumps v) ps) @ 125 # r) =
         Some (Inr (acc @ ps, r))"
  using ne IH ok dist fuel
proof (induction ps arbitrary: acc f rule: list_nonempty_induct)
  case (single p)
  obtain k v where p: "p = (k, v)" by (cases p)
  obtain f' where f: "f = Suc f'" using single.prems(4) by (cases f) auto
  have v: "scan_value f' cfg d (json_dumps v @ 125 # r) = Some (Inr (v, 125 # r))"
    using single.prems f p by (intro single.prems(1)) (simp_all add: ends_value_def encode_str_def)
  have "AList.update k v acc = acc @ [(k, v)]"
    using single.prems(3) p by (intro update_fresh) simp
  with scan_member_step [OF _ _ v] single.prems(2) p show ?case
    by (simp add: f skip_ws_def is_ws_def)
next
  case (cons p ps)
  obtain k v where p: "p = (k, v)" by (cases p)
  obtain f' where f: "f = Suc f'" using cons.prems(4) by (cases f) auto
  let ?txt = "\<lambda>(k, v). encode_str k @ [58, 32] @ json_dumps v"
  let ?rest = "join [44, 32] (map ?txt ps) @ 125 # r"
  obtain q qs where ps: "ps = q # qs" using cons.hyps by (cases ps) auto
  have rs: "skip_ws ?rest = ?rest"
    using ps by (cases q) (simp add: join_Cons encode_str_def skip_ws_def is_ws_def)
  have v: "scan_value f' cfg d (json_dumps v @ 44 # 32 # ?rest) = Some (Inr (v, 44 # 32 # ?rest))"
    using cons.prems f p cons.hyps
    by (intro cons.prems(1) [of k v]) (simp_all add: ends_value_def join_Cons)
  have upd: "AList.update k v acc = acc @ [(k, v)]"
    using cons.prems(3) p by (intro update_fresh) simp
  have "scan_members f' cfg d (acc @ [(k, v)]) ?rest = Some (Inr ((acc @ [(k, v)]) @ ps, r))"
  proof (rule cons.IH)
    show "scan_value g cfg d (json_dumps v' @ r') = Some (Inr (v', r'))"
      if "(k', v') \<in> set ps" "ends_value r'" "2 * length (json_dumps v' @ r') < g" for k' v' r' g
      using that by (intro cons.prems(1) [of k' v']) simp_all
    show "\<forall>(k, v) \<in> set ps. (\<forall>c \<in> set k. scalar_cp c) \<and> json_ok cfg d v" using cons.prems(2) by simp
    show "distinct (map fst ((acc @ [(k, v)]) @ ps))" using cons.prems(3) p by simp
    show "2 * length ?rest + 1 < f'" using cons.prems(4) f cons.hyps p by (simp add: join_Cons)
  qed
  with scan_member_step [OF _ _ v] cons.prems(2) p upd rs cons.hyps show ?case
    by (simp add: f join_Cons skip_ws_def is_ws_def)
qed

lemma int_repr_start:
  "\<exists>c cs. int_repr i @ r = c # cs \<and> (c = 45 \<and> is_digit (hd cs) \<or> is_digit c)"
proof -
  obtain c0 ds where ds: "digits_of (nat \<bar>i\<bar>) = c0 # ds"
    by (cases "digits_of (nat \<bar>i\<bar>)") simp_all
  have "is_digit c0" using hd_digits_of_digit [of "nat \<bar>i\<bar>"] ds by simp
  with ds show ?thesis by (auto simp: int_repr_def)
qed

lemma scan_value_number:
  "c \<notin> {34, 123, 91, 110, 116, 102, 78, 73} \<Longrightarrow> \<not> (c = 45 \<and> take 8 cs = S ''Infinity'') \<Longrightarrow>
   scan_value (Suc f) cfg d (c # cs) = Some (match_number cfg (c # cs))"
  by auto

lemma scan_dumps:
  "json_ok cfg d v \<Longrightarrow> ends_value r \<Longrightarrow> 2 * length (json_dumps v @ r) < f \<Longrightarrow>
   scan_value f cfg d (json_dumps v @ r) = Some (Inr (v, r))"
proof (induction v arbitrary: d f r)
  case JNull
  then obtain f' where "f = Suc f'" by (cases f) auto
  then show ?case by (simp add: S_def)
next
  case (JBool b)
  then obtain f' where "f = Suc f'" by (cases f) auto
  then show ?case by (simp add: S_def)
next
  case (JInt i)
  then obtain f' where f: "f = Suc f'" by (cases f) auto
  obtain c cs where c: "int_repr i @ r = c # cs" "c = 45 \<and> is_digit (hd cs) \<or> is_digit c"
    using int_repr_start by blast
  have m: "match_number cfg (int_repr i @ r) = Inr (JInt i, r)"
    using JInt by (intro match_number_int) simp_all
  from c have "\<not> (c = 45 \<and> take 8 cs = S ''Infinity'')"
    by (cases cs) (auto simp: S_def is_digit_def)
  moreover from c(2) have "c \<notin> {34, 123, 91, 110, 116, 102, 78, 73}"
    by (auto simp: is_digit_def)
  ultimately show ?case
    using c(1) m by (simp add: f scan_value_number del: scan_value.simps)
next
  case (JFloat x)
  then show ?case by simp
next
  case (JStr s)
  then obtain f' where "f = Suc f'" by (cases f) auto
  with JStr.prems(1) show ?case
    by (simp add: encode_str_def scan_str_encoded list_all_iff)
next
  case (JArr vs)
  then obtain f' where f: "f = Suc f'" by (cases f) auto
  show ?case
  proof (cases vs)
    case Nil
    with JArr.prems(1) show ?thesis by (simp add: f skip_ws_def is_ws_def)
  next
    case (Cons v1 vs1)
    let ?cs = "join [44, 32] (map json_dumps vs) @ 93 # r"
    have ok: "\<forall>v \<in> set vs. json_ok cfg (d - 1) v" "0 < d"
      using JArr.prems(1) by (simp_all add: list_all_iff)
    have cs: "skip_ws ?cs = ?cs" "?cs \<noteq> []" "hd ?cs \<noteq> 93"
      using skip_ws_dumps [of cfg "d - 1" v1] dumps_start [of cfg "d - 1" v1] ok Cons
      by (simp_all add: join_Cons)
    have "scan_items f' cfg (d - 1) [] ?cs = Some (Inr ([] @ vs, r))"
    proof (rule scan_items_dumps)
      show "scan_value g cfg (d - 1) (json_dumps v @ r') = Some (Inr (v, r'))"
        if "v \<in> set vs" "ends_value r'" "2 * length (json_dumps v @ r') < g" for v r' g
        using that ok by (intro JArr.IH) simp_all
      show "2 * length ?cs + 1 < f'" using JArr.prems(3) f by (simp add: S_sep)
    qed (use ok Cons in simp_all)
    with cs ok show ?thesis by (simp add: f S_sep)
  qed
next
  case (JObj ps)
  then obtain f' where f: "f = Suc f'" by (cases f) auto
  show ?case
  proof (cases ps)
    case Nil
    with JObj.prems(1) show ?thesis by (simp add: f skip_ws_def is_ws_def)
  next
    case (Cons p1 ps1)
    let ?txt = "\<lambda>(k, v). encode_str k @ [58, 32] @ json_dumps v"
    let ?cs = "join [44, 32] (map ?txt ps) @ 125 # r"
    have ok: "\<forall>(k, v) \<in> set ps. (\<forall>c \<in> set k. scalar_cp c) \<and> json_ok cfg (d - 1) v"
      "distinct (map fst ps)" "0 < d"
      using JObj.prems(1) by (auto simp: list_all_iff)
    have cs: "skip_ws ?cs = ?cs" "?cs \<noteq> []" "hd ?cs = 34"
      using Cons by (cases p1, simp_all add: join_Cons encode_str_def skip_ws_def is_ws_def)+
    have "scan_members f' cfg (d - 1) [] ?cs = Some (Inr ([] @ ps, r))"
    proof (rule scan_members_dumps)
      show "scan_value g cfg (d - 1) (json_dumps v @ r') = Some (Inr (v, r'))"
        if "(k, v) \<in> set ps" "ends_value r'" "2 * length (json_dumps v @ r') < g" for k v r' g
        using that ok by (intro JObj.IH) (auto simp: snds.simps)
      show "2 * length ?cs + 1 < f'" using JObj.prems(3) f by (simp add: S_sep)
    qed (use ok Cons in simp_all)
    with cs ok show ?thesis by (simp add: f S_sep)
  qed
qed

lemma json_loads_dumps:
  assumes "json_ok cfg (recursion_room cfg) v"
  shows "json_loads cfg (json_dumps v) = Inr v"
proof -
  have "scan_value (Suc (2 * length (json_dumps v))) cfg (recursion_room cfg) (json_dumps v @ []) =
        Some (Inr (v, []))"
    using assms by (intro scan_dumps) (simp_all add: ends_value_def)
  then show ?thesis
    using dumps_start [OF assms] skip_ws_dumps [OF assms, of "[]"]
    by (simp add: json_loads_def skip_ws_def)
qed

lemma scalar_S: "Ball (set (S cs)) scalar_cp"
  using S_ascii by (fastforce simp: scalar_cp_def)

subsection \<open>The shape of decoded values\<close>

text \<open>
  Each value the scanner returns has the shape \<open>json_wf\<close> describes: an object's
  members are collected with \<open>AList.update\<close>, which keeps the keys distinct, and
  each container is scanned with one level less of room. The three statements follow
  the mutual recursion, with the accumulated elements and members as invariant.
\<close>

lemma set_update_cases: "p \<in> set (AList.update k v al) \<Longrightarrow> p = (k, v) \<or> p \<in> set al"
  by (induction al) (auto split: if_splits)

lemma scan_wf:
  "scan_value f cfg d s = Some (Inr (v, r)) \<Longrightarrow> json_wf d v"
  "scan_items f cfg d acc s = Some (Inr (vs, r)) \<Longrightarrow> \<forall>v \<in> set acc. json_wf d v \<Longrightarrow>
   \<forall>v \<in> set vs. json_wf d v"
  "scan_members f cfg d ps s = Some (Inr (qs, r)) \<Longrightarrow> distinct (map fst ps) \<Longrightarrow>
   \<forall>(k, v) \<in> set ps. json_wf d v \<Longrightarrow> distinct (map fst qs) \<and> (\<forall>(k, v) \<in> set qs. json_wf d v)"
proof (induction f cfg d s and f cfg d acc s and f cfg d ps s arbitrary: v r and vs r and qs r
       rule: scan_value_scan_items_scan_members.induct)
  case (2 f cfg d s)
  then obtain c cs where s: "s = c # cs" by (cases s) auto
  show ?case
  proof (cases "c = 123 \<or> c = 91")
    case True
    with "2.prems" "2.IH" s show ?thesis
      by (auto split: if_splits option.splits sum.splits)
  next
    case False
    with "2.prems" s show ?thesis
      by (auto simp: match_number_def Let_def split: if_splits sum.splits)
  qed
next
  case (4 f cfg d acc s)
  from "4.prems" obtain v0 r0 where v0: "scan_value f cfg d s = Some (Inr (v0, r0))"
    by (auto split: option.splits sum.splits)
  with "4.IH"(1) have wf0: "json_wf d v0" by blast
  from "4.prems" v0 obtain c r' where sk: "skip_ws r0 = c # r'"
    by (auto split: list.splits)
  show ?case
  proof (cases "c = 93")
    case True
    with "4.prems" v0 sk wf0 show ?thesis by auto
  next
    case False
    with "4.prems" v0 sk have c: "c = 44"
      and rec: "scan_items f cfg d (acc @ [v0]) (skip_ws r') = Some (Inr (vs, r))"
      by (auto split: if_splits)
    show ?thesis
      using "4.IH"(2) [OF v0 _ _ sk False c rec] "4.prems"(2) wf0 by simp
  qed
next
  case (6 f cfg d ps s)
  from "6.prems" obtain cs k r0 where s: "s = 34 # cs" and key: "scan_str [] cs = Inr (k, r0)"
    by (auto split: list.splits if_splits sum.splits)
  from "6.prems" s key obtain r1 where col: "skip_ws r0 = 58 # r1"
    by (auto split: list.splits if_splits)
  from "6.prems" s key col obtain v0 r2
    where v0: "scan_value f cfg d (skip_ws r1) = Some (Inr (v0, r2))"
    by (auto split: option.splits sum.splits)
  have wf0: "json_wf d v0" using "6.IH"(1) [OF s _ key _ col _ v0] by simp
  have upd: "distinct (map fst (AList.update k v0 ps))" "\<forall>(k', v') \<in> set (AList.update k v0 ps). json_wf d v'"
    using "6.prems"(2,3) wf0 by (auto simp: distinct_update dest!: set_update_cases)
  from "6.prems" s key col v0 obtain c r3 where sk: "skip_ws r2 = c # r3"
    by (auto split: list.splits)
  show ?case
  proof (cases "c = 125")
    case True
    with "6.prems" s key col v0 sk upd show ?thesis by simp
  next
    case False
    with "6.prems" s key col v0 sk have c: "c = 44"
      and rec: "scan_members f cfg d (AList.update k v0 ps) (skip_ws r3) = Some (Inr (qs, r))"
      by (auto split: if_splits)
    show ?thesis
      using "6.IH"(2) [OF s _ key _ col _ v0 _ _ sk False c rec] upd by simp
  qed
qed simp_all

text \<open>
  C23: every value \<open>json.loads\<close> returns is a well-formed dict/list tree: the keys
  of each decoded object are distinct (a repeated key keeps its first position and its
  last value) and the nesting depth is within the interpreter's recursion room.
\<close>

theorem json_loads_wf: "json_loads cfg s = Inr v \<Longrightarrow> json_wf (recursion_room cfg) v"
proof -
  assume "json_loads cfg s = Inr v"
  then obtain r where "scan_value (Suc (2 * length s)) cfg (recursion_room cfg) (skip_ws s) = Some (Inr (v, r))"
    unfolding json_loads_def by (auto split: if_splits option.splits sum.splits)
  then show ?thesis by (rule scan_wf(1))
qed

theorem json_loads_wf_witness:
  \<open>json_loads \<lparr>recursion_room = 2, int_max_str_digits = 4300\<rparr> (S ''{"a": [1], "b": 2, "a": {}}'') =
     Inr (JObj [(S ''a'', JObj []), (S ''b'', JInt 2)]) \<and>
   json_wf 2 (JObj [(S ''a'', JObj []), (S ''b'', JInt 2)])\<close>
proof -
  have l: \<open>json_loads \<lparr>recursion_room = 2, int_max_str_digits = 4300\<rparr> (S ''{"a": [1], "b": 2, "a": {}}'') =
     Inr (JObj [(S ''a'', JObj []), (S ''b'', JInt 2)])\<close>
    by (simp add: json_loads_def S_def del: scan_value.simps) code_simp
  from l json_loads_wf [OF l] show ?thesis by simp
qed

subsection \<open>The limits of the decoder\<close>

text \<open>
  The two limits of the interpreter the decoder enforces: each container it opens takes
  one level of the recursion room, and an integer literal may have at most
  \<open>int_max_str_digits\<close> digits. Both end \<open>json.loads\<close> with an exception that
  the script, which parses the creation reply without \<open>try\<close>, does not catch.
\<close>

lemma skip_ws_bracket [simp]:
  "skip_ws (91 # s) = 91 # s" "skip_ws (93 # s) = 93 # s"
  by (simp_all add: skip_ws_def is_ws_def)

lemma scan_nested:
  "2 * n < f \<Longrightarrow>
   scan_value f cfg d (replicate (Suc n) 91 @ replicate (Suc n) 93 @ r) =
     Some (if n < d then Inr (nested n, r) else Inl RecursionError)"
proof (induction n arbitrary: f d r)
  case 0
  then obtain f' where "f = Suc f'" by (cases f) auto
  then show ?case by simp
next
  case (Suc n)
  then obtain f' where f: "f = Suc (Suc f')" "2 * n < f'" by (cases f; cases "f - 1") auto
  have ih: "scan_value f' cfg (d - 1) (replicate (Suc n) 91 @ replicate (Suc n) 93 @ (93 # r)) =
      Some (if n < d - 1 then Inr (nested n, 93 # r) else Inl RecursionError)"
    by (rule Suc.IH [OF f(2)])
  have "replicate (Suc (Suc n)) 91 @ replicate (Suc (Suc n)) 93 @ r =
        91 # (replicate (Suc n) 91 @ replicate (Suc n) 93 @ (93 # r))"
    by (simp add: replicate_app_Cons_same)
  then show ?case
    using ih f(1) by (auto simp: replicate_app_Cons_same)
qed

text \<open>
  C26: \<open>json.loads\<close> of \<open>n + 1\<close> nested arrays returns them when the recursion room
  is larger than \<open>n\<close>, and raises \<open>RecursionError\<close> otherwise: the limit is
  exact.
\<close>

theorem json_loads_nested:
  "json_loads cfg (replicate (Suc n) 91 @ replicate (Suc n) 93) =
     (if n < recursion_room cfg then Inr (nested n) else Inl RecursionError)"
  using scan_nested [of n "Suc (2 * length (replicate (Suc n) 91 @ replicate (Suc n) 93))" cfg
                        "recursion_room cfg" "[]"]
  by (simp add: json_loads_def skip_ws_def is_ws_def)

text \<open>
  C27: \<open>json.loads\<close> of an integer literal returns the integer when it has at most
  \<open>int_max_str_digits\<close> digits (or the limit is off), and raises \<open>ValueError\<close>
  otherwise.
\<close>

theorem json_loads_int_limit:
  "json_loads cfg (int_repr i) =
     (if int_digits_ok cfg (length (digits_of (nat \<bar>i\<bar>))) then Inr (JInt i) else Inl ValueError)"
proof -
  obtain c cs where c: "int_repr i @ [] = c # cs" "c = 45 \<and> is_digit (hd cs) \<or> is_digit c"
    using int_repr_start [of i "[]"] by blast
  moreover have "take 8 cs \<noteq> S ''Infinity''" if "is_digit (hd cs)"
    using that by (cases cs) (simp_all add: S_def is_digit_def)
  ultimately have "\<not> is_ws c" "c \<noteq> 65279" "c \<notin> {34, 123, 91, 110, 116, 102, 78, 73}"
    "\<not> (c = 45 \<and> take 8 cs = S ''Infinity'')"
    by (auto simp: is_ws_def is_digit_def)
  then show ?thesis
    using c(1) scan_value_number [of c cs] match_number_int_limit [of "[]" cfg i]
    by (simp add: json_loads_def skip_ws_def ends_value_def split: if_splits)
qed

end
