(* ===== verification/Spec2Isabelle.thy ===== *)
theory Spec2Isabelle
  imports Workflow Json_Codec
begin

text \<open>
  \<^bold>\<open>A verification of \<open>src/github-create-api.py\<close>.\<close>
  The program is one Python script: \<open>main()\<close> prints a banner, checks that
  \<open>curl --version\<close> runs, reads a username and a token from standard input, creates
  the repository \<open>review-insights-platform\<close> through the GitHub API with
  \<open>curl\<close>, adds the git remote, pushes \<open>main\<close> and \<open>gh-pages\<close>, sets the
  repository topics and prints a summary; the module entry first changes into a fixed
  directory. The script calls three pieces of the Python library whose behaviour
  decides its branches: \<open>str.strip()\<close>, the operator \<open>in\<close> on strings, and
  \<open>json.dumps\<close>/\<open>json.loads\<close>.

  \<^bold>\<open>Theories.\<close>
  \<^item> \<open>Prelude\<close>: code points as the model of Python text (\<open>pystr\<close>, literals
    \<open>S ''...''\<close>), the exceptions \<open>py_exc\<close>, the rule collections.
  \<^item> \<open>PyStr\<close>: \<open>str.strip()\<close> as CPython's \<open>do_strip\<close> computes it (two index
    loops, \<open>strip_left\<close> and \<open>strip_right\<close>), the whitespace test
    \<open>Py_UNICODE_ISSPACE\<close>, and substring search \<open>py_contains\<close>; both are shown equal
    to reference definitions. Library code, modelled from CPython's C source.
  \<^item> \<open>Json\<close>: the value type \<open>json\<close>, the encoder \<open>json_dumps\<close> with the default
    options, and the decoder \<open>json_loads\<close> after CPython's C scanner
    (\<open>scan_value\<close>, \<open>scan_items\<close>, \<open>scan_members\<close>, \<open>scan_str\<close>,
    \<open>match_number\<close>), including its errors, the recursion limit and the digit limit
    of integers. Library code, modelled from CPython's C source.
  \<^item> \<open>Json_Codec\<close>: how encoder and decoder fit together: the encoder writes pure
    ASCII, and \<open>json_loads\<close> reads back every value \<open>json_dumps\<close> writes when it
    holds no float, only Unicode scalar values, distinct keys, integers within the digit
    limit and nesting within the recursion limit (\<open>json_loads_dumps\<close>, by induction
    on the value along the scanner); conversely every decoded value is well formed
    (\<open>json_wf\<close>, by induction along the mutual recursion of the scanner).
  \<^item> \<open>Provisioner\<close>: the script itself, one definition per block of \<open>main\<close>
    (\<open>banner\<close>, \<open>check_curl\<close>, \<open>instructions\<close>, \<open>read_credentials\<close>,
    \<open>create_repository\<close> with \<open>report_failure\<close>, \<open>push_main\<close>,
    \<open>push_pages\<close>, \<open>add_topics\<close>, \<open>summary\<close>), composed as \<open>publish\<close>,
    \<open>main\<close> and \<open>script\<close> in the order of the source. A step is a function from
    the process state (\<open>st\<close>: the trace of observable events and the unread input)
    to a result or a stop (\<open>sys.exit(n)\<close> or an uncaught exception) and the new
    state. The outside world (\<open>world\<close>) fixes what \<open>os.chdir\<close> and each
    \<open>subprocess.run\<close> do; a run may answer differently depending on what happened
    before.
  \<^item> \<open>Steps\<close>: predicates over all runs (which exit statuses a step can produce, which
    programs it starts, whether it reads input) with one rule per combinator, and the
    fact that the programs a run starts follow the plan \<open>command_plan\<close>.
  \<^item> \<open>Scenarios\<close>: the path a step takes on a world that answers each command in a
    fixed way (\<open>appends\<close>, \<open>stops\<close>, rules \<open>path_rules\<close>), one lemma per path
    of each block, the independence of the result from the best-effort commands, and
    \<open>first_run\<close>: the program a step starts first on every path.
  \<^item> \<open>Workflow\<close>: the specification's workflow as an abstract decision table
    (\<open>spec_outcome\<close> over the \<open>session\<close> a run presents: tool check,
    trimmed credentials, creation status and reply message, push status) with its error
    classes, and the refinement theorem that \<open>run_script\<close> implements it in the
    environment the specification assumes (\<open>spec_env\<close>), proved from one path
    lemma per row of the table.
  \<^item> This theory: the properties of the whole program (C1 to C14, C19 to C22, C24,
    C28 to C30), each with a witness on a concrete world built by \<open>demo_world\<close>.

  \<^bold>\<open>Properties.\<close> C1 bounds the exit status; C2 shows that the commands follow the
  plan and none is repeated; C3 that blank credentials lead to status 1 without any
  network call; C4 to C8 give the output and status of each failure the script
  classifies (missing \<open>curl\<close>, bad token, existing repository, other message, no
  message); C9 the successful run; C10 the failed push with its recovery line; C11
  that best-effort results never matter; C12 to C14 behaviours the specification does
  not expect (an unparsable reply, a \<open>null\<close> message, and a best-effort command
  that cannot be started all end the process with an uncaught exception), and C22 a
  successful creation misread as a failure; C15 to C18
  are the library facts the script relies on; C19 bounds the request bodies to ASCII,
  and C20 shows that they decode to exactly the objects the script built, whatever the
  username holds; C21 that status 0 means the whole workflow ran and the summary was
  printed last; C23 that every value \<open>json.loads\<close> returns has distinct keys in each
  object and nests within the recursion room; C24, a liveness property, that a run
  whose first checks pass always sends the creation request second, whatever the
  external programs answer (\<open>Scenarios.first_run\<close>); C25 that the script refines
  the specification's decision table: exit status and final message are those of the
  outcome the specification prescribes; C26 and C27 that the decoder's two limits
  (nesting within the recursion room, integer literals within the digit limit) are
  exact and end in \<open>RecursionError\<close> and \<open>ValueError\<close>; C28 and C29 the two
  boundary cases of the environment: input that ends before the credentials are
  complete, and a working directory that does not exist, both ending with an uncaught
  exception and status 1; C30, an invariant of the process state, that input is read one
  line per prompt and at most two lines (\<open>Steps.reads_within\<close>).

  \<^bold>\<open>Bounds and fuel.\<close> The JSON scanner is written with fuel; \<open>json_loads\<close> gives
  it \<open>2 * length s + 1\<close>, which is enough: each call consumes input except that an
  element loop may revisit its position once (\<open>Json.scan_shorter\<close>), so the scanner
  always returns a result with that fuel, and the same result with any larger fuel
  (C18, from \<open>Json.scan_fuel_enough\<close> and \<open>Json.scan_fuel_mono\<close>); the
  \<open>None\<close> branch of \<open>json_loads\<close> is never taken. Python integers are unbounded and
  are modelled as \<open>int\<close>; no fixed-width arithmetic occurs in the script.

  \<^bold>\<open>Not modelled.\<close> The text of tracebacks and exception messages; the rounding of
  \<open>float()\<close> (a float keeps its literal text: a faithful model needs IEEE-754 double
  rounding and the shortest round-trip \<open>repr\<close>, and the script neither encodes a float
  nor looks at one it decodes); \<open>json.dumps\<close> of floats and the
  digit limit on printing integers (the script only encodes strings, bools and a list of
  strings); the decoding of \<open>curl\<close>'s output bytes (a decoding failure is the answer
  \<open>Raised UnicodeDecodeError\<close> of the world); the interpreter's exact recursion
  depth (the parameter \<open>recursion_room\<close> of the configuration); \<open>KeyboardInterrupt\<close> and other signals; failures of
  the terminal itself: \<open>print\<close> is assumed never to fail (no
  \<open>UnicodeEncodeError\<close> for the emoji on a non-UTF-8 standard output, no broken
  pipe) and standard input is a list of already decoded lines (no
  \<open>UnicodeDecodeError\<close> from \<open>input()\<close>); what
  \<open>curl\<close>, \<open>git\<close> and GitHub do, which is the world.
\<close>

definition demo_config :: py_config where
  "demo_config = \<lparr>recursion_room = 990, int_max_str_digits = 4300\<rparr>"

definition demo_world :: "pystr list \<Rightarrow> proc \<Rightarrow> proc \<Rightarrow> proc \<Rightarrow> proc \<Rightarrow> world" where
  "demo_world ins curl create remote push =
     \<lparr>w_chdir = (\<lambda>_. None), w_stdin = ins,
      w_run = (\<lambda>h a. if a = curl_version_cmd then curl
                     else if a ! 2 = S ''POST'' then create
                     else if a ! 1 = S ''remote'' then remote
                     else if a = push_main_cmd then push
                     else Completed 0 [] []),
      w_config = demo_config\<rparr>"

definition demo_input :: "pystr list" where
  "demo_input = [S '' alice '', S ''tok123'']"

definition ok :: proc where
  "ok = Completed 0 [] []"

definition bad_credentials_body :: pystr where
  \<open>bad_credentials_body = S ''{"message": "Bad credentials"}''\<close>

definition exists_body :: pystr where
  \<open>exists_body = S ''{"message": "name already exists on this account"}''\<close>

definition creation_failed_body :: pystr where
  \<open>creation_failed_body = S ''{"message": "Repository creation failed.", "errors": [{"resource": "Repository", "code": "custom", "field": "name", "message": "name already exists on this account"}]}''\<close>

definition owner_message_body :: pystr where
  \<open>owner_message_body = S ''{"name": "review-insights-platform", "owner": {"login": "message"}}''\<close>

definition null_message_body :: pystr where
  \<open>null_message_body = S ''{"message": null}''\<close>

lemmas demo_simps = demo_world_def demo_input_def ok_def answers_def completes_def ready_def
  curl_version_cmd_def create_repo_cmd_def remote_add_cmd_def push_main_cmd_def push_pages_cmd_def
  topics_cmd_def

lemma strip_demo:
  "str_strip (S '' alice '') = S ''alice''" "str_strip (S ''tok123'') = S ''tok123''"
  "str_strip (S '' '') = []"
  by (simp_all add: str_strip_spec strip_spec_def py_isspace_def S_def)

lemma ready_demo: "ready (demo_world demo_input ok c r p) (S ''alice'') (S ''tok123'')"
  by (simp add: demo_simps strip_demo)

lemma loads_demo_bodies:
  "json_loads demo_config bad_credentials_body =
     Inr (JObj [(S ''message'', JStr (S ''Bad credentials''))])"
  "json_loads demo_config exists_body =
     Inr (JObj [(S ''message'', JStr (S ''name already exists on this account''))])"
  "json_loads demo_config null_message_body = Inr (JObj [(S ''message'', JNull)])"
  "json_loads demo_config (S ''{}'') = Inr (JObj [])"
  "json_loads demo_config [] = Inl JSONDecodeError"
  "json_loads demo_config owner_message_body =
     Inr (JObj [(S ''name'', JStr (S ''review-insights-platform'')),
                (S ''owner'', JObj [(S ''login'', JStr (S ''message''))])])"
  by (simp_all add: demo_config_def bad_credentials_body_def exists_body_def null_message_body_def
        owner_message_body_def
        json_loads_def S_def del: scan_value.simps; code_simp)+

lemma loads_creation_failed:
  "json_loads demo_config creation_failed_body =
     Inr (JObj [(S ''message'', JStr (S ''Repository creation failed.'')),
                (S ''errors'', JArr [JObj [(S ''resource'', JStr (S ''Repository'')),
                                           (S ''code'', JStr (S ''custom'')),
                                           (S ''field'', JStr (S ''name'')),
                                           (S ''message'', JStr (S ''name already exists on this account''))]])])"
  by (simp add: demo_config_def creation_failed_body_def json_loads_def S_def del: scan_value.simps)
     code_simp

text \<open>
  C1: whatever the world does, the process ends with status 0 or 1.
\<close>

theorem exit_status_0_or_1: "fst (run_script w) \<in> {0, 1}"
  by (simp add: exit_code_run_script)

text \<open>
  C5: a creation reply whose \<open>message\<close> is \<open>Bad credentials\<close> prints the
  invalid-token message right after the creation call and ends with status 1; only
  \<open>curl --version\<close> ran before.
\<close>

theorem bad_credentials_reported:
  assumes "ready w u t" "answers w (create_repo_cmd u t) (Completed rc out err)"
    and "rc \<noteq> 0 \<or> py_contains message_key out"
    and "json_loads (w_config w) out = Inr (JObj ps)"
    and "map_of ps (S ''message'') = Some (JStr (S ''Bad credentials''))"
  shows "\<exists>es. run_script w =
      (1, es @ [Run (create_repo_cmd u t),
                Out (CROSS_MARK # S '' Invalid token! Please check your Personal Access Token.'')]) \<and>
    runs es = [curl_version_cmd]"
  using assms(5) by (intro run_create_reported [OF assms(1-4)] report_bad_credentials)

theorem bad_credentials_witness:
  "\<exists>es. run_script (demo_world demo_input ok (Completed 0 bad_credentials_body []) ok ok) =
      (1, es @ [Run (create_repo_cmd (S ''alice'') (S ''tok123'')),
                Out (CROSS_MARK # S '' Invalid token! Please check your Personal Access Token.'')]) \<and>
    runs es = [curl_version_cmd]"
  apply (rule bad_credentials_reported [where rc = 0 and out = bad_credentials_body and err = "[]"
           and ps = "[(S ''message'', JStr (S ''Bad credentials''))]"])
      apply (rule ready_demo)
     apply (simp add: demo_simps)
    apply (simp add: bad_credentials_body_def message_key_def S_def)
   apply (simp add: demo_world_def loads_demo_bodies)
  apply simp
  done

text \<open>
  C2: the programs a run starts are, in order, a prefix of the plan
  \<open>command_plan\<close> of its input (\<open>curl --version\<close>, then the five calls of the
  publishing steps when both credentials are present), and no program is started
  twice: there are no retries.
\<close>

theorem commands_follow_plan_once:
  "prefix (runs (snd (run_script w))) (command_plan (w_stdin w)) \<and>
   distinct (runs (snd (run_script w)))"
  using runs_follow_plan [of w] distinct_prefix [OF runs_follow_plan distinct_command_plan]
  by blast

text \<open>
  C3: when the input does not supply two lines that strip to a non-empty username and
  token, the process ends with status 1 and starts no program but \<open>curl --version\<close>:
  no network call is made.
\<close>

theorem blank_credentials_no_network:
  assumes "\<not> (\<exists>l1 l2 ls. w_stdin w = l1 # l2 # ls \<and> str_strip l1 \<noteq> [] \<and> str_strip l2 \<noteq> [])"
  shows "fst (run_script w) = 1 \<and> prefix (runs (snd (run_script w))) [curl_version_cmd]"
proof
  have "isl (fst (script w))"
  proof (cases "fst (script w)")
    case (Inr x)
    with script_returns_credentials [of w x] assms show ?thesis by blast
  qed simp
  then show "fst (run_script w) = 1" by (simp add: exit_code_run_script)
  have "command_plan (w_stdin w) = [curl_version_cmd]"
    using assms by (auto simp: command_plan_def split: list.splits)
  then show "prefix (runs (snd (run_script w))) [curl_version_cmd]"
    using runs_follow_plan [of w] by simp
qed

theorem blank_credentials_witness:
  "fst (run_script (demo_world [S '' '', S ''tok123''] ok ok ok ok)) = 1 \<and>
   prefix (runs (snd (run_script (demo_world [S '' '', S ''tok123''] ok ok ok ok)))) [curl_version_cmd]"
  by (rule blank_credentials_no_network) (simp add: demo_world_def strip_demo)

text \<open>
  C4: when \<open>curl --version\<close> fails or cannot be started, the script prints the
  missing-curl message right after it and ends with status 1, before reading any input.
\<close>

theorem curl_missing_aborts:
  assumes "w_chdir w work_dir = None"
    and "answers w curl_version_cmd (Completed rc out err) \<and> rc \<noteq> 0 \<or>
         answers w curl_version_cmd (Raised e)"
  shows "\<exists>es. run_script w =
    (1, Chdir work_dir # es @
        [Run curl_version_cmd, Out (CROSS_MARK # S '' Error: curl is required but not installed'')]) \<and>
    runs es = []"
  using curl_fails_path [OF assms] run_script_main_stops by (fastforce simp: exit_code_def)

theorem curl_missing_witness:
  "\<exists>es. run_script (demo_world demo_input (Raised OSError) ok ok ok) =
    (1, Chdir work_dir # es @
        [Run curl_version_cmd, Out (CROSS_MARK # S '' Error: curl is required but not installed'')]) \<and>
    runs es = []"
  by (rule curl_missing_aborts [where e = OSError]) (simp_all add: demo_simps)

text \<open>
  C6: a creation reply whose \<open>message\<close> (other than \<open>Bad credentials\<close>) contains
  \<open>already exists\<close> prints that the repository \<open>username/review-insights-platform\<close>
  already exists, and the process ends with status 1.
\<close>

theorem already_exists_reported:
  assumes "ready w u t" "answers w (create_repo_cmd u t) (Completed rc out err)"
    and "rc \<noteq> 0 \<or> py_contains message_key out"
    and "json_loads (w_config w) out = Inr (JObj ps)"
    and "map_of ps (S ''message'') = Some (JStr m)" "m \<noteq> S ''Bad credentials''"
    and "sublist (S ''already exists'') m"
  shows "\<exists>es. run_script w =
      (1, es @ [Run (create_repo_cmd u t),
                Out (CROSS_MARK # S '' Repository '' @ u @ S ''/'' @ repo_name @ S '' already exists!'')]) \<and>
    runs es = [curl_version_cmd]"
  using assms(5-7) by (intro run_create_reported [OF assms(1-4)] report_already_exists)

theorem already_exists_witness:
  "\<exists>es. run_script (demo_world demo_input ok (Completed 0 exists_body []) ok ok) =
      (1, es @ [Run (create_repo_cmd (S ''alice'') (S ''tok123'')),
                Out (CROSS_MARK # S '' Repository '' @ S ''alice'' @ S ''/'' @ repo_name @
                     S '' already exists!'')]) \<and>
    runs es = [curl_version_cmd]"
  apply (rule already_exists_reported [where rc = 0 and out = exists_body and err = "[]"
           and ps = "[(S ''message'', JStr (S ''name already exists on this account''))]"
           and m = "S ''name already exists on this account''"])
        apply (rule ready_demo)
       apply (simp add: demo_simps)
      apply (simp add: exists_body_def message_key_def S_def)
     apply (simp add: demo_world_def loads_demo_bodies)
    apply simp
   apply (simp add: S_def)
  apply (simp add: S_def sublist_append_rightI sublist_Cons_right)
  done

text \<open>
  C7: a creation reply whose \<open>message\<close> is some other text \<open>m\<close>, without
  \<open>already exists\<close> in it, prints \<open>Error: m\<close> and ends with status 1. The test
  reads only the top-level \<open>message\<close>: GitHub's reply to a name that is taken
  (top-level \<open>Repository creation failed.\<close>, the \<open>already exists\<close> text inside
  \<open>errors\<close>) takes this generic path, as the witness shows.
\<close>

theorem other_error_reported:
  assumes "ready w u t" "answers w (create_repo_cmd u t) (Completed rc out err)"
    and "rc \<noteq> 0 \<or> py_contains message_key out"
    and "json_loads (w_config w) out = Inr (JObj ps)"
    and "map_of ps (S ''message'') = Some (JStr m)" "m \<noteq> S ''Bad credentials''"
    and "\<not> sublist (S ''already exists'') m"
  shows "\<exists>es. run_script w =
      (1, es @ [Run (create_repo_cmd u t), Out (CROSS_MARK # S '' Error: '' @ m)]) \<and>
    runs es = [curl_version_cmd]"
  using assms(5-7) by (intro run_create_reported [OF assms(1-4)] report_other_message)

theorem other_error_witness:
  "\<exists>es. run_script (demo_world demo_input ok (Completed 0 creation_failed_body []) ok ok) =
      (1, es @ [Run (create_repo_cmd (S ''alice'') (S ''tok123'')),
                Out (CROSS_MARK # S '' Error: '' @ S ''Repository creation failed.'')]) \<and>
    runs es = [curl_version_cmd]"
  apply (rule other_error_reported [where rc = 0 and out = creation_failed_body and err = "[]"])
        apply (rule ready_demo)
       apply (simp add: demo_simps)
      apply (simp add: creation_failed_body_def message_key_def S_def)
     apply (simp add: demo_world_def loads_creation_failed)
    apply simp
   apply (simp add: S_def)
  apply (simp add: S_def sublist_Cons_right)
  done

text \<open>
  C8: a failed creation whose reply has no \<open>message\<close> prints
  \<open>Error: Unknown error\<close> and ends with status 1.
\<close>

theorem unknown_error_reported:
  assumes "ready w u t" "answers w (create_repo_cmd u t) (Completed rc out err)" "rc \<noteq> 0"
    and "json_loads (w_config w) out = Inr (JObj ps)" "map_of ps (S ''message'') = None"
  shows "\<exists>es. run_script w =
      (1, es @ [Run (create_repo_cmd u t), Out (CROSS_MARK # S '' Error: '' @ S ''Unknown error'')]) \<and>
    runs es = [curl_version_cmd]"
  using assms(3,5) by (intro run_create_reported [OF assms(1,2) _ assms(4)] report_no_message) simp_all

theorem unknown_error_witness:
  "\<exists>es. run_script (demo_world demo_input ok (Completed 22 (S ''{}'') []) ok ok) =
      (1, es @ [Run (create_repo_cmd (S ''alice'') (S ''tok123'')),
                Out (CROSS_MARK # S '' Error: '' @ S ''Unknown error'')]) \<and>
    runs es = [curl_version_cmd]"
  apply (rule unknown_error_reported [where rc = 22 and out = "S ''{}''" and err = "[]" and ps = "[]"])
      apply (rule ready_demo)
     apply (simp add: demo_simps)
    apply simp
   apply (simp add: demo_world_def loads_demo_bodies)
  apply simp
  done

text \<open>
  C9: when the creation reply is a success (status 0, no \<open>"message"\<close> in it) and
  \<open>git push -u origin main\<close> succeeds, and the best-effort commands run to completion
  with any status, the process ends with status 0, has started exactly the programs of
  the plan, and its output ends with the summary for the username, which names the
  repository page and the Pages address.
\<close>

theorem full_run_succeeds:
  assumes "ready w u t" "answers w (create_repo_cmd u t) (Completed 0 out err)"
    and "\<not> py_contains message_key out"
    and "completes w (remote_add_cmd u)" "answers w push_main_cmd (Completed 0 out' err')"
    and "completes w push_pages_cmd" "completes w (topics_cmd u t)"
  shows "\<exists>es. run_script w = (0, es @ map Out (summary_lines u)) \<and>
              runs es = command_plan (w_stdin w)"
proof -
  obtain es where "appends (publish w u t) () (es @ map Out (summary_lines u))" "runs es = publish_plan u t"
    using publish_full_path [OF assms(2-7)] by blast
  moreover from run_publish_appends [OF assms(1) this(1)] obtain es0 where
    "runs es0 = [curl_version_cmd]" "run_script w = (0, es0 @ es @ map Out (summary_lines u))"
    by blast
  ultimately show ?thesis
    by (intro exI [of _ "es0 @ es"]) (simp add: ready_command_plan [OF assms(1)])
qed

theorem full_run_witness:
  "\<exists>es. run_script (demo_world demo_input ok ok ok ok) =
      (0, es @ map Out (summary_lines (S ''alice''))) \<and>
    runs es = command_plan demo_input"
  using full_run_succeeds [of "demo_world demo_input ok ok ok ok" "S ''alice''" "S ''tok123''" "[]" "[]" "[]" "[]"]
  by (simp add: ready_demo message_key_def) (simp add: demo_simps)

text \<open>
  C10: when the repository was created but \<open>git push -u origin main\<close> fails, the
  script prints the push error and the manual recovery commands, whose first line holds
  the username, the token and the repository name, and ends with status 1; the topics
  request and the \<open>gh-pages\<close> push are never made.
\<close>

theorem push_failure_recovery:
  assumes "ready w u t" "answers w (create_repo_cmd u t) (Completed 0 out err)"
    and "\<not> py_contains message_key out"
    and "completes w (remote_add_cmd u)" "answers w push_main_cmd (Completed rc out' err')" "rc \<noteq> 0"
  shows "\<exists>es. run_script w =
      (1, es @ [Run push_main_cmd, Out (CROSS_MARK # S '' Push failed: '' @ err'),
                Out (10 # S ''Try running manually:''), Out (recovery_line u t),
                Out (S ''git push -u origin main'')]) \<and>
    runs es = [curl_version_cmd, create_repo_cmd u t, remote_add_cmd u] \<and>
    sublist u (recovery_line u t) \<and> sublist t (recovery_line u t) \<and>
    sublist repo_name (recovery_line u t)"
proof -
  obtain e1 where e1: "appends (create_repository w u t) () e1" "runs e1 = [create_repo_cmd u t]"
    using create_repository_ok [OF assms(2,3)] by blast
  obtain e2 where e2: "stops (push_main w u t) (SysExit 1)
      (e2 @ [Run push_main_cmd, Out (CROSS_MARK # S '' Push failed: '' @ err'),
             Out (10 # S ''Try running manually:''), Out (recovery_line u t),
             Out (S ''git push -u origin main'')])" "runs e2 = [remote_add_cmd u]"
    using push_main_fails [OF assms(4-6)] by blast
  from run_publish_stops [OF assms(1) publish_push_stops [OF e1(1) e2(1)]] e1(2) e2(2)
  show ?thesis
    by (fastforce simp: exit_code_def recovery_line_parts)
qed

theorem push_failure_witness:
  "\<exists>es. run_script (demo_world demo_input ok ok ok (Completed 128 [] (S ''denied''))) =
      (1, es @ [Run push_main_cmd, Out (CROSS_MARK # S '' Push failed: '' @ S ''denied''),
                Out (10 # S ''Try running manually:''), Out (recovery_line (S ''alice'') (S ''tok123'')),
                Out (S ''git push -u origin main'')]) \<and>
    runs es = [curl_version_cmd, create_repo_cmd (S ''alice'') (S ''tok123''), remote_add_cmd (S ''alice'')] \<and>
    sublist (S ''alice'') (recovery_line (S ''alice'') (S ''tok123'')) \<and>
    sublist (S ''tok123'') (recovery_line (S ''alice'') (S ''tok123'')) \<and>
    sublist repo_name (recovery_line (S ''alice'') (S ''tok123''))"
  by (rule push_failure_recovery [where rc = 128 and out = "[]" and err = "[]" and out' = "[]"])
     (simp_all add: ready_demo demo_simps strip_demo message_key_def)

text \<open>
  C11: the results of the best-effort commands are ignored: two worlds that differ only
  in how \<open>git remote add\<close>, \<open>git push origin gh-pages\<close> and the topics request
  complete (any status, any output) give the same exit status and the same output.
\<close>

theorem best_effort_results_ignored:
  "differ_in_best_effort w w' \<Longrightarrow> run_script w' = run_script w"
  by (simp add: run_script_def differ_script)

theorem best_effort_witness:
  "run_script ((demo_world demo_input ok ok ok ok)
      \<lparr>w_run := \<lambda>h a. if a = topics_cmd (S ''alice'') (S ''tok123'') then Completed 22 [] []
                        else w_run (demo_world demo_input ok ok ok ok) h a\<rparr>) =
   run_script (demo_world demo_input ok ok ok ok)"
proof (rule best_effort_results_ignored)
  show "differ_in_best_effort (demo_world demo_input ok ok ok ok)
     ((demo_world demo_input ok ok ok ok)
      \<lparr>w_run := \<lambda>h a. if a = topics_cmd (S ''alice'') (S ''tok123'') then Completed 22 [] []
                        else w_run (demo_world demo_input ok ok ok ok) h a\<rparr>)"
    unfolding differ_in_best_effort_def by (auto simp: demo_simps best_effort_cmd_def)
qed

text \<open>
  C12: a failed creation whose reply is not JSON (for instance the empty output of
  \<open>curl\<close> when the host cannot be reached) ends the process with the uncaught
  \<open>json.loads\<close> error, status 1, and no message of the script after the call: the
  reply is not classified as a generic API error.
\<close>

theorem malformed_reply_uncaught:
  assumes "ready w u t" "answers w (create_repo_cmd u t) (Completed rc out err)" "rc \<noteq> 0"
    and "json_loads (w_config w) out = Inl e"
  shows "\<exists>es. run_script w = (1, es @ [Run (create_repo_cmd u t)]) \<and> runs es = [curl_version_cmd]"
  by (rule run_create_raised [OF assms(1,2)]) (simp_all add: assms)

theorem malformed_reply_witness:
  "\<exists>es. run_script (demo_world demo_input ok (Completed 6 [] []) ok ok) =
     (1, es @ [Run (create_repo_cmd (S ''alice'') (S ''tok123''))]) \<and> runs es = [curl_version_cmd]"
  by (rule malformed_reply_uncaught [where rc = 6 and out = "[]" and err = "[]" and e = JSONDecodeError])
     (simp_all add: ready_demo demo_simps strip_demo loads_demo_bodies)

text \<open>
  C13: a creation reply with \<open>"message": null\<close> makes \<open>'already exists' in None\<close>
  raise \<open>TypeError\<close>: the process ends with status 1 and no message after the call.
\<close>

theorem null_message_type_error:
  assumes "ready w u t" "answers w (create_repo_cmd u t) (Completed rc out err)"
    and "rc \<noteq> 0 \<or> py_contains message_key out"
    and "json_loads (w_config w) out = Inr (JObj ps)" "map_of ps (S ''message'') = Some JNull"
  shows "\<exists>es. run_script w = (1, es @ [Run (create_repo_cmd u t)]) \<and> runs es = [curl_version_cmd]"
  using assms(4,5)
  by (intro run_create_raised [OF assms(1-3), where e = TypeError and resp = "JObj ps"])
     (simp add: report_not_container)

theorem null_message_witness:
  "\<exists>es. run_script (demo_world demo_input ok (Completed 0 null_message_body []) ok ok) =
     (1, es @ [Run (create_repo_cmd (S ''alice'') (S ''tok123''))]) \<and> runs es = [curl_version_cmd]"
  apply (rule null_message_type_error [where rc = 0 and out = null_message_body and err = "[]"
           and ps = "[(S ''message'', JNull)]"])
      apply (rule ready_demo)
     apply (simp add: demo_simps)
    apply (simp add: null_message_body_def message_key_def S_def)
   apply (simp add: demo_world_def loads_demo_bodies)
  apply simp
  done

text \<open>
  C14: \<open>git remote add\<close> is run without \<open>try\<close>: when it cannot be started (no
  \<open>git\<close> on the path) the exception is uncaught and the process ends with status 1
  right after it, although the step is documented as best-effort.
\<close>

theorem remote_add_raise_aborts:
  assumes "ready w u t" "answers w (create_repo_cmd u t) (Completed 0 out err)"
    and "\<not> py_contains message_key out" "answers w (remote_add_cmd u) (Raised e)"
  shows "\<exists>es. run_script w = (1, es @ [Run (remote_add_cmd u)]) \<and>
              runs es = [curl_version_cmd, create_repo_cmd u t]"
proof -
  obtain e1 where e1: "appends (create_repository w u t) () e1" "runs e1 = [create_repo_cmd u t]"
    using create_repository_ok [OF assms(2,3)] by blast
  obtain e2 where e2: "stops (push_main w u t) (Uncaught e) (e2 @ [Run (remote_add_cmd u)])"
    "runs e2 = []"
    using push_main_remote_raises [OF assms(4)] by blast
  from run_publish_stops [OF assms(1) publish_push_stops [OF e1(1) e2(1)]] e1(2) e2(2)
  show ?thesis
    by (fastforce simp: exit_code_def)
qed

theorem remote_add_raise_witness:
  "\<exists>es. run_script (demo_world demo_input ok ok (Raised OSError) ok) =
     (1, es @ [Run (remote_add_cmd (S ''alice''))]) \<and>
     runs es = [curl_version_cmd, create_repo_cmd (S ''alice'') (S ''tok123'')]"
  by (rule remote_add_raise_aborts [where out = "[]" and err = "[]" and e = OSError])
     (simp_all add: ready_demo demo_simps strip_demo message_key_def)

text \<open>
  C19: the two request bodies the script sends, the repository description and the
  topics, are pure ASCII whatever the username holds, because \<open>json.dumps\<close>
  escapes every other code point.
\<close>

theorem payloads_ascii:
  "set (json_dumps (create_payload u)) \<subseteq> {..<128} \<and> set (json_dumps topics_payload) \<subseteq> {..<128}"
proof
  show "set (json_dumps (create_payload u)) \<subseteq> {..<128}"
    unfolding create_payload_def
    by (rule dumps_obj_ascii)
       (simp only: list.set insert_iff empty_iff prod.inject, elim disjE conjE FalseE;
        simp only: dumps_leaf_ascii)
  have "set (json_dumps (JArr (map JStr topic_names))) \<subseteq> {..<128}"
    by (rule dumps_arr_ascii) (simp only: set_map image_iff, elim bexE; simp only: dumps_leaf_ascii)
  then show "set (json_dumps topics_payload) \<subseteq> {..<128}"
    unfolding topics_payload_def
    by (intro dumps_obj_ascii) (simp only: list.set insert_iff empty_iff prod.inject, elim disjE conjE FalseE;
        simp only:)
qed

text \<open>
  C20: whatever valid text the username holds (quotes, backslashes, control characters,
  non-ASCII letters), the request bodies decode with \<open>json.loads\<close> to exactly the
  objects the script built: the username cannot change the structure of the request.
\<close>

theorem payloads_roundtrip:
  assumes "\<forall>c \<in> set u. scalar_cp c" "2 \<le> recursion_room cfg"
  shows "json_loads cfg (json_dumps (create_payload u)) = Inr (create_payload u) \<and>
         json_loads cfg (json_dumps topics_payload) = Inr topics_payload"
proof (intro conjI json_loads_dumps)
  show "json_ok cfg (recursion_room cfg) (create_payload u)"
    using assms by (simp add: create_payload_def repo_name_def scalar_S list_all_iff ball_Un)
  show "json_ok cfg (recursion_room cfg) topics_payload"
    using assms by (simp add: topics_payload_def topic_names_def scalar_S list_all_iff)
qed

theorem payloads_roundtrip_witness:
  \<open>json_loads demo_config (json_dumps (create_payload [34, 92, 10, 233, 128640])) =
     Inr (create_payload [34, 92, 10, 233, 128640]) \<and>
   json_loads demo_config (json_dumps topics_payload) = Inr topics_payload\<close>
  by (rule payloads_roundtrip) (simp_all add: scalar_cp_def demo_config_def)

text \<open>
  C21: a run that ends with status 0 has started every program of the plan, in order,
  and its output ends with the summary for the username read from the first input line.
\<close>

theorem exit_zero_complete:
  assumes "fst (run_script w) = 0"
  shows "\<exists>l1 l2 ls es. w_stdin w = l1 # l2 # ls \<and>
           runs (snd (run_script w)) = command_plan (w_stdin w) \<and>
           snd (run_script w) = es @ map Out (summary_lines (str_strip l1))"
proof -
  from assms obtain x where x: "fst (script w) = Inr x"
    by (cases "fst (script w)") (simp_all add: exit_code_run_script)
  from script_returns_credentials [OF x] obtain l1 l2 ls s3 where
    l: "w_stdin w = l1 # l2 # ls" "str_strip l1 \<noteq> []" "str_strip l2 \<noteq> []"
       "publish w (str_strip l1) (str_strip l2) s3 = script w" "runs (trace s3) = [curl_version_cmd]"
    by blast
  obtain s' where s': "script w = (Inr x, s')" using x by (metis prod.collapse)
  from publish_returns [OF l(4) [unfolded s']] l s' show ?thesis
    by (auto simp: run_script_def exit_code_def command_plan_def)
qed

lemma demo_run_exit_zero: "fst (run_script (demo_world demo_input ok ok ok ok)) = 0"
proof -
  have "\<exists>es. appends (publish (demo_world demo_input ok ok ok ok) (S ''alice'') (S ''tok123'')) ()
      (es @ map Out (summary_lines (S ''alice''))) \<and> runs es = publish_plan (S ''alice'') (S ''tok123'')"
    by (rule publish_full_path [where out = "[]" and err = "[]" and out' = "[]" and err' = "[]"])
       (simp_all add: demo_simps message_key_def)
  then obtain es where "appends (publish (demo_world demo_input ok ok ok ok) (S ''alice'') (S ''tok123'')) ()
      (es @ map Out (summary_lines (S ''alice'')))" by blast
  from run_publish_appends [OF ready_demo this] show ?thesis by auto
qed

theorem exit_zero_witness:
  "\<exists>l1 l2 ls es. w_stdin (demo_world demo_input ok ok ok ok) = l1 # l2 # ls \<and>
     runs (snd (run_script (demo_world demo_input ok ok ok ok))) =
       command_plan (w_stdin (demo_world demo_input ok ok ok ok)) \<and>
     snd (run_script (demo_world demo_input ok ok ok ok)) = es @ map Out (summary_lines (str_strip l1))"
  by (rule exit_zero_complete [OF demo_run_exit_zero])

text \<open>
  C22: the failure test of line 71 looks for the text \<open>"message"\<close> anywhere in the
  reply. A successful creation (status 0) whose reply merely contains that text as a
  value, for instance the owner login of a user called \<open>message\<close>, is reported as
  \<open>Error: Unknown error\<close> with status 1, although the repository was created.
\<close>

theorem message_text_misread:
  assumes "ready w u t" "answers w (create_repo_cmd u t) (Completed 0 out err)"
    and "py_contains message_key out"
    and "json_loads (w_config w) out = Inr (JObj ps)" "map_of ps (S ''message'') = None"
  shows "\<exists>es. run_script w =
      (1, es @ [Run (create_repo_cmd u t), Out (CROSS_MARK # S '' Error: '' @ S ''Unknown error'')]) \<and>
    runs es = [curl_version_cmd]"
  using assms(3,5) by (intro run_create_reported [OF assms(1,2) _ assms(4)] report_no_message) simp_all

theorem message_text_witness:
  "\<exists>es. run_script (demo_world [S ''message'', S ''tok123''] ok (Completed 0 owner_message_body []) ok ok) =
      (1, es @ [Run (create_repo_cmd (S ''message'') (S ''tok123'')),
                Out (CROSS_MARK # S '' Error: '' @ S ''Unknown error'')]) \<and>
    runs es = [curl_version_cmd]"
  apply (rule message_text_misread [where out = owner_message_body and err = "[]"
           and ps = "[(S ''name'', JStr (S ''review-insights-platform'')),
                      (S ''owner'', JObj [(S ''login'', JStr (S ''message''))])]"])
     apply (simp add: demo_simps str_strip_spec strip_spec_def py_isspace_def S_def)
    apply (simp add: demo_simps)
   apply (simp add: owner_message_body_def message_key_def S_def)
  apply (simp_all add: demo_world_def loads_demo_bodies)
  done

text \<open>
  C24: a run whose directory change and \<open>curl --version\<close> succeed and whose input
  gives non-empty credentials always sends the creation request, right after
  \<open>curl --version\<close> and before any other program, whatever GitHub and git answer.
\<close>

theorem ready_reaches_creation:
  "ready w u t \<Longrightarrow> take 2 (runs (snd (run_script w))) = [curl_version_cmd, create_repo_cmd u t]"
proof -
  assume "ready w u t"
  then obtain s where s: "script w = publish w u t s" "runs (trace s) = [curl_version_cmd]"
    using script_reaches_publish by blast
  from publish_first_run [of w u t] obtain es rest where
    "trace (snd (publish w u t s)) = trace s @ es" "runs es = create_repo_cmd u t # rest"
    unfolding first_run_def by blast
  with s show ?thesis
    by (simp add: run_script_def split_beta)
qed

theorem ready_reaches_creation_witness:
  "take 2 (runs (snd (run_script (demo_world demo_input ok ok ok ok)))) =
     [curl_version_cmd, create_repo_cmd (S ''alice'') (S ''tok123'')]"
  by (rule ready_reaches_creation [OF ready_demo])

text \<open>
  Witness for C25: GitHub's reply to a taken name, with status 22, is classified as
  \<open>RepositoryExists\<close>, and the run ends with status 1 and the already-exists message.
\<close>

theorem workflow_witness:
  "spec_env (demo_world demo_input ok (Completed 22 exists_body []) ok ok) \<and>
   spec_outcome (session_of (demo_world demo_input ok (Completed 22 exists_body []) ok ok)) = RepositoryExists \<and>
   (\<exists>es. run_script (demo_world demo_input ok (Completed 22 exists_body []) ok ok) =
      (1, es @ [Out (CROSS_MARK # S '' Repository '' @ S ''alice'' @ S ''/'' @ repo_name @ S '' already exists!'')]))"
proof -
  let ?w = "demo_world demo_input ok (Completed 22 exists_body []) ok ok"
  have nc: "create_repo_cmd (S ''alice'') (S ''tok123'') \<noteq> curl_version_cmd"
    "create_repo_cmd (S ''alice'') (S ''tok123'') ! 2 = S ''POST''"
    by (simp_all add: create_repo_cmd_def curl_version_cmd_def)
  have cont: "py_contains message_key exists_body"
    by (simp add: exists_body_def message_key_def S_def)
  have msg: "message_of demo_config exists_body = Some (S ''name already exists on this account'')"
    by (simp add: message_of_def loads_demo_bodies)
  have sess: "session_of ?w = \<lparr>tool_ok = True, user_in = S ''alice'', token_in = S ''tok123'', create_rc = 22,
      reply_message = Some (S ''name already exists on this account''), push_rc = 0, push_err = []\<rparr>"
    by (simp add: session_of_def demo_simps strip_demo nc msg)
  have env: "spec_env ?w"
    unfolding spec_env_def Let_def sess
    by (simp add: demo_simps nc cont reply_shaped_def loads_demo_bodies)
  have out: "spec_outcome (session_of ?w) = RepositoryExists"
    by (simp add: sess spec_outcome_def S_def sublist_append_rightI sublist_Cons_right)
  from Workflow.workflow_refines [OF env] env out show ?thesis by (simp add: sess)
qed

text \<open>
  C28: when standard input ends before the credentials are complete (no line at all, or
  only a non-blank username), \<open>input()\<close> raises \<open>EOFError\<close> right after its
  prompt: the run ends with status 1 and a traceback, without the specification's
  missing-input message and without any network call.
\<close>

theorem eof_before_credentials:
  assumes "w_chdir w work_dir = None" "answers w curl_version_cmd (Completed 0 out err)"
    and "w_stdin w = [] \<or> (\<exists>l. w_stdin w = [l] \<and> str_strip l \<noteq> [])"
  shows "\<exists>es. run_script w =
      (1, es @ [Prompt (if w_stdin w = [] then S ''GitHub username: '' else S ''GitHub Personal Access Token: '')]) \<and>
    runs es = [curl_version_cmd]"
  using assms(3)
proof
  assume e: "w_stdin w = []"
  show ?thesis
    using run_credentials_stop [OF assms(1,2), of "Uncaught EOFError" "[Prompt (S ''GitHub username: '')]"]
      read_credentials_eof(1) e
    by (fastforce simp: exit_code_def)
next
  assume "\<exists>l. w_stdin w = [l] \<and> str_strip l \<noteq> []"
  then obtain l where l: "w_stdin w = [l]" "str_strip l \<noteq> []" by blast
  show ?thesis
    using run_credentials_stop [OF assms(1,2), of "Uncaught EOFError"
            "[Prompt (S ''GitHub username: ''), Prompt (S ''GitHub Personal Access Token: '')]"]
      read_credentials_eof(2) [of _ l] l
    by (fastforce simp: exit_code_def)
qed

theorem eof_before_credentials_witness:
  "\<exists>es. run_script (demo_world [S '' alice ''] ok ok ok ok) =
      (1, es @ [Prompt (S ''GitHub Personal Access Token: '')]) \<and> runs es = [curl_version_cmd]"
  using eof_before_credentials [of "demo_world [S '' alice ''] ok ok ok ok" "[]" "[]"]
  by (simp add: demo_simps strip_demo)

text \<open>
  C29: when the fixed working directory cannot be entered, \<open>os.chdir\<close> at line 143
  raises before \<open>main()\<close> starts: the run ends with status 1, prints nothing, reads
  no input and starts no program.
\<close>

theorem chdir_failure_aborts:
  "w_chdir w work_dir = Some e \<Longrightarrow> run_script w = (1, [Chdir work_dir])"
  by (simp add: run_script_def script_def thenM_def bindM_def py_chdir_def emit_def exit_code_def)
theorem chdir_failure_witness:
  "run_script ((demo_world demo_input ok ok ok ok)\<lparr>w_chdir := \<lambda>_. Some OSError\<rparr>) = (1, [Chdir work_dir])"
  by (rule chdir_failure_aborts) simp

text \<open>
  C30: the script reads standard input only through its prompts: what is left unread at
  the end is the input minus one line per prompt written, and it writes at most two
  prompts, whatever the input and the external programs do.
\<close>

theorem input_one_line_per_prompt:
  "stdin (snd (script w)) = drop (prompts (trace (snd (script w)))) (w_stdin w) \<and>
   prompts (trace (snd (script w))) \<le> 2"
proof -
  obtain r s' where eq: "thenM (py_chdir w work_dir) (main w) \<lparr>trace = [], stdin = w_stdin w\<rparr> = (r, s')"
    by (cases "thenM (py_chdir w work_dir) (main w) \<lparr>trace = [], stdin = w_stdin w\<rparr>")
  then obtain es where "trace s' = es" "stdin s' = drop (prompts es) (w_stdin w)" "prompts es \<le> 2"
    using reads_within_script [of w] unfolding reads_within_def by fastforce
  with eq show ?thesis by (simp add: script_def)
qed

text \<open>Witnesses for the library properties C16 and C18.\<close>

theorem str_strip_Nil_witness:
  "str_strip [32, 9, 12288] = [] \<and> py_isspace 32 \<and> py_isspace 9 \<and> py_isspace 12288"
  using PyStr.str_strip_Nil_iff [of "[32, 9, 12288]"] by (simp add: py_isspace_def)

theorem scan_value_fuel_witness:
  "2 * length (S ''[1, [2]]'') < 17 \<and>
   (\<exists>x. scan_value 17 demo_config 3 (S ''[1, [2]]'') = Some x) \<and>
   scan_value 17 demo_config 3 (S ''[1, [2]]'') = scan_value (Suc (2 * length (S ''[1, [2]]''))) demo_config 3 (S ''[1, [2]]'')"
  using Json.scan_value_fuel_sufficient [of "S ''[1, [2]]''" 17 demo_config 3] by (simp add: S_def)

end
